(* ===== verification/Prelude.thy ===== *)
theory Prelude
  imports
    Main
    "HOL-Library.Word"
    "HOL-Library.Char_ord"
    "HOL-Library.List_Lexorder"
    "HOL-Library.Sublist"
    "HOL-Library.While_Combinator"
begin

text \<open>
  Shared vocabulary of the development: byte strings and machine integers, the error
  values of the code, the result-and-state monad in which the transactional code is
  written, ordered maps (Rust's \<open>BTreeMap\<close> and the contents of a RocksDB column
  family), the string functions of the Rust standard library the sources use, and the
  lemmas about them that the components share.
\<close>

section \<open>Types\<close>

text \<open>
  A Rust \<open>String\<close> or \<open>Vec<u8>\<close> is a list of bytes; \<open>char\<close> is HOL's type of bytes, so both are
  \<open>string\<close>, \<open>as_bytes\<close> is the identity and \<open>len\<close> counts bytes. \<open>u64\<close> and \<open>u32\<close> are words.
  \<open>i64\<close> values (fencing tokens, counters) are integers whose range is checked wherever the code
  checks it (parsing, saturating arithmetic).
\<close>

type_synonym bytes = string
type_synonym u64 = "64 word"
type_synonym u32 = "32 word"
type_synonym i64 = int
type_synonym cf = string

named_theorems cf_defs \<open>definitions of the column family names\<close>
named_theorems key_defs \<open>definitions of the key encodings\<close>
named_theorems sim_intros \<open>simulation rules for store programs\<close>

section \<open>Errors, and programs over a transaction\<close>

text \<open>
  The values an \<open>anyhow::Error\<close> takes in the modelled code. \<open>Io\<close> is a failure of the database
  itself and \<open>Panic\<close> a panic of the standard library; both can interrupt any access to the store.
\<close>

datatype error =
    Io
  | Panic
  | SetScanLimitExceeded string nat
  | MissingColumnFamily cf
  | EncodeError
  | DecodeError
  | ParseError string
  | MalformedPolicy
  | MalformedWaitEdge string
  | ReadOnlyTxn
  | Diverges

text \<open>
  Code that takes \<open>&mut tx\<close> and returns \<open>anyhow::Result\<close> is a function of the transaction
  state that returns an error or a value with the new state. On an error the callers drop the
  transaction, so no state is returned then.
\<close>

type_synonym ('t, 'a) txm = "'t \<Rightarrow> error + ('a \<times> 't)"

definition ret :: "'a \<Rightarrow> ('t, 'a) txm" where
  "ret a t = Inr (a, t)"

definition fail :: "error \<Rightarrow> ('t, 'a) txm" where
  "fail e t = Inl e"

definition bnd :: "('t, 'a) txm \<Rightarrow> ('a \<Rightarrow> ('t, 'b) txm) \<Rightarrow> ('t, 'b) txm" where
  "bnd m f t = (case m t of Inl e \<Rightarrow> Inl e | Inr (a, t') \<Rightarrow> f a t')"

text \<open>Lifting a pure fallible computation (a \<open>Result\<close> followed by \<open>?\<close>).\<close>

definition lift_res :: "error + 'a \<Rightarrow> ('t, 'a) txm" where
  "lift_res r t = (case r of Inl e \<Rightarrow> Inl e | Inr a \<Rightarrow> Inr (a, t))"

text \<open>\<open>for x in xs { body(x)?; }\<close>\<close>

fun for_each :: "('a \<Rightarrow> ('t, unit) txm) \<Rightarrow> 'a list \<Rightarrow> ('t, unit) txm" where
  "for_each f [] = ret ()"
| "for_each f (x # xs) = bnd (f x) (\<lambda>_. for_each f xs)"

text \<open>\<open>for x in xs { if let Some(r) = body(x)? { return Ok(Some(r)); } } Ok(None)\<close>\<close>

fun first_some :: "('a \<Rightarrow> ('t, 'b option) txm) \<Rightarrow> 'a list \<Rightarrow> ('t, 'b option) txm" where
  "first_some f [] = ret None"
| "first_some f (x # xs) =
     bnd (f x) (\<lambda>r. case r of Some b \<Rightarrow> ret (Some b) | None \<Rightarrow> first_some f xs)"

text \<open>\<open>for x in xs { if keep(x)? { out.push(x); } }\<close>, \<open>keep\<close> with its side effects.\<close>

fun filter_each :: "('a \<Rightarrow> ('t, bool) txm) \<Rightarrow> 'a list \<Rightarrow> ('t, 'a list) txm" where
  "filter_each f [] = ret []"
| "filter_each f (x # xs) =
     bnd (f x) (\<lambda>b. bnd (filter_each f xs) (\<lambda>ys. ret (if b then x # ys else ys)))"

text \<open>\<open>for x in xs { acc = body(x, acc)?; }\<close>\<close>

fun fold_each :: "('a \<Rightarrow> 'b \<Rightarrow> ('t, 'b) txm) \<Rightarrow> 'a list \<Rightarrow> 'b \<Rightarrow> ('t, 'b) txm" where
  "fold_each f [] acc = ret acc"
| "fold_each f (x # xs) acc = bnd (f x acc) (fold_each f xs)"

text \<open>
  \<open>loop { match body(c)? { None => break, Some(c') => c = c' } }\<close>. The loop state is the
  cursor still to be processed and the result so far; not terminating is the error \<open>Diverges\<close>.
\<close>

definition loop_while :: "('c \<Rightarrow> ('t, 'c option) txm) \<Rightarrow> 'c \<Rightarrow> ('t, unit) txm" where
  "loop_while body c t =
     (case while_option
        (\<lambda>(k, r). k \<noteq> None \<and> \<not> isl r)
        (\<lambda>(k, r). case (k, r) of
            (Some c', Inr t') \<Rightarrow>
              (case body c' t' of Inl e \<Rightarrow> (None, Inl e) | Inr (k', t'') \<Rightarrow> (k', Inr t''))
          | _ \<Rightarrow> (k, r))
        (Some c, Inr t) of
      None \<Rightarrow> Inl Diverges
    | Some (_, Inl e) \<Rightarrow> Inl e
    | Some (_, Inr t') \<Rightarrow> Inr ((), t'))"

lemma ret_Inr_iff [simp]: "ret a t = Inr (b, t') \<longleftrightarrow> b = a \<and> t' = t"
  by (auto simp: ret_def)

lemma fail_not_Inr [simp]: "fail e t \<noteq> Inr r"
  by (simp add: fail_def)

lemma bnd_Inr_iff:
  "bnd m f t = Inr (b, t'') \<longleftrightarrow> (\<exists>a t'. m t = Inr (a, t') \<and> f a t' = Inr (b, t''))"
  by (auto simp: bnd_def split: sum.splits prod.splits)

lemma lift_res_Inr_iff [simp]: "lift_res r t = Inr (a, t') \<longleftrightarrow> r = Inr a \<and> t' = t"
  by (auto simp: lift_res_def split: sum.splits)

lemma bnd_ret [simp]: "bnd (ret a) f = f a"
  by (simp add: bnd_def ret_def fun_eq_iff)

lemma bnd_assoc: "bnd (bnd m f) g = bnd m (\<lambda>a. bnd (f a) g)"
  by (auto simp: bnd_def fun_eq_iff split: sum.splits)

lemma bnd_fail [simp]: "bnd (fail e) f = fail e"
  by (simp add: bnd_def fail_def fun_eq_iff)

text \<open>Invariants of loops: the body keeps \<open>I\<close> on every element it is run on.\<close>

lemma for_each_inv:
  assumes "for_each f xs t = Inr (u, t')" and "I t"
    and step: "\<And>x u t t'. x \<in> set xs \<Longrightarrow> I t \<Longrightarrow> f x t = Inr (u, t') \<Longrightarrow> I t'"
  shows "I t'"
  using assms
proof (induction xs arbitrary: t)
  case (Cons x xs)
  then obtain a s where "f x t = Inr (a, s)" and rest: "for_each f xs s = Inr (u, t')"
    by (auto simp: bnd_Inr_iff)
  with Cons.prems have "I s" by (metis list.set_intros(1))
  with rest show ?case
    by (rule Cons.IH) (metis Cons.prems(3) list.set_intros(2))
qed simp

lemma first_some_inv:
  assumes "first_some f xs t = Inr (r, t')" and "I t"
    and step: "\<And>x r t t'. x \<in> set xs \<Longrightarrow> I t \<Longrightarrow> f x t = Inr (r, t') \<Longrightarrow> I t'"
  shows "I t'"
  using assms
proof (induction xs arbitrary: t)
  case (Cons x xs)
  then obtain a s where f: "f x t = Inr (a, s)"
    and rest: "(case a of Some b \<Rightarrow> ret (Some b) | None \<Rightarrow> first_some f xs) s = Inr (r, t')"
    by (auto simp: bnd_Inr_iff)
  from f Cons.prems have s: "I s" by (metis list.set_intros(1))
  show ?case
  proof (cases a)
    case None
    with rest have "first_some f xs s = Inr (r, t')" by simp
    from this s show ?thesis
      by (rule Cons.IH) (metis Cons.prems(3) list.set_intros(2))
  next
    case (Some b)
    with rest s show ?thesis by simp
  qed
qed simp

section \<open>Byte order\<close>

text \<open>
  RocksDB and \<open>BTreeMap<Vec<u8>, _>\<close> order keys bytewise, which is the lexicographic order of
  \<open>List_Lexorder\<close> over the byte order of \<open>Char_ord\<close>.
\<close>

lemma append_less_append [simp]: "(p @ a < p @ b) = (a < b)" for a b p :: "'a::linorder list"
  by (induction p) auto

lemma append_le_append [simp]: "(p @ a \<le> p @ b) = (a \<le> b)" for a b p :: "'a::linorder list"
  by (induction p) auto

lemma le_append_same [simp]: "p \<le> p @ a" for a p :: "'a::linorder list"
  by (induction p) auto

lemma prefix_le: "prefix p k \<Longrightarrow> p \<le> k" for p k :: "'a::linorder list"
  by (auto simp: prefix_def)

lemma less_append_same [simp]: "(p < p @ a) = (a \<noteq> [])" for a p :: "'a::linorder list"
  by (induction p) (auto, cases a, auto)

lemma not_append_less_same [simp]: "\<not> p @ a < p" for a p :: "'a::linorder list"
  by (induction p) auto

lemma no_prefix_less_append:
  "\<not> prefix p k \<Longrightarrow> p < k \<Longrightarrow> p @ a < k" for p k a :: "'a::linorder list"
  by (induction p arbitrary: k) (auto simp: neq_Nil_conv, case_tac k, auto)

text \<open>Membership in a half-open key range whose upper bound may be absent.\<close>

definition in_key_range :: "'a::linorder \<Rightarrow> 'a option \<Rightarrow> 'a \<Rightarrow> bool" where
  "in_key_range lo up k \<longleftrightarrow> lo \<le> k \<and> (case up of None \<Rightarrow> True | Some u \<Rightarrow> k < u)"

definition char_successor :: "char \<Rightarrow> char \<Rightarrow> bool" where
  "char_successor c d \<longleftrightarrow> (of_char d :: nat) = of_char c + 1"

lemma char_successor_less: "char_successor c d \<Longrightarrow> x < d \<longleftrightarrow> x \<le> c"
  by (auto simp: char_successor_def less_char_def less_eq_char_def)

lemma successor_prefix_range:
  assumes "char_successor c d"
  shows "(q @ [c] \<le> k \<and> k < q @ [d]) \<longleftrightarrow> prefix (q @ [c]) k"
proof (induction q arbitrary: k)
  case Nil
  show ?case
  proof (cases k)
    case (Cons x k')
    have "x < d \<longleftrightarrow> x \<le> c" using assms by (rule char_successor_less)
    moreover have "c < d" using assms by (simp add: char_successor_def less_char_def)
    ultimately show ?thesis using Cons by (auto simp: not_less dest: order_antisym)
  qed simp
next
  case (Cons x q)
  show ?case
  proof (cases k)
    case (Cons y k')
    then show ?thesis using Cons.IH[of k'] by auto
  qed simp
qed

lemma strict_sorted_keys_unique:
  fixes xs ys :: "('k::linorder \<times> 'v) list"
  assumes "sorted_wrt (<) (map fst xs)" and "sorted_wrt (<) (map fst ys)" and "set xs = set ys"
  shows "xs = ys"
  using assms
proof (induction xs arbitrary: ys)
  case Nil
  then show ?case by simp
next
  case (Cons x xs)
  then obtain y ys' where ys: "ys = y # ys'" by (cases ys) auto
  have "x = y"
  proof (rule ccontr)
    assume "x \<noteq> y"
    with Cons.prems(3) ys have "x \<in> set ys'" and "y \<in> set xs" by auto
    with Cons.prems(1,2) ys have "fst y < fst x" and "fst x < fst y" by auto
    then show False by simp
  qed
  moreover have "x \<notin> set xs" and "y \<notin> set ys'"
    using Cons.prems(1,2) ys by (auto simp: image_iff)
  ultimately have "set xs = set ys'" using Cons.prems(3) ys by auto
  with Cons.IH[of ys'] Cons.prems ys \<open>x = y\<close> show ?case by simp
qed

section \<open>Ordered maps\<close>

text \<open>
  A finite map with ordered iteration: a list of entries with strictly increasing keys. It stands
  for \<open>BTreeMap\<close> and for the contents of a column family.
\<close>

typedef (overloaded) ('k::linorder, 'v) omap = "{xs :: ('k \<times> 'v) list. sorted_wrt (<) (map fst xs)}"
  morphisms om_entries Om
  by (rule exI[of _ "[]"]) simp

setup_lifting type_definition_omap

fun ins_alist :: "'k::linorder \<Rightarrow> 'v \<Rightarrow> ('k \<times> 'v) list \<Rightarrow> ('k \<times> 'v) list" where
  "ins_alist k v [] = [(k, v)]"
| "ins_alist k v ((k', v') # xs) =
     (if k < k' then (k, v) # (k', v') # xs
      else if k = k' then (k, v) # xs
      else (k', v') # ins_alist k v xs)"

lemma set_fst_ins_alist: "fst ` set (ins_alist k v xs) = insert k (fst ` set xs)"
proof (induction xs)
  case (Cons x xs)
  then show ?case by (cases x) (simp add: insert_commute)
qed simp

lemma sorted_ins_alist:
  "sorted_wrt (<) (map fst xs) \<Longrightarrow> sorted_wrt (<) (map fst (ins_alist k v xs))"
proof (induction xs)
  case (Cons x xs)
  obtain k' v' where x: "x = (k', v')" by (cases x)
  have "\<forall>a \<in> fst ` set (ins_alist k v xs). k' < a" if "k' < k"
    using Cons.prems that x unfolding set_fst_ins_alist by auto
  with Cons x show ?case by auto
qed simp

lemma map_of_ins_alist:
  "sorted_wrt (<) (map fst xs) \<Longrightarrow> map_of (ins_alist k v xs) = (map_of xs)(k \<mapsto> v)"
  by (induction xs) (auto simp: fun_eq_iff map_of_eq_None_iff)

lemma sorted_filter_fst: "sorted_wrt (<) (map fst xs) \<Longrightarrow> sorted_wrt (<) (map fst (filter P xs))"
  by (induction xs) auto

lift_definition om_empty :: "('k::linorder, 'v) omap" is "[]"
  by simp

lift_definition om_insert :: "'k::linorder \<Rightarrow> 'v \<Rightarrow> ('k, 'v) omap \<Rightarrow> ('k, 'v) omap" is ins_alist
  by (rule sorted_ins_alist)

lift_definition om_delete :: "'k::linorder \<Rightarrow> ('k, 'v) omap \<Rightarrow> ('k, 'v) omap"
  is "\<lambda>k. filter (\<lambda>(k', _). k' \<noteq> k)"
  by (rule sorted_filter_fst)

lift_definition om_filter :: "('k::linorder \<Rightarrow> bool) \<Rightarrow> ('k, 'v) omap \<Rightarrow> ('k, 'v) omap"
  is "\<lambda>P. filter (\<lambda>(k, _). P k)"
  by (rule sorted_filter_fst)

definition om_lookup :: "('k::linorder, 'v) omap \<Rightarrow> 'k \<rightharpoonup> 'v" where
  "om_lookup m = map_of (om_entries m)"

definition om_of_list :: "('k::linorder \<times> 'v) list \<Rightarrow> ('k, 'v) omap" where
  "om_of_list xs = foldr (\<lambda>(k, v). om_insert k v) xs om_empty"

lemma om_entries_eqs [simp]:
  "om_entries om_empty = []"
  "om_entries (om_insert k v m) = ins_alist k v (om_entries m)"
  "om_entries (om_delete k m) = filter (\<lambda>(k', _). k' \<noteq> k) (om_entries m)"
  "om_entries (om_filter P m) = filter (\<lambda>(k', _). P k') (om_entries m)"
  by (transfer, simp)+

lemma om_entries_sorted [simp]: "sorted_wrt (<) (map fst (om_entries m))"
  using om_entries[of m] by simp

lemma om_entries_distinct [simp]: "distinct (map fst (om_entries m))"
  using om_entries_sorted[of m] strict_sorted_iff by blast

lemma map_of_filter_key: "map_of (filter (\<lambda>(k, _). P k) xs) k = (if P k then map_of xs k else None)"
  by (induction xs) auto

lemma om_lookup_simps [simp]:
  "om_lookup om_empty = (\<lambda>_. None)"
  "om_lookup (om_insert k v m) = (om_lookup m)(k \<mapsto> v)"
  "om_lookup (om_delete k m) = (om_lookup m)(k := None)"
  "om_lookup (om_filter P m) k = (if P k then om_lookup m k else None)"
  by (auto simp: om_lookup_def map_of_ins_alist fun_eq_iff map_of_filter_key)

lemma om_entries_iff: "(k, v) \<in> set (om_entries m) \<longleftrightarrow> om_lookup m k = Some v"
  by (simp add: om_lookup_def)

lemma om_entries_keys: "fst ` set (om_entries m) = dom (om_lookup m)"
  by (simp add: om_lookup_def dom_map_of_conv_image_fst)

lemma om_eqI: "(\<And>k. om_lookup m k = om_lookup n k) \<Longrightarrow> m = n"
proof -
  assume eq: "\<And>k. om_lookup m k = om_lookup n k"
  have "set (om_entries m) = set (om_entries n)"
    by (auto simp: om_entries_iff eq)
  then have "om_entries m = om_entries n"
    by (intro strict_sorted_keys_unique) simp_all
  then show "m = n" by (simp add: om_entries_inject)
qed

lemma om_lookup_of_list [simp]: "om_lookup (om_of_list xs) = map_of xs"
  by (induction xs) (auto simp: om_of_list_def)

lemma om_of_list_entries [simp]: "om_of_list (om_entries m) = m"
  by (rule om_eqI) (simp add: om_lookup_def[symmetric])

end
