(* ===== verification/Text_Codec.thy ===== *)
theory Text_Codec
  imports Prelude
begin

text \<open>
  The operations of the Rust standard library on strings and integers that the sources use:
  searching and splitting, decimal printing and parsing, UTF-8 validation, big-endian encoding
  and saturating arithmetic, each with the facts the components need of it.
\<close>

lemma unat_lt: "unat w < 2 ^ LENGTH('a)" for w :: "'a::len word"
  by (rule unsigned_less)

lemma word_of_nat_unat_eq: "word_of_nat (unat w) = w" for w :: "'a::len word"
  by simp

lemma unat_max_word [simp]: "unat (- 1 :: 'a::len word) = 2 ^ LENGTH('a) - 1"
  by (simp add: unsigned_minus_1_eq_mask mask_eq_exp_minus_1)

lemma unat_plus_one: "w \<noteq> - 1 \<Longrightarrow> unat (w + 1) = unat w + 1" for w :: "'a::len word"
proof -
  assume "w \<noteq> - 1"
  then have "unat w \<noteq> 2 ^ LENGTH('a) - 1"
    by (metis unat_max_word unsigned_word_eqI)
  with unat_lt[of w] have "unat w + 1 < 2 ^ LENGTH('a)" by linarith
  then show ?thesis by (simp add: unat_word_ariths(1))
qed

section \<open>Searching and splitting strings\<close>

text \<open>The index of the first and of the last occurrence (\<open>str::find\<close>, \<open>str::rfind\<close>).\<close>

fun str_find :: "char \<Rightarrow> string \<Rightarrow> nat option" where
  "str_find c [] = None"
| "str_find c (x # xs) = (if x = c then Some 0 else map_option Suc (str_find c xs))"

fun str_rfind :: "char \<Rightarrow> string \<Rightarrow> nat option" where
  "str_rfind c [] = None"
| "str_rfind c (x # xs) =
     (case str_rfind c xs of Some i \<Rightarrow> Some (Suc i) | None \<Rightarrow> if x = c then Some 0 else None)"

fun split_once :: "char \<Rightarrow> string \<Rightarrow> (string \<times> string) option" where
  "split_once c [] = None"
| "split_once c (x # xs) =
     (if x = c then Some ([], xs) else map_option (\<lambda>(a, b). (x # a, b)) (split_once c xs))"

fun split_on :: "char \<Rightarrow> string \<Rightarrow> string list" where
  "split_on c [] = [[]]"
| "split_on c (x # xs) =
     (if x = c then [] # split_on c xs
      else (case split_on c xs of [] \<Rightarrow> [[x]] | y # ys \<Rightarrow> (x # y) # ys))"

definition strip_prefix :: "'a list \<Rightarrow> 'a list \<Rightarrow> 'a list option" where
  "strip_prefix p s = (if prefix p s then Some (drop (length p) s) else None)"

lemma str_find_None: "str_find c s = None \<longleftrightarrow> c \<notin> set s"
  by (induction s) auto

lemma str_find_notin [simp]: "c \<notin> set s \<Longrightarrow> str_find c s = None"
  by (simp add: str_find_None)

lemma str_find_append_notin [simp]: "c \<notin> set a \<Longrightarrow> str_find c (a @ c # b) = Some (length a)"
  by (induction a) auto

lemma str_find_SomeD:
  "str_find c s = Some i \<Longrightarrow> i < length s \<and> s ! i = c \<and> c \<notin> set (take i s)"
  by (induction s arbitrary: i) (auto split: if_splits)

lemma str_find_Some_append:
  "str_find c s = Some i \<Longrightarrow> c \<notin> set (take i s) \<and> s = take i s @ c # drop (Suc i) s"
  using str_find_SomeD[of c s i] by (auto simp: id_take_nth_drop[symmetric])

lemma str_rfind_None: "str_rfind c s = None \<longleftrightarrow> c \<notin> set s"
  by (induction s) (auto split: option.splits)

lemma str_rfind_SomeD:
  "str_rfind c s = Some i \<Longrightarrow> i < length s \<and> s ! i = c \<and> c \<notin> set (drop (Suc i) s)"
proof (induction s arbitrary: i)
  case (Cons x xs)
  show ?case
  proof (cases "str_rfind c xs")
    case None
    moreover from this have "c \<notin> set xs" by (simp add: str_rfind_None)
    ultimately show ?thesis using Cons.prems by (auto split: if_splits)
  next
    case (Some j)
    with Cons.IH[OF Some] Cons.prems show ?thesis by auto
  qed
qed simp

lemma str_rfind_append: "c \<notin> set b \<Longrightarrow> str_rfind c (a @ c # b) = Some (length a)"
proof (induction a)
  case Nil
  then have "str_rfind c b = None" by (simp add: str_rfind_None)
  then show ?case by simp
qed simp

lemma str_rfind_Some_append:
  "str_rfind c s = Some i \<Longrightarrow> c \<notin> set (drop (Suc i) s) \<and> s = take i s @ c # drop (Suc i) s"
  using str_rfind_SomeD[of c s i] by (auto simp: id_take_nth_drop[symmetric])

lemma str_rfind_SomeE:
  assumes "str_rfind c s = Some i"
  obtains a b where "s = a @ c # b" and "c \<notin> set b" and "i = length a"
proof (rule that)
  show "s = take i s @ c # drop (Suc i) s" and "c \<notin> set (drop (Suc i) s)"
    using str_rfind_Some_append[OF assms] by blast+
  show "i = length (take i s)" using str_rfind_SomeD[OF assms] by simp
qed

lemma split_once_None: "split_once c s = None \<longleftrightarrow> c \<notin> set s"
  by (induction s) auto

lemma split_once_notin [simp]: "c \<notin> set s \<Longrightarrow> split_once c s = None"
  by (simp add: split_once_None)

lemma split_once_append [simp]: "c \<notin> set a \<Longrightarrow> split_once c (a @ c # b) = Some (a, b)"
  by (induction a) auto

lemma split_once_SomeD: "split_once c s = Some (a, b) \<Longrightarrow> s = a @ c # b \<and> c \<notin> set a"
  by (induction s arbitrary: a b) (auto split: if_splits)

lemma strip_prefix_append [simp]: "strip_prefix p (p @ s) = Some s"
  by (simp add: strip_prefix_def)

lemma strip_prefix_Some: "strip_prefix p s = Some r \<longleftrightarrow> s = p @ r"
  by (auto simp: strip_prefix_def prefix_def)

section \<open>Decimal numbers\<close>

definition digit_char :: "nat \<Rightarrow> char" where
  "digit_char d = char_of (48 + d)"

definition is_digit :: "char \<Rightarrow> bool" where
  "is_digit c \<longleftrightarrow> 48 \<le> (of_char c :: nat) \<and> (of_char c :: nat) \<le> 57"

fun nat_str :: "nat \<Rightarrow> string" where
  "nat_str n = (if n < 10 then [digit_char n] else nat_str (n div 10) @ [digit_char (n mod 10)])"

declare nat_str.simps [simp del]

definition int_str :: "int \<Rightarrow> string" where
  "int_str i = (if i < 0 then CHR ''-'' # nat_str (nat (- i)) else nat_str (nat i))"

definition digits_val :: "string \<Rightarrow> nat" where
  "digits_val = foldl (\<lambda>a c. a * 10 + (of_char c - 48)) 0"

definition parse_digits :: "string \<Rightarrow> nat option" where
  "parse_digits s = (if s \<noteq> [] \<and> list_all is_digit s then Some (digits_val s) else None)"

text \<open>
  \<open>u64::from_str\<close> and its siblings: an optional plus sign, at least one digit, no overflow.
\<close>

definition parse_unsigned :: "nat \<Rightarrow> string \<Rightarrow> nat option" where
  "parse_unsigned bits s =
     (case parse_digits (case s of c # r \<Rightarrow> if c = CHR ''+'' then r else s | [] \<Rightarrow> s) of
        Some n \<Rightarrow> if n < 2 ^ bits then Some n else None
      | None \<Rightarrow> None)"

definition parse_u64 :: "string \<Rightarrow> u64 option" where
  "parse_u64 s = map_option word_of_nat (parse_unsigned 64 s)"

definition parse_u32 :: "string \<Rightarrow> u32 option" where
  "parse_u32 s = map_option word_of_nat (parse_unsigned 32 s)"

definition parse_i64 :: "string \<Rightarrow> int option" where
  "parse_i64 s =
     (case s of
        [] \<Rightarrow> None
      | c # r \<Rightarrow>
          if c = CHR ''-'' then
            (case parse_digits r of Some n \<Rightarrow> if n \<le> 2 ^ 63 then Some (- int n) else None | None \<Rightarrow> None)
          else
            (case parse_digits (if c = CHR ''+'' then r else s) of
               Some n \<Rightarrow> if n < 2 ^ 63 then Some (int n) else None
             | None \<Rightarrow> None))"

definition u64_str :: "u64 \<Rightarrow> string" where
  "u64_str w = nat_str (unat w)"

lemma of_digit_char: "d < 10 \<Longrightarrow> (of_char (digit_char d) :: nat) = 48 + d"
  by (simp add: digit_char_def of_char_of)

lemma is_digit_digit_char [simp]: "d < 10 \<Longrightarrow> is_digit (digit_char d)"
  by (simp add: is_digit_def of_digit_char)

lemma nat_str_digits: "nat_str n \<noteq> [] \<and> list_all is_digit (nat_str n)"
proof (induction n rule: nat_str.induct)
  case (1 n)
  then show ?case by (subst (1 2) nat_str.simps) auto
qed

lemma digits_val_snoc: "digits_val (s @ [c]) = digits_val s * 10 + (of_char c - 48)"
  by (simp add: digits_val_def)

lemma digits_val_nat_str: "digits_val (nat_str n) = n"
proof (induction n rule: nat_str.induct)
  case (1 n)
  show ?case
  proof (cases "n < 10")
    case True
    then show ?thesis
      by (subst nat_str.simps) (simp add: digits_val_def of_digit_char)
  next
    case False
    with 1 show ?thesis
      by (subst nat_str.simps) (simp add: digits_val_snoc of_digit_char)
  qed
qed

lemma parse_digits_nat_str [simp]: "parse_digits (nat_str n) = Some n"
  using nat_str_digits[of n] by (simp add: parse_digits_def digits_val_nat_str)

lemma nat_str_head:
  obtains c r where "nat_str n = c # r" and "is_digit c"
  using nat_str_digits[of n] by (cases "nat_str n") auto

lemma is_digit_signs [simp]: "\<not> is_digit CHR ''+''" "\<not> is_digit CHR ''-''"
  by (simp_all add: is_digit_def)

lemma parse_unsigned_nat_str: "parse_unsigned b (nat_str n) = (if n < 2 ^ b then Some n else None)"
proof -
  obtain c r where cr: "nat_str n = c # r" and "is_digit c" by (rule nat_str_head)
  then have "c \<noteq> CHR ''+''" by auto
  then show ?thesis
    using parse_digits_nat_str[of n] cr by (simp add: parse_unsigned_def)
qed

lemma parse_u64_u64_str [simp]: "parse_u64 (u64_str w) = Some w"
  using unat_lt[of w] by (simp add: parse_u64_def u64_str_def parse_unsigned_nat_str)

lemma parse_i64_int_str:
  assumes "- (2 ^ 63) \<le> i" and "i < 2 ^ 63"
  shows "parse_i64 (int_str i) = Some i"
proof (cases "i < 0")
  case True
  with assms show ?thesis by (simp add: parse_i64_def int_str_def nat_le_iff)
next
  case False
  obtain c r where cr: "nat_str (nat i) = c # r" and "is_digit c" by (rule nat_str_head)
  then have "c \<noteq> CHR ''+''" and "c \<noteq> CHR ''-''" by auto
  moreover have "nat i < 2 ^ 63" using assms(2) False by (simp add: nat_less_iff)
  ultimately show ?thesis
    using False parse_digits_nat_str[of "nat i"] cr by (simp add: parse_i64_def int_str_def)
qed

lemma digit_not_special:
  "is_digit c \<Longrightarrow> c \<noteq> CHR 0x00 \<and> c \<noteq> CHR '':'' \<and> c \<noteq> CHR ''/'' \<and> c \<noteq> CHR '';''"
  by (auto simp: is_digit_def)

lemma nat_str_chars: "c \<in> set (nat_str n) \<Longrightarrow> is_digit c"
  using nat_str_digits[of n] by (auto simp: list_all_iff)

lemma u64_str_no_special [simp]:
  "CHR 0x00 \<notin> set (u64_str w)" "CHR '':'' \<notin> set (u64_str w)"
  using nat_str_chars[of _ "unat w"] digit_not_special by (auto simp: u64_str_def)

section \<open>Big-endian integers\<close>

fun be_bytes :: "nat \<Rightarrow> nat \<Rightarrow> bytes" where
  "be_bytes 0 n = []"
| "be_bytes (Suc k) n = be_bytes k (n div 256) @ [char_of (n mod 256)]"

definition from_be :: "bytes \<Rightarrow> nat" where
  "from_be = foldl (\<lambda>a c. a * 256 + of_char c) 0"

definition u64_be :: "u64 \<Rightarrow> bytes" where
  "u64_be w = be_bytes 8 (unat w)"

definition u32_be :: "u32 \<Rightarrow> bytes" where
  "u32_be w = be_bytes 4 (unat w)"

definition u64_from_be :: "bytes \<Rightarrow> u64" where
  "u64_from_be b = word_of_nat (from_be b)"

lemma length_be_bytes [simp]: "length (be_bytes k n) = k"
  by (induction k arbitrary: n) auto

lemma length_u64_be [simp]: "length (u64_be w) = 8"
  by (simp add: u64_be_def)

lemma length_u32_be [simp]: "length (u32_be w) = 4"
  by (simp add: u32_be_def)

lemma from_be_snoc: "from_be (s @ [c]) = from_be s * 256 + of_char c"
  by (simp add: from_be_def)

lemma from_be_be_bytes: "n < 256 ^ k \<Longrightarrow> from_be (be_bytes k n) = n"
proof (induction k arbitrary: n)
  case (Suc k)
  then have "n div 256 < 256 ^ k" by (simp add: less_mult_imp_div_less mult.commute)
  with Suc.IH show ?case by (simp add: from_be_snoc of_char_of)
qed (simp add: from_be_def)

lemma from_be_less: "from_be b < 256 ^ length b"
proof (induction b rule: rev_induct)
  case (snoc c b)
  have "(of_char c :: nat) < 256" by simp
  with snoc have "from_be b * 256 + of_char c < (from_be b + 1) * 256" by simp
  also have "\<dots> \<le> 256 ^ length b * 256" using snoc by (intro mult_right_mono) auto
  finally show ?case by (simp add: from_be_snoc)
qed (simp add: from_be_def)

lemma be_bytes_from_be: "be_bytes (length b) (from_be b) = b"
proof (induction b rule: rev_induct)
  case (snoc c b)
  have "(of_char c :: nat) < 256" by simp
  then have "(from_be b * 256 + of_char c) div 256 = from_be b"
    and "(from_be b * 256 + of_char c) mod 256 = of_char c" by simp_all
  with snoc show ?case by (simp add: from_be_snoc)
qed simp

lemma less_append_same_length:
  "length xs = length ys \<Longrightarrow> xs @ a < ys @ b \<longleftrightarrow> xs < ys \<or> xs = ys \<and> a < b"
  for a b xs ys :: "'a::linorder list"
  by (induction xs ys rule: list_induct2) auto

lemma char_of_less: "char_of m < char_of n \<longleftrightarrow> m mod 256 < n mod 256" for m n :: nat
  by (simp add: less_char_def of_char_of)

lemma less_div_mod: "0 < d \<Longrightarrow> m < n \<longleftrightarrow> m div d < n div d \<or> m div d = n div d \<and> m mod d < n mod d"
  for m n d :: nat
  by (metis add_less_cancel_left div_le_mono div_mult_mod_eq leD le_neq_implies_less nat_less_le nle_le)

lemma be_bytes_less:
  "m < 256 ^ k \<Longrightarrow> n < 256 ^ k \<Longrightarrow> be_bytes k m < be_bytes k n \<longleftrightarrow> m < n"
proof (induction k arbitrary: m n)
  case (Suc k)
  then have "m div 256 < 256 ^ k" and "n div 256 < 256 ^ k"
    by (simp_all add: less_mult_imp_div_less mult.commute)
  moreover from this have "be_bytes k (m div 256) = be_bytes k (n div 256) \<longleftrightarrow> m div 256 = n div 256"
    by (metis from_be_be_bytes)
  ultimately show ?case
    using Suc.IH[of "m div 256" "n div 256"] less_div_mod[of 256 m n]
    by (simp add: less_append_same_length char_of_less)
qed simp

lemma unat_u64_bound: "unat (w :: u64) < 256 ^ 8"
  using unat_lt[of w] by simp

lemma unat_u32_bound: "unat (w :: u32) < 256 ^ 4"
  using unat_lt[of w] by simp

lemma u64_from_be_u64_be [simp]: "u64_from_be (u64_be w) = w"
  by (simp only: u64_from_be_def u64_be_def from_be_be_bytes unat_u64_bound word_of_nat_unat_eq)

lemma u64_be_u64_from_be: "length b = 8 \<Longrightarrow> u64_be (u64_from_be b) = b"
  using from_be_less[of b] be_bytes_from_be[of b]
  by (simp add: u64_from_be_def u64_be_def unat_of_nat)

lemma u64_be_inj [simp]: "u64_be v = u64_be w \<longleftrightarrow> v = w"
  by (metis u64_from_be_u64_be)

lemma u64_be_less [simp]: "u64_be v < u64_be w \<longleftrightarrow> v < w"
  by (simp only: u64_be_def be_bytes_less unat_u64_bound word_less_nat_alt)

lemma u32_be_less [simp]: "u32_be v < u32_be w \<longleftrightarrow> v < w"
  by (simp only: u32_be_def be_bytes_less unat_u32_bound word_less_nat_alt)

lemma u32_be_inj [simp]: "u32_be v = u32_be w \<longleftrightarrow> v = w"
  by (metis (full_types) less_irrefl linorder_neqE u32_be_less)

section \<open>Saturating arithmetic\<close>

definition sat_add :: "'a::len word \<Rightarrow> 'a word \<Rightarrow> 'a word" where
  "sat_add a b = (if a \<le> a + b then a + b else - 1)"

definition sat_sub :: "'a::len word \<Rightarrow> 'a word \<Rightarrow> 'a word" where
  "sat_sub a b = (if b \<le> a then a - b else 0)"

definition sat_mul :: "u64 \<Rightarrow> u64 \<Rightarrow> u64" where
  "sat_mul a b = (if unat a * unat b < 2 ^ 64 then a * b else - 1)"

definition div_ceil :: "u64 \<Rightarrow> u64 \<Rightarrow> u64" where
  "div_ceil a b = (if a mod b = 0 then a div b else a div b + 1)"

lemma unat_sat_add: "unat (sat_add a b) = min (unat a + unat b) (2 ^ LENGTH('a) - 1)"
  for a b :: "'a::len word"
proof (cases "unat a + unat b < 2 ^ LENGTH('a)")
  case True
  then show ?thesis
    by (simp add: sat_add_def unat_word_ariths word_le_nat_alt)
next
  case False
  moreover have "unat a + unat b - 2 ^ LENGTH('a) < 2 ^ LENGTH('a)"
    using unat_lt[of a] unat_lt[of b] by linarith
  ultimately have "unat (a + b) = unat a + unat b - 2 ^ LENGTH('a)"
    by (simp add: unat_word_ariths(1) le_mod_geq)
  with False have "\<not> a \<le> a + b"
    using unat_lt[of a] unat_lt[of b] unfolding word_le_nat_alt by linarith
  with False show ?thesis
    using unat_lt[of a] unat_lt[of b] by (simp add: sat_add_def)
qed

lemma sat_add_ge [simp]: "a \<le> sat_add a b" "b \<le> sat_add a b" for a b :: "'a::len word"
proof -
  have "unat a \<le> 2 ^ LENGTH('a) - 1" "unat b \<le> 2 ^ LENGTH('a) - 1"
    using unat_lt[of a] unat_lt[of b] by linarith+
  then show "a \<le> sat_add a b" "b \<le> sat_add a b"
    by (simp_all add: word_le_nat_alt unat_sat_add)
qed

lemma unat_sat_sub: "unat (sat_sub a b) = unat a - unat b" for a b :: "'a::len word"
  by (simp add: sat_sub_def unat_sub word_le_nat_alt)

lemma unat_sat_mul: "unat (sat_mul a b) = min (unat a * unat b) (2 ^ 64 - 1)"
proof -
  obtain p where p: "p = unat a * unat b" by simp
  have "unat (a * b) = p" if "p < 2 ^ 64"
    using that p by (simp add: unat_word_ariths(2))
  then have "unat (sat_mul a b) = (if p < 2 ^ 64 then p else 2 ^ 64 - 1)"
    by (simp add: sat_mul_def p[symmetric])
  also have "\<dots> = min p (2 ^ 64 - 1)" by (auto simp: min_def)
  finally show ?thesis by (simp only: p)
qed

lemma unat_div_ceil:
  "b \<noteq> 0 \<Longrightarrow> unat (div_ceil a b) = unat a div unat b + (if unat a mod unat b = 0 then 0 else 1)"
proof -
  assume "b \<noteq> 0"
  have "a mod b = 0 \<longleftrightarrow> unat a mod unat b = 0"
    by (simp add: unat_mod_distrib flip: unat_eq_0)
  moreover have "unat a div unat b + 1 < 2 ^ 64" if "unat a mod unat b \<noteq> 0"
  proof -
    have "unat b \<noteq> 0" using \<open>b \<noteq> 0\<close> by (simp add: unat_eq_0)
    moreover have "unat b \<noteq> 1" using that by auto
    ultimately have "2 \<le> unat b" by linarith
    then have "unat a div unat b \<le> unat a div 2" by (rule div_le_mono2[rotated]) simp
    then show ?thesis using unat_lt[of a] by simp
  qed
  moreover have "unat (a div b + 1) = unat a div unat b + 1" if "unat a div unat b + 1 < 2 ^ 64"
    using that by (simp add: unat_word_ariths(1) unat_div_distrib)
  ultimately show ?thesis
    by (simp add: div_ceil_def unat_div_distrib)
qed

section \<open>UTF-8\<close>

definition in_range :: "nat \<Rightarrow> nat \<Rightarrow> char \<Rightarrow> bool" where
  "in_range lo hi c \<longleftrightarrow> lo \<le> of_char c \<and> of_char c \<le> hi"

abbreviation utf8_tail :: "char \<Rightarrow> bool" where
  "utf8_tail \<equiv> in_range 0x80 0xBF"

text \<open>The byte sequences that \<open>std::str::from_utf8\<close> accepts.\<close>

fun utf8_valid :: "bytes \<Rightarrow> bool" where
  "utf8_valid [] \<longleftrightarrow> True"
| "utf8_valid (a # s) \<longleftrightarrow>
     (if in_range 0 0x7F a then utf8_valid s
      else case s of
        [] \<Rightarrow> False
      | b # s2 \<Rightarrow>
          if in_range 0xC2 0xDF a then utf8_tail b \<and> utf8_valid s2
          else case s2 of
            [] \<Rightarrow> False
          | c # s3 \<Rightarrow>
              if in_range 0xE0 0xEF a then
                in_range (if of_char a = (0xE0::nat) then 0xA0 else 0x80)
                  (if of_char a = (0xED::nat) then 0x9F else 0xBF) b \<and> utf8_tail c \<and> utf8_valid s3
              else case s3 of
                [] \<Rightarrow> False
              | d # s4 \<Rightarrow>
                  in_range 0xF0 0xF4 a \<and>
                  in_range (if of_char a = (0xF0::nat) then 0x90 else 0x80)
                    (if of_char a = (0xF4::nat) then 0x8F else 0xBF) b \<and>
                  utf8_tail c \<and> utf8_tail d \<and> utf8_valid s4)"

lemma utf8_valid_ascii: "list_all (in_range 0 0x7F) s \<Longrightarrow> utf8_valid s"
  by (induction s) auto

declare utf8_valid.simps(2) [simp del]

end
