(* ===== verification/Store_Keys.thy ===== *)
theory Store_Keys
  imports Text_Codec
begin

text \<open>
  \<open>src/src/store_keys.rs\<close>: the column families, the encoding of every key of the store, the
  path helpers derived from keys, and the expiry arithmetic. Keys are byte strings; the proofs
  give the round trips of the decoders and the order facts that the range scans rely on.
\<close>

section \<open>Constants\<close>

definition MAX_SET_ENUM_MEMBERS :: nat where
  "MAX_SET_ENUM_MEMBERS = 65536"

definition EXPIRY_INDEX_QUANTUM_MS :: u64 where
  "EXPIRY_INDEX_QUANTUM_MS = 3600000"

definition META_FENCE_COUNTER_KEY :: bytes where [key_defs]:
  "META_FENCE_COUNTER_KEY = ''fence_counter''"

definition META_GC_CURSOR_KEY :: bytes where [key_defs]:
  "META_GC_CURSOR_KEY = ''gc_cursor''"

definition META_QUEUE_SEQ_KEY :: bytes where [key_defs]:
  "META_QUEUE_SEQ_KEY = ''queue_seq''"

definition META_QUEUE_COUNT_KEY :: bytes where [key_defs]:
  "META_QUEUE_COUNT_KEY = ''queue_count''"

definition META_LAST_NOW_KEY :: bytes where [key_defs]:
  "META_LAST_NOW_KEY = ''last_now_ms''"

definition META_VOTE_KEY :: bytes where [key_defs]:
  "META_VOTE_KEY = ''raft_vote''"

definition META_COMMITTED_KEY :: bytes where [key_defs]:
  "META_COMMITTED_KEY = ''raft_committed''"

definition META_LAST_APPLIED_KEY :: bytes where [key_defs]:
  "META_LAST_APPLIED_KEY = ''raft_last_applied''"

definition META_MEMBERSHIP_KEY :: bytes where [key_defs]:
  "META_MEMBERSHIP_KEY = ''raft_membership''"

definition META_PURGED_KEY :: bytes where [key_defs]:
  "META_PURGED_KEY = ''raft_purged''"

definition META_SNAPSHOT_META_KEY :: bytes where [key_defs]:
  "META_SNAPSHOT_META_KEY = ''raft_snapshot_meta''"

definition META_SNAPSHOT_DATA_KEY :: bytes where [key_defs]:
  "META_SNAPSHOT_DATA_KEY = ''raft_snapshot_data''"

definition CF_META :: cf where [cf_defs]: "CF_META = ''meta''"
definition CF_RAFT_LOG :: cf where [cf_defs]: "CF_RAFT_LOG = ''raft_log''"
definition CF_WRITE_LOCKS :: cf where [cf_defs]: "CF_WRITE_LOCKS = ''write_locks''"
definition CF_READ_LOCKS :: cf where [cf_defs]: "CF_READ_LOCKS = ''read_locks''"
definition CF_SEMAPHORE :: cf where [cf_defs]: "CF_SEMAPHORE = ''semaphore_holders''"
definition CF_FENCES :: cf where [cf_defs]: "CF_FENCES = ''fences''"
definition CF_DESC_WRITE :: cf where [cf_defs]: "CF_DESC_WRITE = ''desc_write''"
definition CF_DESC_READ :: cf where [cf_defs]: "CF_DESC_READ = ''desc_read''"
definition CF_OWNER_ALIVE :: cf where [cf_defs]: "CF_OWNER_ALIVE = ''owner_alive''"
definition CF_OWNER_HOLDS :: cf where [cf_defs]: "CF_OWNER_HOLDS = ''owner_holds''"
definition CF_WAIT_EDGES :: cf where [cf_defs]: "CF_WAIT_EDGES = ''wait_edges''"
definition CF_NAMESPACE_SETTINGS :: cf where [cf_defs]: "CF_NAMESPACE_SETTINGS = ''namespace_settings''"
definition CF_EXPIRY :: cf where [cf_defs]: "CF_EXPIRY = ''expiry''"
definition CF_DEDUPE :: cf where [cf_defs]: "CF_DEDUPE = ''request_dedupe''"
definition CF_QUEUE :: cf where [cf_defs]: "CF_QUEUE = ''lock_queue''"

definition STATE_CFS :: "cf list" where
  "STATE_CFS =
     [CF_WRITE_LOCKS, CF_READ_LOCKS, CF_SEMAPHORE, CF_FENCES, CF_DESC_WRITE, CF_DESC_READ,
      CF_OWNER_ALIVE, CF_OWNER_HOLDS, CF_WAIT_EDGES, CF_NAMESPACE_SETTINGS, CF_EXPIRY,
      CF_DEDUPE, CF_QUEUE]"

definition ALL_CFS :: "cf list" where
  "ALL_CFS =
     [''default'', CF_META, CF_RAFT_LOG, CF_WRITE_LOCKS, CF_READ_LOCKS, CF_SEMAPHORE, CF_FENCES,
      CF_DESC_WRITE, CF_DESC_READ, CF_OWNER_ALIVE, CF_OWNER_HOLDS, CF_WAIT_EDGES,
      CF_NAMESPACE_SETTINGS, CF_EXPIRY, CF_DEDUPE, CF_QUEUE]"

section \<open>Keys\<close>

abbreviation NUL :: char where
  "NUL \<equiv> CHR 0x00"

type_synonym group_id = u32

definition GROUP_PREFIX_LEN :: nat where
  "GROUP_PREFIX_LEN = 4"

definition group_prefix :: "group_id \<Rightarrow> bytes" where
  "group_prefix g = u32_be g"

definition group_key :: "group_id \<Rightarrow> bytes \<Rightarrow> bytes" where
  "group_key g key = u32_be g @ key"

definition group_range :: "group_id \<Rightarrow> bytes \<times> bytes option" where
  "group_range g = (u32_be g, if g = - 1 then None else Some (u32_be (g + 1)))"

definition wr_key :: "string \<Rightarrow> bytes" where [key_defs]: "wr_key path = path"
definition rd_prefix :: "string \<Rightarrow> bytes" where [key_defs]: "rd_prefix path = path @ [NUL]"
definition sem_prefix :: "string \<Rightarrow> bytes" where [key_defs]: "sem_prefix path = path @ [NUL]"
definition fence_key :: "string \<Rightarrow> bytes" where [key_defs]: "fence_key path = path"
definition alive_key :: "string \<Rightarrow> bytes" where [key_defs]: "alive_key owner = owner"
definition revoke_key :: "string \<Rightarrow> bytes" where [key_defs]:
  "revoke_key owner = owner @ [NUL] @ ''revoke''"
definition own_prefix :: "string \<Rightarrow> bytes" where [key_defs]: "own_prefix owner = owner @ [NUL]"
definition wait_key :: "string \<Rightarrow> bytes" where [key_defs]: "wait_key owner = owner"
definition hold_algorithm_key :: "string \<Rightarrow> string \<Rightarrow> string \<Rightarrow> bytes" where [key_defs]:
  "hold_algorithm_key owner mode path = ''hold_alg:'' @ owner @ [NUL] @ mode @ [NUL] @ path"
definition semaphore_permits_key :: "string \<Rightarrow> bytes" where [key_defs]:
  "semaphore_permits_key path = ''sem_permits:'' @ path"
definition namespace_policy_key :: "string \<Rightarrow> bytes" where [key_defs]:
  "namespace_policy_key namespace = namespace"
definition wrdesc_key :: "string \<Rightarrow> bytes" where [key_defs]: "wrdesc_key anc = anc @ [NUL]"
definition rddesc_prefix :: "string \<Rightarrow> bytes" where [key_defs]: "rddesc_prefix anc = anc @ [NUL]"

definition QUEUE_ENTRY_TAG :: char where [key_defs]: "QUEUE_ENTRY_TAG = CHR ''e''"
definition QUEUE_OWNER_TAG :: char where [key_defs]: "QUEUE_OWNER_TAG = CHR ''o''"
definition QUEUE_PATH_TAG :: char where [key_defs]: "QUEUE_PATH_TAG = CHR ''p''"

definition queue_entry_key :: "u64 \<Rightarrow> bytes" where
  "queue_entry_key seq = QUEUE_ENTRY_TAG # u64_be seq"

definition queue_entry_lower :: bytes where
  "queue_entry_lower = [QUEUE_ENTRY_TAG]"

definition queue_entry_upper :: bytes where
  "queue_entry_upper = [char_of ((of_char QUEUE_ENTRY_TAG :: nat) + 1)]"

definition decode_queue_entry_seq :: "bytes \<Rightarrow> u64 option" where
  "decode_queue_entry_seq key =
     (if length key \<noteq> 9 \<or> key ! 0 \<noteq> QUEUE_ENTRY_TAG then None
      else Some (u64_from_be (take 8 (drop 1 key))))"

definition queue_owner_key :: "string \<Rightarrow> bytes" where
  "queue_owner_key owner = QUEUE_OWNER_TAG # owner"

definition queue_path_prefix :: "string \<Rightarrow> bytes" where
  "queue_path_prefix path = QUEUE_PATH_TAG # path @ [NUL]"

definition byte_sat_add :: "char \<Rightarrow> nat \<Rightarrow> char" where
  "byte_sat_add c n = char_of (min 255 (of_char c + n))"

definition queue_path_upper :: "string \<Rightarrow> bytes" where
  "queue_path_upper path =
     (let upper = queue_path_prefix path in butlast upper @ [byte_sat_add (last upper) 1])"

definition queue_path_key :: "string \<Rightarrow> u64 \<Rightarrow> bytes" where
  "queue_path_key path seq = queue_path_prefix path @ u64_be seq"

definition decode_queue_path_seq :: "bytes \<Rightarrow> u64 option" where
  "decode_queue_path_seq key =
     (if length key < 10 \<or> key ! 0 \<noteq> QUEUE_PATH_TAG then None
      else let tail = length key - 8 in
        if key ! (tail - 1) \<noteq> NUL then None
        else Some (u64_from_be (take 8 (drop tail key))))"

definition expiry_key :: "u64 \<Rightarrow> string \<Rightarrow> bytes \<Rightarrow> bytes" where
  "expiry_key expires_at kind primary_key = u64_be expires_at @ [NUL] @ kind @ [NUL] @ primary_key"

definition expiry_scan_upper :: "u64 \<Rightarrow> bytes" where
  "expiry_scan_upper max_expires_at = u64_be max_expires_at @ [NUL] @ [NUL]"

definition decode_expiry_key_exp :: "bytes \<Rightarrow> u64 option" where
  "decode_expiry_key_exp key = (if length key < 8 then None else Some (u64_from_be (take 8 key)))"

definition decode_expiry_entry :: "bytes \<Rightarrow> (u64 \<times> string \<times> bytes) option" where
  "decode_expiry_entry key =
     (if length key < 9 then None
      else let exp = u64_from_be (take 8 key); rest = drop 9 key in
        case str_find NUL rest of
          None \<Rightarrow> None
        | Some nul \<Rightarrow>
            if utf8_valid (take nul rest) then Some (exp, take nul rest, drop (nul + 1) rest)
            else None)"

section \<open>Path helpers\<close>

definition handler_of :: "string \<Rightarrow> string" where
  "handler_of path = (case str_find CHR '':'' path of Some i \<Rightarrow> take i path | None \<Rightarrow> path)"

fun lock_domain_scan :: "nat \<Rightarrow> string \<Rightarrow> nat option" where
  "lock_domain_scan i [] = None"
| "lock_domain_scan i (b # bs) =
     (if b = CHR ''/'' \<and> 0 < i then Some i else lock_domain_scan (i + 1) bs)"

definition lock_domain :: "string \<Rightarrow> string" where
  "lock_domain path =
     (case str_find CHR '':'' path of
        None \<Rightarrow> path
      | Some colon \<Rightarrow>
          (case lock_domain_scan 0 (drop (colon + 1) path) of
             Some i \<Rightarrow> take (colon + 1 + i) path
           | None \<Rightarrow> path))"

section \<open>Expiry\<close>

definition expired :: "u64 \<Rightarrow> u64 \<Rightarrow> bool" where
  "expired exp now \<longleftrightarrow> exp \<noteq> 0 \<and> now \<ge> exp"

definition expiry_at :: "u64 \<Rightarrow> u64 \<Rightarrow> u64" where
  "expiry_at now ttl_ms = (if ttl_ms = 0 then 0 else sat_add now ttl_ms)"

definition quantized_index_expiry :: "u64 \<Rightarrow> u64 \<Rightarrow> u64" where
  "quantized_index_expiry now exp =
     (if sat_sub exp now < EXPIRY_INDEX_QUANTUM_MS then exp
      else sat_mul (div_ceil exp EXPIRY_INDEX_QUANTUM_MS) EXPIRY_INDEX_QUANTUM_MS)"

section \<open>Facts about keys\<close>

lemma group_key_inj [simp]: "group_key g k = group_key h l \<longleftrightarrow> g = h \<and> k = l"
  by (simp add: group_key_def append_eq_append_conv)

lemma group_key_less [simp]: "group_key g k < group_key g l \<longleftrightarrow> k < l"
  by (simp add: group_key_def)

lemma group_key_le [simp]: "group_key g k \<le> group_key g l \<longleftrightarrow> k \<le> l"
  by (simp add: group_key_def)

lemma group_key_less_other: "g < h \<Longrightarrow> group_key g k < group_key h l"
  by (simp add: group_key_def less_append_same_length)

lemma queue_entry_key_roundtrip [simp]: "decode_queue_entry_seq (queue_entry_key s) = Some s"
  by (simp add: decode_queue_entry_seq_def queue_entry_key_def)

lemma queue_entry_key_less [simp]: "queue_entry_key s < queue_entry_key t \<longleftrightarrow> s < t"
  by (simp add: queue_entry_key_def)

lemma queue_entry_key_inj [simp]: "queue_entry_key s = queue_entry_key t \<longleftrightarrow> s = t"
  by (simp add: queue_entry_key_def)

lemma queue_path_key_roundtrip [simp]: "decode_queue_path_seq (queue_path_key p s) = Some s"
  by (simp add: decode_queue_path_seq_def queue_path_key_def queue_path_prefix_def nth_append
      nth_Cons')

lemma byte_successors:
  "byte_sat_add NUL 1 = CHR 0x01"
  "char_of ((of_char QUEUE_ENTRY_TAG :: nat) + 1) = CHR ''f''"
  by code_simp+

lemma last_queue_path_prefix: "queue_path_upper path = QUEUE_PATH_TAG # path @ [CHR 0x01]"
  by (simp add: queue_path_upper_def queue_path_prefix_def Let_def butlast_append
      byte_successors[unfolded One_nat_def])

lemma queue_path_scan_range:
  "in_key_range (queue_path_prefix p) (Some (queue_path_upper p)) k \<longleftrightarrow> prefix (queue_path_prefix p) k"
  using successor_prefix_range[of NUL "CHR 0x01" "QUEUE_PATH_TAG # p" k]
  by (simp add: last_queue_path_prefix queue_path_prefix_def char_successor_def in_key_range_def)

lemma queue_entry_scan_range:
  "in_key_range queue_entry_lower (Some queue_entry_upper) k \<longleftrightarrow> prefix [QUEUE_ENTRY_TAG] k"
  using successor_prefix_range[of QUEUE_ENTRY_TAG "CHR ''f''" "[]" k]
  unfolding queue_entry_lower_def queue_entry_upper_def byte_successors
  by (simp add: QUEUE_ENTRY_TAG_def char_successor_def in_key_range_def)

lemma u64_be_append_less:
  "u64_be e @ x < u64_be f @ y \<longleftrightarrow> e < f \<or> e = f \<and> x < y"
  by (simp add: less_append_same_length)

lemma group_range_iff:
  "in_key_range (fst (group_range g)) (snd (group_range g)) (group_key h k) \<longleftrightarrow> h = g"
proof -
  have "u32_be g \<le> u32_be h @ k \<longleftrightarrow> g \<le> h"
    using less_append_same_length[of "u32_be h" "u32_be g" k "[]"]
    by (auto simp: not_less[symmetric])
  moreover have "u32_be h @ k < u32_be (g + 1) \<longleftrightarrow> h < g + 1"
    using less_append_same_length[of "u32_be h" "u32_be (g + 1)" k "[]"] by auto
  moreover have "g \<noteq> - 1 \<Longrightarrow> h < g + 1 \<longleftrightarrow> h \<le> g"
    by (auto simp: word_less_nat_alt word_le_nat_alt unat_plus_one)
  moreover have "g = - 1 \<Longrightarrow> g \<le> h \<longleftrightarrow> h = g"
    by (metis order_antisym order_refl word_order.extremum)
  ultimately show ?thesis
    by (auto simp: group_range_def group_key_def in_key_range_def)
qed

lemma EXPIRY_INDEX_QUANTUM_nat: "unat EXPIRY_INDEX_QUANTUM_MS = 3600000"
  by (simp add: EXPIRY_INDEX_QUANTUM_MS_def)

lemma ceil_mult_bounds:
  assumes "0 < (q :: nat)"
  shows "n \<le> (n div q + (if n mod q = 0 then 0 else 1)) * q"
    and "(n div q + (if n mod q = 0 then 0 else 1)) * q < n + q"
proof -
  have "n = n div q * q + n mod q" and "n mod q < q" using assms by simp_all
  then show "n \<le> (n div q + (if n mod q = 0 then 0 else 1)) * q"
    and "(n div q + (if n mod q = 0 then 0 else 1)) * q < n + q"
    by (auto simp: add_mult_distrib, linarith+)
qed

lemma unat_quantized_index_expiry:
  "unat exp \<le> unat (quantized_index_expiry now exp)"
  "unat (quantized_index_expiry now exp) < unat exp + 3600000"
proof -
  have "EXPIRY_INDEX_QUANTUM_MS \<noteq> 0" by (simp add: EXPIRY_INDEX_QUANTUM_MS_def)
  note ceil = unat_div_ceil[OF this, of exp, unfolded EXPIRY_INDEX_QUANTUM_nat]
  have q: "quantized_index_expiry now exp = exp \<or>
    unat (quantized_index_expiry now exp) =
      min ((unat exp div 3600000 + (if unat exp mod 3600000 = 0 then 0 else 1)) * 3600000) (2 ^ 64 - 1)"
    by (simp only: quantized_index_expiry_def unat_sat_mul ceil EXPIRY_INDEX_QUANTUM_nat split: if_split) simp
  from q show "unat exp \<le> unat (quantized_index_expiry now exp)"
    using ceil_mult_bounds(1)[of 3600000 "unat exp"] unat_lt[of exp] by auto
  from q show "unat (quantized_index_expiry now exp) < unat exp + 3600000"
    using ceil_mult_bounds(2)[of 3600000 "unat exp"] by auto
qed

lemma lock_domain_scan_shift:
  "lock_domain_scan i bs = Some j \<Longrightarrow> i \<le> j \<and> j - i < length bs \<and> bs ! (j - i) = CHR ''/''"
  by (induction i bs rule: lock_domain_scan.induct) (auto split: if_splits simp: nth_Cons')

lemma lock_domain_prefix: "prefix (lock_domain p) p"
  by (auto simp: lock_domain_def take_is_prefix split: option.splits)

end
