(* ===== verification/Lock_Types.thy ===== *)
theory Lock_Types
  imports Store_Keys
begin

text \<open>
  \<open>src/src/engine.rs\<close>, the public value types: modes, algorithms and their strategies, reasons,
  requests, outcomes, wait edges and namespace policies, with their text forms. The proofs give the
  round trips of the text forms.
\<close>

section \<open>Text helpers of the standard library\<close>

text \<open>The UTF-8 encodings of the characters that \<open>str::trim\<close> strips.\<close>

definition whitespace_seqs :: "string list" where
  "whitespace_seqs =
     [[CHR 0x09], [CHR 0x0A], [CHR 0x0B], [CHR 0x0C], [CHR 0x0D], [CHR 0x20],
      [CHR 0xC2, CHR 0x85], [CHR 0xC2, CHR 0xA0], [CHR 0xE1, CHR 0x9A, CHR 0x80]] @
     map (\<lambda>n. [CHR 0xE2, CHR 0x80, char_of (0x80 + n :: nat)]) [0..<11] @
     [[CHR 0xE2, CHR 0x80, CHR 0xA8], [CHR 0xE2, CHR 0x80, CHR 0xA9], [CHR 0xE2, CHR 0x80, CHR 0xAF],
      [CHR 0xE2, CHR 0x81, CHR 0x9F], [CHR 0xE3, CHR 0x80, CHR 0x80]]"

fun strip_seqs :: "nat \<Rightarrow> string list \<Rightarrow> string \<Rightarrow> string" where
  "strip_seqs 0 ws s = s"
| "strip_seqs (Suc n) ws s =
     (case find (\<lambda>w. prefix w s) ws of Some w \<Rightarrow> strip_seqs n ws (drop (length w) s) | None \<Rightarrow> s)"

definition trim :: "string \<Rightarrow> string" where
  "trim s =
     (let t = strip_seqs (length s) whitespace_seqs s
      in rev (strip_seqs (length t) (map rev whitespace_seqs) (rev t)))"

definition to_ascii_lowercase :: "string \<Rightarrow> string" where
  "to_ascii_lowercase = map (\<lambda>c. if CHR ''A'' \<le> c \<and> c \<le> CHR ''Z'' then char_of ((of_char c :: nat) + 32) else c)"

section \<open>Modes and algorithms\<close>

datatype mode = Write | Read

fun mode_str :: "mode \<Rightarrow> string" where
  "mode_str Write = ''write''"
| "mode_str Read = ''read''"

datatype lock_algorithm = RecursiveRw | PointRw | RecursiveWrite | PointWrite | Semaphore

definition default_lock_algorithm :: lock_algorithm where
  "default_lock_algorithm = RecursiveRw"

record algorithm_strategy =
  as_allows_read :: bool
  as_recursive :: bool
  as_semaphore :: bool

definition ALGORITHM_STRATEGIES :: "(lock_algorithm \<times> algorithm_strategy) list" where
  "ALGORITHM_STRATEGIES =
     [(RecursiveRw, \<lparr> as_allows_read = True, as_recursive = True, as_semaphore = False \<rparr>),
      (PointRw, \<lparr> as_allows_read = True, as_recursive = False, as_semaphore = False \<rparr>),
      (RecursiveWrite, \<lparr> as_allows_read = False, as_recursive = True, as_semaphore = False \<rparr>),
      (PointWrite, \<lparr> as_allows_read = False, as_recursive = False, as_semaphore = False \<rparr>),
      (Semaphore, \<lparr> as_allows_read = False, as_recursive = False, as_semaphore = True \<rparr>)]"

definition algorithm_strategy :: "lock_algorithm \<Rightarrow> algorithm_strategy" where
  "algorithm_strategy algorithm = the (map_of ALGORITHM_STRATEGIES algorithm)"

definition algorithm_str :: "lock_algorithm \<Rightarrow> string" where
  "algorithm_str a =
     (case a of
        RecursiveRw \<Rightarrow> ''recursive_rw''
      | PointRw \<Rightarrow> ''point_rw''
      | RecursiveWrite \<Rightarrow> ''recursive_write''
      | PointWrite \<Rightarrow> ''point_write''
      | Semaphore \<Rightarrow> ''semaphore'')"

definition allows_read :: "lock_algorithm \<Rightarrow> bool" where
  "allows_read a = as_allows_read (algorithm_strategy a)"

definition recursive :: "lock_algorithm \<Rightarrow> bool" where
  "recursive a = as_recursive (algorithm_strategy a)"

definition is_semaphore :: "lock_algorithm \<Rightarrow> bool" where
  "is_semaphore a = as_semaphore (algorithm_strategy a)"

definition allows_mode :: "lock_algorithm \<Rightarrow> mode \<Rightarrow> bool" where
  "allows_mode a m \<longleftrightarrow> m = Write \<or> allows_read a"

definition algorithm_from_str :: "string \<Rightarrow> error + lock_algorithm" where
  "algorithm_from_str raw =
     (let normalized = map (\<lambda>c. if c = CHR ''-'' \<or> c = CHR '' '' then CHR ''_'' else c)
                         (to_ascii_lowercase (trim raw)) in
      if normalized = ''recursive_rw'' then Inr RecursiveRw
      else if normalized = ''point_rw'' then Inr PointRw
      else if normalized = ''recursive_write'' then Inr RecursiveWrite
      else if normalized = ''point_write'' then Inr PointWrite
      else if normalized = ''semaphore'' then Inr Semaphore
      else Inl (ParseError raw))"

section \<open>Reasons\<close>

datatype reason =
    AncestorLocked
  | WriteLocked
  | ReadLocked
  | DescendantWriteLocked
  | DescendantReadLocked
  | ReadLocksDisabled
  | StaleFencingToken
  | InvalidPermits
  | SemaphoreFull
  | MissingSemaphore
  | MissingWrite
  | MissingRead
  | MissingFence
  | MissingAlive
  | MissingOwnerSet
  | EmptyOwnerSet
  | QueuedReason
  | StaleOwner

definition reason_str :: "reason \<Rightarrow> string" where
  "reason_str r =
     (case r of
        AncestorLocked \<Rightarrow> ''ancestor_locked''
      | WriteLocked \<Rightarrow> ''write_locked''
      | ReadLocked \<Rightarrow> ''read_locked''
      | DescendantWriteLocked \<Rightarrow> ''descendant_write_locked''
      | DescendantReadLocked \<Rightarrow> ''descendant_read_locked''
      | ReadLocksDisabled \<Rightarrow> ''read_locks_disabled''
      | StaleFencingToken \<Rightarrow> ''stale_fencing_token''
      | InvalidPermits \<Rightarrow> ''invalid_permits''
      | SemaphoreFull \<Rightarrow> ''semaphore_full''
      | MissingSemaphore \<Rightarrow> ''missing_semaphore''
      | MissingWrite \<Rightarrow> ''missing_write''
      | MissingRead \<Rightarrow> ''missing_read''
      | MissingFence \<Rightarrow> ''missing_fence''
      | MissingAlive \<Rightarrow> ''missing_alive''
      | MissingOwnerSet \<Rightarrow> ''missing_owner_set''
      | EmptyOwnerSet \<Rightarrow> ''empty_owner_set''
      | QueuedReason \<Rightarrow> ''queued''
      | StaleOwner \<Rightarrow> ''stale_owner'')"

definition is_queueable :: "reason \<Rightarrow> bool" where
  "is_queueable r \<longleftrightarrow>
     r \<in> {WriteLocked, ReadLocked, AncestorLocked, DescendantWriteLocked, DescendantReadLocked, SemaphoreFull}"

definition is_blocking_reason :: "reason \<Rightarrow> bool" where
  "is_blocking_reason r \<longleftrightarrow>
     r \<in> {AncestorLocked, WriteLocked, ReadLocked, DescendantWriteLocked, DescendantReadLocked, SemaphoreFull}"

definition reason_table :: "(string \<times> reason) list" where
  "reason_table =
     [(''ancestor_locked'', AncestorLocked), (''write_locked'', WriteLocked), (''read_locked'', ReadLocked),
      (''descendant_write_locked'', DescendantWriteLocked),
      (''descendant_read_locked'', DescendantReadLocked), (''read_locks_disabled'', ReadLocksDisabled),
      (''stale_fencing_token'', StaleFencingToken), (''invalid_permits'', InvalidPermits),
      (''semaphore_full'', SemaphoreFull), (''missing_semaphore'', MissingSemaphore),
      (''missing_write'', MissingWrite), (''missing_read'', MissingRead), (''missing_fence'', MissingFence),
      (''missing_alive'', MissingAlive), (''missing_owner_set'', MissingOwnerSet),
      (''empty_owner_set'', EmptyOwnerSet), (''queued'', QueuedReason), (''stale_owner'', StaleOwner)]"

definition reason_from_str :: "string \<Rightarrow> error + reason" where
  "reason_from_str raw =
     (case map_of reason_table (trim raw) of Some r \<Rightarrow> Inr r | None \<Rightarrow> Inl (ParseError raw))"

section \<open>Requests and outcomes\<close>

datatype lock_state = New | Held

record lock_req =
  lr_path :: string
  lr_mode :: mode
  lr_state :: lock_state
  lr_permits :: u32

record rel_req =
  rr_path :: string
  rr_mode :: mode

record acquire_args =
  aa_owner_id :: string
  aa_ttl_ms :: u64
  aa_requests :: "lock_req list"
  aa_fencing_token :: i64
  aa_release_requests :: "rel_req list"
  aa_queue_ttl_ms :: u64

datatype acquire_outcome =
    AcqOk i64
  | Conflict string string reason
  | Lost string reason
  | Queued string string reason i64

datatype renew_outcome = RenewOk bool | RenewLost string reason

datatype assert_outcome = AssertOk | AssertFail string reason

datatype cycle_outcome = NoCycle | Cycle "string list" | Truncated "string list"

record wait_edge_metadata =
  wm_conflict_path :: string
  wm_reason :: reason

record wait_edge =
  we_conflict_owner :: string
  we_metadata :: "wait_edge_metadata option"

record lock_policy =
  lp_algorithm :: lock_algorithm
  lp_epoch :: u64

record namespace_policy_entry =
  np_namespace :: string
  np_algorithm :: lock_algorithm
  np_epoch :: u64

definition lock_policy_new :: "lock_algorithm \<Rightarrow> u64 \<Rightarrow> lock_policy" where
  "lock_policy_new algorithm epoch = \<lparr> lp_algorithm = algorithm, lp_epoch = epoch \<rparr>"

definition lock_policy_from_algorithm :: "lock_algorithm \<Rightarrow> lock_policy" where
  "lock_policy_from_algorithm algorithm = lock_policy_new algorithm 0"

definition namespace_policy_entry_policy :: "namespace_policy_entry \<Rightarrow> lock_policy" where
  "namespace_policy_entry_policy e = lock_policy_new (np_algorithm e) (np_epoch e)"

text \<open>\<open>parse_namespace_policy_value\<close>: the part before the first colon is the epoch.\<close>

definition parse_namespace_policy_value :: "string \<Rightarrow> error + lock_policy" where
  "parse_namespace_policy_value raw =
     (case split_once CHR '':'' raw of
        None \<Rightarrow>
          (case parse_u64 raw of None \<Rightarrow> Inl (ParseError raw) | Some _ \<Rightarrow> Inl MalformedPolicy)
      | Some (epoch_str, algorithm_part) \<Rightarrow>
          (case parse_u64 epoch_str of
             None \<Rightarrow> Inl (ParseError epoch_str)
           | Some epoch \<Rightarrow>
               (case algorithm_from_str algorithm_part of
                  Inl e \<Rightarrow> Inl e
                | Inr algorithm \<Rightarrow> Inr (lock_policy_new algorithm epoch))))"

section \<open>Wait edges\<close>

definition WAIT_EDGE_V1_PREFIX :: string where
  "WAIT_EDGE_V1_PREFIX = ''v1:''"

definition encode_wait_edge :: "string \<Rightarrow> wait_edge_metadata option \<Rightarrow> string" where
  "encode_wait_edge conflict_owner metadata =
     (case metadata of
        None \<Rightarrow> conflict_owner
      | Some m \<Rightarrow>
          let reason = reason_str (wm_reason m) in
          WAIT_EDGE_V1_PREFIX @ nat_str (length conflict_owner) @ '':'' @ nat_str (length (wm_conflict_path m))
            @ '':'' @ nat_str (length reason) @ '':'' @ conflict_owner @ wm_conflict_path m @ reason)"

definition parse_len_field :: "string \<Rightarrow> (nat \<times> string) option" where
  "parse_len_field input =
     (case split_once CHR '':'' input of
        None \<Rightarrow> None
      | Some (len, rest) \<Rightarrow>
          if len = [] then None
          else (case parse_unsigned 64 len of None \<Rightarrow> None | Some n \<Rightarrow> Some (n, rest)))"

text \<open>\<open>is_char_boundary\<close>: slicing a \<open>str\<close> at a byte inside a character fails.\<close>

definition is_char_boundary :: "string \<Rightarrow> nat \<Rightarrow> bool" where
  "is_char_boundary s i \<longleftrightarrow> i = 0 \<or> i = length s \<or> i < length s \<and> \<not> utf8_tail (s ! i)"

definition parse_wait_edge :: "string \<Rightarrow> error + wait_edge" where
  "parse_wait_edge raw =
     (case strip_prefix WAIT_EDGE_V1_PREFIX raw of
        None \<Rightarrow> Inr \<lparr> we_conflict_owner = raw, we_metadata = None \<rparr>
      | Some rest \<Rightarrow>
          (case parse_len_field rest of
             None \<Rightarrow> Inl (MalformedWaitEdge ''missing owner length'')
           | Some (owner_len, rest) \<Rightarrow>
               (case parse_len_field rest of
                  None \<Rightarrow> Inl (MalformedWaitEdge ''missing path length'')
                | Some (path_len, rest) \<Rightarrow>
                    (case parse_len_field rest of
                       None \<Rightarrow> Inl (MalformedWaitEdge ''missing reason length'')
                     | Some (reason_len, payload) \<Rightarrow>
                         let total_len = owner_len + path_len + reason_len in
                         if 2 ^ 64 \<le> total_len \<or> total_len \<noteq> length payload
                         then Inl (MalformedWaitEdge ''payload length mismatch'')
                         else if \<not> is_char_boundary payload owner_len
                         then Inl (MalformedWaitEdge ''owner slice out of bounds'')
                         else if \<not> is_char_boundary payload (owner_len + path_len)
                         then Inl (MalformedWaitEdge ''path slice out of bounds'')
                         else
                           (case reason_from_str (drop (owner_len + path_len) payload) of
                              Inl e \<Rightarrow> Inl e
                            | Inr reason \<Rightarrow>
                                Inr \<lparr> we_conflict_owner = take owner_len payload,
                                      we_metadata = Some
                                        \<lparr> wm_conflict_path = take path_len (drop owner_len payload),
                                          wm_reason = reason \<rparr> \<rparr>)))))"

section \<open>Facts\<close>

lemma algorithm_strategy_simps [simp]:
  "allows_read RecursiveRw" "allows_read PointRw" "\<not> allows_read RecursiveWrite" "\<not> allows_read PointWrite"
  "\<not> allows_read Semaphore" "recursive RecursiveRw" "\<not> recursive PointRw" "recursive RecursiveWrite"
  "\<not> recursive PointWrite" "\<not> recursive Semaphore" "\<not> is_semaphore RecursiveRw" "\<not> is_semaphore PointRw"
  "\<not> is_semaphore RecursiveWrite" "\<not> is_semaphore PointWrite" "is_semaphore Semaphore"
  by (simp_all add: allows_read_def recursive_def is_semaphore_def algorithm_strategy_def
      ALGORITHM_STRATEGIES_def)

text \<open>Trimming does nothing to a text that starts and ends with a visible ASCII character.\<close>

definition graphic :: "char \<Rightarrow> bool" where
  "graphic c \<longleftrightarrow> in_range 0x21 0x7E c"

lemma whitespace_not_graphic:
  "list_all (\<lambda>w. w \<noteq> [] \<and> \<not> graphic (hd w) \<and> \<not> graphic (last w)) whitespace_seqs"
  by code_simp

lemma strip_seqs_id: "(\<And>w. w \<in> set ws \<Longrightarrow> \<not> prefix w s) \<Longrightarrow> strip_seqs n ws s = s"
  by (cases n) (auto simp: find_None_iff split: option.splits dest!: find_Some_iff[THEN iffD1])

lemma trim_id:
  assumes "s \<noteq> []" and "graphic (hd s)" and "graphic (last s)"
  shows "trim s = s"
proof -
  have "\<not> prefix w s" if "w \<in> set whitespace_seqs" for w
  proof
    assume "prefix w s"
    moreover have "w \<noteq> []" "\<not> graphic (hd w)" using that whitespace_not_graphic by (auto simp: list_all_iff)
    ultimately have "hd s = hd w" by (auto simp: prefix_def)
    with assms(2) \<open>\<not> graphic (hd w)\<close> show False by simp
  qed
  then have "strip_seqs (length s) whitespace_seqs s = s" by (rule strip_seqs_id)
  moreover have "\<not> prefix w (rev s)" if w: "w \<in> set (map rev whitespace_seqs)" for w
  proof
    assume "prefix w (rev s)"
    moreover obtain v where v: "v \<in> set whitespace_seqs" "w = rev v" using w by auto
    ultimately have "suffix v s" by (simp add: suffix_to_prefix)
    then have "last v = last s" using v whitespace_not_graphic by (auto simp: suffix_def list_all_iff)
    with v assms(3) whitespace_not_graphic show False by (auto simp: list_all_iff)
  qed
  then have "strip_seqs (length s) (map rev whitespace_seqs) (rev s) = rev s" by (rule strip_seqs_id)
  ultimately show ?thesis by (simp add: trim_def Let_def)
qed

lemma trim_algorithm_str [simp]: "trim (algorithm_str a) = algorithm_str a"
  by (cases a) (simp_all add: trim_id algorithm_str_def graphic_def in_range_def)

lemma trim_reason_str [simp]: "trim (reason_str r) = reason_str r"
  by (cases r) (simp_all add: trim_id reason_str_def graphic_def in_range_def)

lemma algorithm_from_str_algorithm_str [simp]: "algorithm_from_str (algorithm_str a) = Inr a"
  unfolding algorithm_from_str_def trim_algorithm_str
  by (cases a) (simp_all add: algorithm_str_def to_ascii_lowercase_def less_eq_char_def)

lemma reason_from_str_reason_str [simp]: "reason_from_str (reason_str r) = Inr r"
  unfolding reason_from_str_def trim_reason_str
  by (cases r) (simp_all add: reason_str_def reason_table_def)

lemma mode_str_inj [simp]: "mode_str a = mode_str b \<longleftrightarrow> a = b"
  by (cases a; cases b) simp_all

lemma mode_str_no_nul [simp]: "NUL \<notin> set (mode_str m)"
  by (cases m) simp_all

lemma parse_namespace_policy_roundtrip:
  "parse_namespace_policy_value (u64_str e @ '':'' @ algorithm_str a) = Inr (lock_policy_new a e)"
  by (simp add: parse_namespace_policy_value_def)

lemma parse_len_field_nat_str:
  assumes "n < 2 ^ 64"
  shows "parse_len_field (nat_str n @ '':'' @ rest) = Some (n, rest)"
proof -
  have "CHR '':'' \<notin> set (nat_str n)" using nat_str_chars digit_not_special by blast
  then have "split_once CHR '':'' (nat_str n @ '':'' @ rest) = Some (nat_str n, rest)" by simp
  then show ?thesis
    using assms nat_str_digits[of n] unfolding parse_len_field_def by (simp add: parse_unsigned_nat_str)
qed

lemma utf8_valid_head: "utf8_valid (c # s) \<Longrightarrow> \<not> utf8_tail c"
proof -
  assume "utf8_valid (c # s)"
  then have "in_range 0 0x7F c \<or> in_range 0xC2 0xDF c \<or> in_range 0xE0 0xEF c \<or> in_range 0xF0 0xF4 c"
    by (subst (asm) utf8_valid.simps) (auto simp del: utf8_valid.simps split: if_splits list.splits)
  then show ?thesis by (auto simp: in_range_def)
qed

lemma reason_str_head: "\<exists>c r. reason_str x = c # r \<and> \<not> utf8_tail c"
  by (cases x) (auto simp: reason_str_def in_range_def)

lemma char_boundary_append:
  assumes "b = [] \<or> \<not> utf8_tail (hd b)"
  shows "is_char_boundary (a @ b) (length a)"
  using assms by (cases b) (auto simp: is_char_boundary_def nth_append)

lemma parse_encode_wait_edge:
  assumes owner: "utf8_valid owner" and path: "utf8_valid (wm_conflict_path m)"
    and len: "length owner + length (wm_conflict_path m) + length (reason_str (wm_reason m)) < 2 ^ 64"
  shows "parse_wait_edge (encode_wait_edge owner (Some m)) = Inr \<lparr> we_conflict_owner = owner, we_metadata = Some m \<rparr>"
proof -
  let ?p = "wm_conflict_path m" and ?r = "reason_str (wm_reason m)"
  let ?payload = "owner @ ?p @ ?r"
  have "utf8_valid ?p \<Longrightarrow> ?p @ ?r = [] \<or> \<not> utf8_tail (hd (?p @ ?r))"
    using reason_str_head[of "wm_reason m"] utf8_valid_head[of "hd ?p" "tl ?p"]
    by (cases ?p) (auto simp del: utf8_valid.simps(2))
  with path have b1: "is_char_boundary ?payload (length owner)" by (intro char_boundary_append) blast
  have "?r = [] \<or> \<not> utf8_tail (hd ?r)" using reason_str_head[of "wm_reason m"] by auto
  then have b2: "is_char_boundary ?payload (length owner + length ?p)"
    using char_boundary_append[of ?r "owner @ ?p"] by simp
  have lens: "length owner < 2 ^ 64" "length ?p < 2 ^ 64" "length ?r < 2 ^ 64" using len by linarith+
  have m: "\<lparr> wm_conflict_path = ?p, wm_reason = wm_reason m \<rparr> = m" by (cases m) simp
  have enc: "encode_wait_edge owner (Some m) = WAIT_EDGE_V1_PREFIX @ nat_str (length owner) @ '':'' @
    nat_str (length ?p) @ '':'' @ nat_str (length ?r) @ '':'' @ ?payload"
    by (simp add: encode_wait_edge_def Let_def)
  show ?thesis
    unfolding enc parse_wait_edge_def
    using len by (simp only: strip_prefix_append option.case prod.case parse_len_field_nat_str[OF lens(1)]
        parse_len_field_nat_str[OF lens(2)] parse_len_field_nat_str[OF lens(3)] Let_def) (simp add: b1 b2 m)
qed

end
