(* ===== verification/Lock_Paths.thy ===== *)
theory Lock_Paths
  imports Lock_Types
begin

text \<open>
  \<open>src/src/engine.rs\<close>, paths: namespace-scoped paths, the members of an owner's hold set, the
  ancestors of a path and the compatibility of two locks. The proofs characterise the ancestor
  walk, show that it is a strict order, and that two locks conflict exactly when the region of a
  write covers the other path.
\<close>

section \<open>Scoped paths\<close>

definition SCOPED_PATH_SEP :: char where
  "SCOPED_PATH_SEP = CHR 0x1F"

definition relative_path :: "string \<Rightarrow> string \<Rightarrow> string" where
  "relative_path namespace path =
     (if CHR '':'' \<notin> set namespace then
        (case str_find CHR '':'' path of
           None \<Rightarrow> path
         | Some colon \<Rightarrow> drop (colon + 1) path)
      else if path = namespace then ''/''
      else if suffix '':/'' namespace then
        let rest = (case strip_prefix namespace path of Some s \<Rightarrow> s | None \<Rightarrow> []) in
        if rest = [] then ''/'' else CHR ''/'' # rest
      else
        (case strip_prefix namespace path of
           Some rest \<Rightarrow> if prefix ''/'' rest then rest else path
         | None \<Rightarrow> path))"

definition scoped_path :: "string \<Rightarrow> string \<Rightarrow> string" where
  "scoped_path namespace path = namespace @ [SCOPED_PATH_SEP] @ relative_path namespace path"

definition public_path :: "string \<Rightarrow> string \<Rightarrow> string" where
  "public_path namespace path =
     (case split_once SCOPED_PATH_SEP path of
        None \<Rightarrow> path
      | Some (ns, rel) \<Rightarrow>
          if rel = ''/'' then
            (if CHR '':'' \<in> set namespace then namespace else namespace @ '':/'')
          else if CHR '':'' \<in> set namespace then
            (if suffix '':/'' namespace then namespace @ dropWhile (\<lambda>c. c = CHR ''/'') rel
             else namespace @ rel)
          else namespace @ '':'' @ rel)"

section \<open>Members of an owner's hold set\<close>

record held_lock =
  hl_namespace :: string
  hl_mode :: mode
  hl_path :: string

definition held_lock_new :: "string \<Rightarrow> mode \<Rightarrow> string \<Rightarrow> held_lock" where
  "held_lock_new namespace m path = \<lparr> hl_namespace = namespace, hl_mode = m, hl_path = path \<rparr>"

definition member_str :: "held_lock \<Rightarrow> string" where
  "member_str h = mode_str (hl_mode h) @ [NUL] @ hl_namespace h @ [NUL] @ hl_path h"

definition held_key_path :: "held_lock \<Rightarrow> string" where
  "held_key_path h = scoped_path (hl_namespace h) (hl_path h)"

definition parse_member :: "string \<Rightarrow> held_lock option" where
  "parse_member member =
     (case split_once NUL member of
        None \<Rightarrow> None
      | Some (m, rest) \<Rightarrow>
          if m \<noteq> ''write'' \<and> m \<noteq> ''read'' then None
          else
            (case split_once NUL rest of
               None \<Rightarrow> None
             | Some (namespace, path) \<Rightarrow>
                 Some (held_lock_new namespace (if m = ''write'' then Write else Read) path)))"

definition hold_member :: "string \<Rightarrow> mode \<Rightarrow> string \<Rightarrow> string" where
  "hold_member namespace m path = member_str (held_lock_new namespace m path)"

section \<open>Ancestors\<close>

function ancestor_loop :: "string \<Rightarrow> string \<Rightarrow> string list" where
  "ancestor_loop pre current =
     (if current = ''/'' \<or> current = [] then []
      else
        (case str_rfind CHR ''/'' current of
           None \<Rightarrow> []
         | Some idx \<Rightarrow>
             let current' = (if idx = 0 then ''/'' else take idx current) in
             (pre @ current') # (if current' = ''/'' then [] else ancestor_loop pre current')))"
  by pat_completeness auto
termination
  by (relation "measure (length \<circ> snd)") (auto split: if_splits dest!: str_rfind_SomeD)

declare ancestor_loop.simps [simp del]

definition get_ancestors :: "string \<Rightarrow> string list" where
  "get_ancestors full_path =
     (case split_once SCOPED_PATH_SEP full_path of
        Some (namespace, relative) \<Rightarrow> ancestor_loop (namespace @ [SCOPED_PATH_SEP]) relative
      | None \<Rightarrow>
          (case str_find CHR '':'' full_path of
             None \<Rightarrow> []
           | Some col_idx \<Rightarrow>
               ancestor_loop (take (col_idx + 1) full_path) (drop (col_idx + 1) full_path)))"

definition is_strict_ancestor :: "string \<Rightarrow> string \<Rightarrow> bool" where
  "is_strict_ancestor anc desc \<longleftrightarrow> list_ex (\<lambda>a. a = anc) (get_ancestors desc)"

definition locks_conflict ::
    "lock_algorithm \<Rightarrow> string \<Rightarrow> mode \<Rightarrow> lock_algorithm \<Rightarrow> string \<Rightarrow> mode \<Rightarrow> bool" where
  "locks_conflict a_algorithm a_path a_mode b_algorithm b_path b_mode =
     (if \<not> allows_mode a_algorithm a_mode \<or> \<not> allows_mode b_algorithm b_mode then False
      else if a_path = b_path then a_mode = Write \<or> b_mode = Write
      else if is_strict_ancestor a_path b_path then a_mode = Write \<and> recursive a_algorithm
      else if is_strict_ancestor b_path a_path then b_mode = Write \<and> recursive b_algorithm
      else False)"

section \<open>Facts about members and scoped paths\<close>

lemma parse_member_str:
  assumes "NUL \<notin> set (hl_namespace h)"
  shows "parse_member (member_str h) = Some h"
proof -
  have "split_once NUL (member_str h) = Some (mode_str (hl_mode h), hl_namespace h @ NUL # hl_path h)"
    by (simp add: member_str_def)
  with assms show ?thesis
    by (cases "hl_mode h") (simp_all add: parse_member_def held_lock_new_def)
qed

lemma parse_hold_member [simp]:
  "NUL \<notin> set ns \<Longrightarrow> parse_member (hold_member ns m p) = Some (held_lock_new ns m p)"
  unfolding hold_member_def by (rule parse_member_str) (simp add: held_lock_new_def)

lemma held_key_path_new [simp]: "held_key_path (held_lock_new ns m p) = scoped_path ns p"
  by (simp add: held_key_path_def held_lock_new_def)

lemma hold_member_inj:
  "NUL \<notin> set ns \<Longrightarrow> NUL \<notin> set ns' \<Longrightarrow> hold_member ns m p = hold_member ns' m' p' \<longleftrightarrow> ns = ns' \<and> m = m' \<and> p = p'"
  by (metis parse_hold_member held_lock_new_def held_lock.ext_inject option.inject)

lemma split_scoped_path [simp]:
  "SCOPED_PATH_SEP \<notin> set ns \<Longrightarrow> split_once SCOPED_PATH_SEP (scoped_path ns p) = Some (ns, relative_path ns p)"
  by (simp add: scoped_path_def)

section \<open>Facts about ancestors\<close>

text \<open>The walk yields the non-empty prefixes that end before a slash, and the root.\<close>

definition rel_ancestors :: "string \<Rightarrow> string set" where
  "rel_ancestors c =
     {x. x \<noteq> [] \<and> (\<exists>r. c = x @ CHR ''/'' # r)} \<union> (if \<exists>r. c = CHR ''/'' # r \<and> r \<noteq> [] then {''/''} else {})"

lemma append_slash_cases:
  assumes "a @ CHR ''/'' # b = x @ CHR ''/'' # r" and "CHR ''/'' \<notin> set b"
  shows "x = a \<or> (\<exists>r'. a = x @ CHR ''/'' # r')"
proof -
  from assms(1) obtain us where us: "a = x @ us \<and> us @ CHR ''/'' # b = CHR ''/'' # r \<or>
      a @ us = x \<and> CHR ''/'' # b = us @ CHR ''/'' # r"
    by (auto simp: append_eq_append_conv2)
  with assms(2) show ?thesis by (cases us) auto
qed

lemma rel_ancestors_step:
  assumes "CHR ''/'' \<notin> set b" and "a \<noteq> []"
  shows "rel_ancestors (a @ CHR ''/'' # b) = insert a (rel_ancestors a)"
proof -
  have "x \<noteq> [] \<and> (\<exists>r. a @ CHR ''/'' # b = x @ CHR ''/'' # r) \<longleftrightarrow>
    x = a \<or> x \<noteq> [] \<and> (\<exists>r. a = x @ CHR ''/'' # r)" for x
    using append_slash_cases[OF _ assms(1)] assms(2) by fastforce
  moreover have "(\<exists>r. a @ CHR ''/'' # b = CHR ''/'' # r \<and> r \<noteq> []) \<longleftrightarrow> (\<exists>r. a = CHR ''/'' # r)"
    using assms(2) by (cases a) auto
  moreover have "a = ''/'' \<or> (\<exists>r. a = CHR ''/'' # r \<and> r \<noteq> []) \<longleftrightarrow> (\<exists>r. a = CHR ''/'' # r)"
    by auto
  ultimately show ?thesis unfolding rel_ancestors_def by auto
qed

lemma rel_ancestors_root: "CHR ''/'' \<notin> set b \<Longrightarrow> b \<noteq> [] \<Longrightarrow> rel_ancestors (CHR ''/'' # b) = {''/''}"
  by (auto simp: rel_ancestors_def Cons_eq_append_conv)

lemma rel_ancestors_no_slash: "CHR ''/'' \<notin> set c \<Longrightarrow> rel_ancestors c = {}"
  by (auto simp: rel_ancestors_def)

lemma rel_ancestors_slash [simp]: "rel_ancestors ''/'' = {}"
  by (auto simp: rel_ancestors_def Cons_eq_append_conv)

lemma ancestor_loop_step:
  assumes "CHR ''/'' \<notin> set b" and "a @ CHR ''/'' # b \<noteq> ''/''"
  shows "ancestor_loop pre (a @ CHR ''/'' # b) =
    (if a = [] then [pre @ ''/''] else (pre @ a) # (if a = ''/'' then [] else ancestor_loop pre a))"
  using assms by (subst ancestor_loop.simps) (simp add: str_rfind_append Let_def)

lemma set_ancestor_loop: "set (ancestor_loop pre c) = (\<lambda>x. pre @ x) ` rel_ancestors c"
proof (induction c rule: measure_induct_rule[where f = length])
  case (less c)
  show ?case
  proof (cases "str_rfind CHR ''/'' c")
    case None
    then have "rel_ancestors c = {}" by (intro rel_ancestors_no_slash) (simp add: str_rfind_None)
    with None show ?thesis by (subst ancestor_loop.simps) simp
  next
    case (Some idx)
    then obtain a b where c: "c = a @ CHR ''/'' # b" and b: "CHR ''/'' \<notin> set b" by (rule str_rfind_SomeE)
    show ?thesis
    proof (cases "c = ''/''")
      case True
      then show ?thesis by (simp add: ancestor_loop.simps)
    next
      case False
      then have loop: "ancestor_loop pre c =
        (if a = [] then [pre @ ''/''] else (pre @ a) # (if a = ''/'' then [] else ancestor_loop pre a))"
        using ancestor_loop_step[OF b, of a pre] c by simp
      show ?thesis
      proof (cases "a = []")
        case True
        have "b \<noteq> []" using False True c by auto
        with True show ?thesis unfolding loop unfolding c using rel_ancestors_root[OF b] by simp
      next
        case ne: False
        have "length a < length c" by (simp add: c)
        with less have "set (ancestor_loop pre a) = (\<lambda>x. pre @ x) ` rel_ancestors a" by blast
        with ne show ?thesis
          unfolding loop unfolding c rel_ancestors_step[OF b ne] by simp
      qed
    qed
  qed
qed

lemma rel_ancestors_cases:
  assumes "x \<in> rel_ancestors c"
  obtains (cut) r where "x \<noteq> []" and "c = x @ CHR ''/'' # r"
    | (root) r where "x = ''/''" and "c = CHR ''/'' # r" and "r \<noteq> []"
  using assms unfolding rel_ancestors_def by (cases "\<exists>r. c = CHR ''/'' # r \<and> r \<noteq> []") auto

lemma rel_ancestors_shorter: "x \<in> rel_ancestors c \<Longrightarrow> length x < length c"
  by (elim rel_ancestors_cases) auto

lemma rel_ancestors_trans: "x \<in> rel_ancestors y \<Longrightarrow> y \<in> rel_ancestors z \<Longrightarrow> x \<in> rel_ancestors z"
  by (elim rel_ancestors_cases) (auto simp: rel_ancestors_def Cons_eq_append_conv)

lemma rel_ancestors_chars: "x \<in> rel_ancestors c \<Longrightarrow> set x \<subseteq> set c"
  by (elim rel_ancestors_cases) auto

text \<open>A full path is a scope (a namespace or a handler) and a relative part.\<close>

definition path_split :: "string \<Rightarrow> (string \<times> string) option" where
  "path_split p =
     (case split_once SCOPED_PATH_SEP p of
        Some (ns, rel) \<Rightarrow> Some (ns @ [SCOPED_PATH_SEP], rel)
      | None \<Rightarrow>
          (case str_find CHR '':'' p of
             None \<Rightarrow> None
           | Some i \<Rightarrow> Some (take (i + 1) p, drop (i + 1) p)))"

lemma path_split_append: "path_split p = Some (scope, rel) \<Longrightarrow> p = scope @ rel"
  by (auto simp: path_split_def split: option.splits dest!: split_once_SomeD)

lemma set_get_ancestors:
  "set (get_ancestors p) =
     (case path_split p of None \<Rightarrow> {} | Some (scope, rel) \<Rightarrow> (\<lambda>x. scope @ x) ` rel_ancestors rel)"
  by (auto simp: get_ancestors_def path_split_def set_ancestor_loop split: option.splits)

text \<open>Cutting a path shorter keeps its scope.\<close>

lemma path_split_scope:
  assumes "path_split p = Some (scope, rel)" and "set x \<subseteq> set rel"
  shows "path_split (scope @ x) = Some (scope, x)"
proof (cases "split_once SCOPED_PATH_SEP p")
  case (Some nr)
  then obtain ns where "split_once SCOPED_PATH_SEP p = Some (ns, rel)" and scope: "scope = ns @ [SCOPED_PATH_SEP]"
    using assms(1) by (cases nr) (auto simp: path_split_def)
  then have "SCOPED_PATH_SEP \<notin> set ns" by (auto dest: split_once_SomeD)
  then show ?thesis by (simp add: path_split_def scope)
next
  case None
  then have no_sep: "SCOPED_PATH_SEP \<notin> set p" by (simp add: split_once_None)
  obtain i where i: "str_find CHR '':'' p = Some i" and scope: "scope = take (i + 1) p" and rel: "rel = drop (i + 1) p"
    using assms(1) None by (auto simp: path_split_def split: option.splits)
  note f = str_find_Some_append[OF i]
  then have sc: "scope = take i p @ [CHR '':'']"
    using scope str_find_SomeD[OF i] by (simp add: take_Suc_conv_app_nth)
  have "set scope \<union> set rel = set p" using path_split_append[OF assms(1)] by auto
  then have "SCOPED_PATH_SEP \<notin> set (scope @ x)" using no_sep assms(2) by auto
  moreover have "str_find CHR '':'' (scope @ x) = Some i"
    using f str_find_append_notin[of "CHR '':''" "take i p" x] str_find_SomeD[OF i] by (simp add: sc)
  moreover have "i < length p" using str_find_SomeD[OF i] by simp
  ultimately show ?thesis by (simp add: path_split_def sc)
qed

lemma get_ancestors_shorter: "a \<in> set (get_ancestors p) \<Longrightarrow> length a < length p"
  by (auto simp: set_get_ancestors split: option.splits dest!: path_split_append rel_ancestors_shorter)

lemma get_ancestors_trans:
  assumes "a \<in> set (get_ancestors b)" and "b \<in> set (get_ancestors c)"
  shows "a \<in> set (get_ancestors c)"
proof -
  obtain scope rel y where c: "path_split c = Some (scope, rel)" and y: "y \<in> rel_ancestors rel" and b: "b = scope @ y"
    using assms(2) by (auto simp: set_get_ancestors split: option.splits)
  have "path_split b = Some (scope, y)" unfolding b by (rule path_split_scope[OF c rel_ancestors_chars[OF y]])
  with assms(1) obtain x where "x \<in> rel_ancestors y" and "a = scope @ x" by (auto simp: set_get_ancestors)
  with y c show ?thesis by (auto simp: set_get_ancestors intro: rel_ancestors_trans)
qed

lemma is_strict_ancestor_iff: "is_strict_ancestor a d \<longleftrightarrow> a \<in> set (get_ancestors d)"
  by (auto simp: is_strict_ancestor_def list_ex_iff)

lemma is_strict_ancestor_irrefl [simp]: "\<not> is_strict_ancestor a a"
  using get_ancestors_shorter by (auto simp: is_strict_ancestor_iff)

lemma is_strict_ancestor_asym: "is_strict_ancestor a b \<Longrightarrow> \<not> is_strict_ancestor b a"
  unfolding is_strict_ancestor_iff by (meson get_ancestors_shorter less_asym)

lemma get_ancestors_chars: "a \<in> set (get_ancestors p) \<Longrightarrow> set a \<subseteq> set p"
  using path_split_append rel_ancestors_chars
  by (fastforce simp: set_get_ancestors split: option.splits)

section \<open>Facts about conflicts\<close>

text \<open>The paths a lock takes for itself: a write takes its path, a recursive one all below it.\<close>

definition lock_covers :: "lock_algorithm \<Rightarrow> mode \<Rightarrow> string \<Rightarrow> string \<Rightarrow> bool" where
  "lock_covers alg m p q \<longleftrightarrow> m = Write \<and> (q = p \<or> recursive alg \<and> is_strict_ancestor p q)"

lemma locks_conflict_covers:
  "locks_conflict a p m b q n \<longleftrightarrow>
     allows_mode a m \<and> allows_mode b n \<and> (lock_covers a m p q \<or> lock_covers b n q p)"
  using is_strict_ancestor_asym[of p q] is_strict_ancestor_asym[of q p]
  by (auto simp: locks_conflict_def lock_covers_def)

lemma locks_conflict_sym: "locks_conflict a p m b q n \<longleftrightarrow> locks_conflict b q n a p m"
  by (auto simp: locks_conflict_covers)

text \<open>A path whose segments are not empty comes back from its scoped form.\<close>

definition no_empty_segment :: "string \<Rightarrow> bool" where
  "no_empty_segment p \<longleftrightarrow> \<not> sublist ''//'' p \<and> (suffix ''/'' p \<longrightarrow> suffix '':/'' p)"

end
