(* ===== verification/Store_Txn.thy ===== *)
theory Store_Txn
  imports Store_Keys
begin

text \<open>
  \<open>src/src/store_rocksdb.rs\<close>: the \<open>StoreTxn\<close> trait, the stored records, the merged range scan and
  the three transactions that implement the trait (\<open>WriteTxn\<close>, \<open>RocksDbTxn\<close>, \<open>SnapshotTxn\<close>).

  RocksDB and bincode are parameters: \<open>rocksdb\<close> holds the database calls the code makes and
  \<open>codec\<close> the two bincode functions. What the proofs assume of them is in \<open>Store_Refinement\<close>.
  A trait object is a record of its methods, so the lock engine is written once over \<open>store_txn\<close>.
\<close>

section \<open>Stored records\<close>

datatype stored_record =
    Str string u64
  | Counter i64
  | Bytes bytes u64

record codec =
  bincode_encode :: "stored_record \<Rightarrow> error + bytes"
  bincode_decode :: "bytes \<Rightarrow> error + stored_record"

definition encode_record :: "'c codec_scheme \<Rightarrow> stored_record \<Rightarrow> error + bytes" where
  "encode_record C rec = bincode_encode C rec"

definition decode_record :: "'c codec_scheme \<Rightarrow> bytes \<Rightarrow> error + stored_record" where
  "decode_record C b = bincode_decode C b"

definition decode_record_lenient :: "'c codec_scheme \<Rightarrow> bytes \<Rightarrow> stored_record option" where
  "decode_record_lenient C b = (case bincode_decode C b of Inl _ \<Rightarrow> None | Inr rec \<Rightarrow> Some rec)"

definition live_str :: "stored_record \<Rightarrow> u64 \<Rightarrow> string option" where
  "live_str rec now =
     (case rec of
        Str v exp \<Rightarrow> if \<not> expired exp now then Some v else None
      | _ \<Rightarrow> None)"

section \<open>The database\<close>

datatype batch_op =
    PutCf cf bytes bytes
  | DeleteCf cf bytes
  | DeleteRangeCf cf bytes bytes

text \<open>
  The calls of the \<open>rocksdb\<close> crate. \<open>iter_cf d cf start upper\<close> is what a raw iterator yields from
  \<open>seek(start)\<close> (or \<open>seek_to_first\<close>) up to the upper bound, with the \<open>status\<close> it reports when it
  is no longer valid; \<open>seek_for_prev_cf d cf lower target\<close> is the entry a \<open>seek_for_prev(target)\<close>
  under a lower bound stops at. A snapshot of a database is the database it was taken of.
\<close>

record 'db rocksdb =
  cf_handle :: "'db \<Rightarrow> cf \<Rightarrow> bool"
  get_cf :: "'db \<Rightarrow> cf \<Rightarrow> bytes \<Rightarrow> error + bytes option"
  iter_cf :: "'db \<Rightarrow> cf \<Rightarrow> bytes option \<Rightarrow> bytes option \<Rightarrow> (bytes \<times> bytes) list \<times> error option"
  seek_for_prev_cf :: "'db \<Rightarrow> cf \<Rightarrow> bytes \<Rightarrow> bytes \<Rightarrow> (bytes \<times> bytes) option \<times> error option"
  write_opt :: "'db \<Rightarrow> batch_op list \<Rightarrow> error + 'db"
  delete_range_cf :: "'db \<Rightarrow> cf \<Rightarrow> bytes \<Rightarrow> bytes \<Rightarrow> error + 'db"
  delete_file_in_range_cf :: "'db \<Rightarrow> cf \<Rightarrow> bytes \<Rightarrow> bytes \<Rightarrow> error + 'db"
  compact_range_cf :: "'db \<Rightarrow> cf \<Rightarrow> bytes \<Rightarrow> bytes \<Rightarrow> 'db"

section \<open>Key helpers\<close>

definition member_prefix :: "bytes \<Rightarrow> bytes" where
  "member_prefix key = key @ [NUL]"

definition member_key :: "bytes \<Rightarrow> string \<Rightarrow> bytes" where
  "member_key key member = member_prefix key @ member"

text \<open>The loop works on the last byte; here it walks the reversed prefix.\<close>

fun prefix_upper_bound_rev :: "bytes \<Rightarrow> bytes option" where
  "prefix_upper_bound_rev [] = None"
| "prefix_upper_bound_rev (c # r) =
     (if c = CHR 0xFF then prefix_upper_bound_rev r
      else Some (rev (char_of ((of_char c :: nat) + 1) # r)))"

definition prefix_upper_bound :: "bytes \<Rightarrow> bytes option" where
  "prefix_upper_bound p = prefix_upper_bound_rev (rev p)"

definition key_successor :: "bytes \<Rightarrow> bytes" where
  "key_successor key = key @ [NUL]"

section \<open>The merged range scan\<close>

type_synonym overlay = "(bytes, bytes option) omap"
type_synonym read_cache = "cf \<rightharpoonup> (bytes \<rightharpoonup> bytes option)"

text \<open>A visitor sees a key and a value and says whether to go on; its captured variables are the
  state \<open>'s\<close>.\<close>

type_synonym 's visitor = "bytes \<Rightarrow> bytes \<Rightarrow> 's \<Rightarrow> error + (bool \<times> 's)"

definition visit_then :: "'s visitor \<Rightarrow> bytes \<Rightarrow> bytes \<Rightarrow> 's \<Rightarrow> ('s \<Rightarrow> error + 's) \<Rightarrow> error + 's" where
  "visit_then visit k v s continue =
     (case visit k v s of
        Inl e \<Rightarrow> Inl e
      | Inr (keep_going, s') \<Rightarrow> if keep_going then continue s' else Inr s')"

text \<open>The loop: \<open>it\<close> is what the database iterator has left, \<open>ov\<close> what the overlay range has left.\<close>

function (sequential) merge_loop ::
    "error option \<Rightarrow> 's visitor \<Rightarrow> (bytes \<times> bytes) list \<Rightarrow> (bytes \<times> bytes option) list \<Rightarrow> 's \<Rightarrow> error + 's"
where
  "merge_loop status visit [] ov s =
     (case status of
        Some e \<Rightarrow> Inl e
      | None \<Rightarrow>
          (case ov of
             [] \<Rightarrow> Inr s
           | (k, Some value) # ov' \<Rightarrow> visit_then visit k value s (merge_loop status visit [] ov')
           | (k, None) # ov' \<Rightarrow> merge_loop status visit [] ov' s))"
| "merge_loop status visit ((dk, dv) # it) [] s =
     visit_then visit dk dv s (merge_loop status visit it [])"
| "merge_loop status visit ((dk, dv) # it) ((ok, v) # ov) s =
     (if dk \<ge> ok then
        let it' = (if dk = ok then it else (dk, dv) # it) in
        (case v of
           Some value \<Rightarrow> visit_then visit ok value s (merge_loop status visit it' ov)
         | None \<Rightarrow> merge_loop status visit it' ov s)
      else visit_then visit dk dv s (merge_loop status visit it ((ok, v) # ov)))"
  by pat_completeness auto
termination
  by (relation "measure (\<lambda>(_, _, it, ov, _). length it + length ov)") (auto split: if_splits)

text \<open>\<open>BTreeMap::range\<close>, which panics on a non-empty map when the range is inverted.\<close>

definition overlay_range :: "overlay \<Rightarrow> bytes option \<Rightarrow> bytes option \<Rightarrow> error + (bytes \<times> bytes option) list" where
  "overlay_range m lo up =
     (case (lo, up) of
        (Some l, Some u) \<Rightarrow>
          if om_entries m \<noteq> [] \<and> l > u then Inl Panic
          else Inr (filter (\<lambda>(k, _). l \<le> k \<and> k < u) (om_entries m))
      | (Some l, None) \<Rightarrow> Inr (filter (\<lambda>(k, _). l \<le> k) (om_entries m))
      | (None, Some u) \<Rightarrow> Inr (filter (\<lambda>(k, _). k < u) (om_entries m))
      | (None, None) \<Rightarrow> Inr (om_entries m))"

definition scan_with_overlay ::
    "'db rocksdb \<Rightarrow> 'db \<Rightarrow> cf \<Rightarrow> overlay option \<Rightarrow> 'db option \<Rightarrow> bytes option \<Rightarrow> bytes option \<Rightarrow>
     's visitor \<Rightarrow> 's \<Rightarrow> error + 's" where
  "scan_with_overlay R db cf ov snapshot start upper visit s =
     (if \<not> cf_handle R db cf then Inl (MissingColumnFamily cf)
      else let (it, status) = iter_cf R (case snapshot of Some sn \<Rightarrow> sn | None \<Rightarrow> db) cf start upper in
        (case overlay_range (case ov of Some m \<Rightarrow> m | None \<Rightarrow> om_empty) start upper of
           Inl e \<Rightarrow> Inl e
         | Inr entries \<Rightarrow> merge_loop status visit it entries s))"

section \<open>Set scans\<close>

definition raw_scan_cap :: "nat \<Rightarrow> nat" where
  "raw_scan_cap limit = min (limit * 4) (2 ^ 64 - 1)"

text \<open>The visitor of \<open>smembers_limited_impl\<close>; its state is \<open>(members, raw, exceeded)\<close>.\<close>

definition smembers_limited_visit ::
    "'c codec_scheme \<Rightarrow> bytes \<Rightarrow> nat \<Rightarrow> u64 \<Rightarrow> (string list \<times> nat \<times> bool) visitor" where
  "smembers_limited_visit C pre limit now k v st =
     (case st of (members, raw, exceeded) \<Rightarrow>
        if \<not> prefix pre k then Inr (False, st)
        else let raw = raw + 1 in
          (case decode_record C v of
             Inl e \<Rightarrow> Inl e
           | Inr rec \<Rightarrow>
               (case live_str rec now of
                  Some member \<Rightarrow>
                    if length members \<ge> limit then Inr (False, (members, raw, True))
                    else if raw \<ge> raw_scan_cap limit then Inr (False, (members @ [member], raw, True))
                    else Inr (True, (members @ [member], raw, exceeded))
                | None \<Rightarrow>
                    if raw \<ge> raw_scan_cap limit then Inr (False, (members, raw, True))
                    else Inr (True, (members, raw, exceeded)))))"

definition smembers_limited_impl ::
    "'db rocksdb \<Rightarrow> 'c codec_scheme \<Rightarrow> 'db \<Rightarrow> cf \<Rightarrow> overlay option \<Rightarrow> 'db option \<Rightarrow> bytes \<Rightarrow> nat \<Rightarrow> u64 \<Rightarrow>
     error + string list" where
  "smembers_limited_impl R C db cf ov snapshot key limit now =
     (let pre = member_prefix key; upper = prefix_upper_bound pre in
      case scan_with_overlay R db cf ov snapshot (Some pre) upper
             (smembers_limited_visit C pre limit now) ([], 0, False) of
        Inl e \<Rightarrow> Inl e
      | Inr (members, raw, exceeded) \<Rightarrow>
          if exceeded then Inl (SetScanLimitExceeded ''smembers'' limit) else Inr members)"

text \<open>The visitor of \<open>smembers_page_impl\<close>; its state is \<open>(members, raw, next_cursor)\<close>.\<close>

definition smembers_page_visit ::
    "'c codec_scheme \<Rightarrow> bytes \<Rightarrow> nat \<Rightarrow> u64 \<Rightarrow> (string list \<times> nat \<times> bytes option) visitor" where
  "smembers_page_visit C pre page now k v st =
     (case st of (members, raw, next_cursor) \<Rightarrow>
        if \<not> prefix pre k then Inr (False, st)
        else if raw \<ge> page then Inr (False, (members, raw, Some k))
        else
          (case decode_record C v of
             Inl e \<Rightarrow> Inl e
           | Inr rec \<Rightarrow>
               (case live_str rec now of
                  Some member \<Rightarrow> Inr (True, (members @ [member], raw + 1, next_cursor))
                | None \<Rightarrow> Inr (True, (members, raw + 1, next_cursor)))))"

definition smembers_page_impl ::
    "'db rocksdb \<Rightarrow> 'c codec_scheme \<Rightarrow> 'db \<Rightarrow> cf \<Rightarrow> overlay option \<Rightarrow> 'db option \<Rightarrow> bytes \<Rightarrow> bytes option \<Rightarrow>
     nat \<Rightarrow> u64 \<Rightarrow> error + (string list \<times> bytes option)" where
  "smembers_page_impl R C db cf ov snapshot key cursor page now =
     (let pre = member_prefix key; upper = prefix_upper_bound pre;
          start = (case cursor of Some c \<Rightarrow> c | None \<Rightarrow> pre) in
      case scan_with_overlay R db cf ov snapshot (Some start) upper
             (smembers_page_visit C pre page now) ([], 0, None) of
        Inl e \<Rightarrow> Inl e
      | Inr (members, raw, next_cursor) \<Rightarrow> Inr (members, next_cursor))"

definition has_live_member_visit :: "'c codec_scheme \<Rightarrow> bytes \<Rightarrow> u64 \<Rightarrow> bool visitor" where
  "has_live_member_visit C pre now k v found =
     (if \<not> prefix pre k then Inr (False, found)
      else
        (case decode_record C v of
           Inl e \<Rightarrow> Inl e
         | Inr rec \<Rightarrow> if live_str rec now \<noteq> None then Inr (False, True) else Inr (True, found)))"

definition has_live_member_impl ::
    "'db rocksdb \<Rightarrow> 'c codec_scheme \<Rightarrow> 'db \<Rightarrow> cf \<Rightarrow> overlay option \<Rightarrow> 'db option \<Rightarrow> bytes \<Rightarrow> u64 \<Rightarrow>
     error + bool" where
  "has_live_member_impl R C db cf ov snapshot key now =
     (let pre = member_prefix key; upper = prefix_upper_bound pre in
      scan_with_overlay R db cf ov snapshot (Some pre) upper (has_live_member_visit C pre now) False)"

section \<open>The StoreTxn trait\<close>

record 't store_txn =
  now_ms :: "'t \<Rightarrow> u64"
  get_str :: "cf \<Rightarrow> bytes \<Rightarrow> ('t, string option) txm"
  set_str :: "cf \<Rightarrow> bytes \<Rightarrow> string \<Rightarrow> u64 \<Rightarrow> ('t, unit) txm"
  pexpire_str :: "cf \<Rightarrow> bytes \<Rightarrow> u64 \<Rightarrow> ('t, unit) txm"
  del :: "cf \<Rightarrow> bytes \<Rightarrow> ('t, unit) txm"
  sadd :: "cf \<Rightarrow> bytes \<Rightarrow> string \<Rightarrow> u64 \<Rightarrow> ('t, unit) txm"
  srem :: "cf \<Rightarrow> bytes \<Rightarrow> string \<Rightarrow> ('t, unit) txm"
  smembers_limited :: "cf \<Rightarrow> bytes \<Rightarrow> nat \<Rightarrow> ('t, string list) txm"
  smembers_page :: "cf \<Rightarrow> bytes \<Rightarrow> bytes option \<Rightarrow> nat \<Rightarrow> ('t, string list \<times> bytes option) txm"
  sismember :: "cf \<Rightarrow> bytes \<Rightarrow> string \<Rightarrow> ('t, bool) txm"
  has_live_member :: "cf \<Rightarrow> bytes \<Rightarrow> ('t, bool) txm"

text \<open>Decoding the value of a point read, as the \<open>get_str\<close> and \<open>sismember\<close> methods do.\<close>

definition str_of_value :: "'c codec_scheme \<Rightarrow> u64 \<Rightarrow> bytes option \<Rightarrow> error + string option" where
  "str_of_value C now value =
     (case value of
        Some v \<Rightarrow> (case decode_record C v of Inl e \<Rightarrow> Inl e | Inr rec \<Rightarrow> Inr (live_str rec now))
      | None \<Rightarrow> Inr None)"

definition is_member_value :: "'c codec_scheme \<Rightarrow> u64 \<Rightarrow> bytes option \<Rightarrow> error + bool" where
  "is_member_value C now value =
     (case value of
        Some v \<Rightarrow>
          (case decode_record C v of
             Inl e \<Rightarrow> Inl e
           | Inr rec \<Rightarrow> Inr (case rec of Str _ exp \<Rightarrow> \<not> expired exp now | _ \<Rightarrow> False))
      | None \<Rightarrow> Inr False)"

section \<open>WriteTxn\<close>

record 'db write_txn =
  wt_db :: 'db
  wt_group :: group_id
  wt_batch :: "batch_op list"
  wt_overlay :: "cf \<rightharpoonup> overlay"
  wt_read_cache :: read_cache
  wt_now_ms :: u64
  wt_dirty :: bool

definition write_txn_new :: "'db \<Rightarrow> group_id \<Rightarrow> u64 \<Rightarrow> 'db write_txn" where
  "write_txn_new db g now =
     \<lparr> wt_db = db, wt_group = g, wt_batch = [], wt_overlay = Map.empty,
       wt_read_cache = Map.empty, wt_now_ms = now, wt_dirty = False \<rparr>"

definition scoped :: "'db write_txn \<Rightarrow> bytes \<Rightarrow> bytes" where
  "scoped t key = group_key (wt_group t) key"

definition get_full :: "'db rocksdb \<Rightarrow> cf \<Rightarrow> bytes \<Rightarrow> ('db write_txn, bytes option) txm" where
  "get_full R cf full_key t =
     (case Option.bind (wt_overlay t cf) (\<lambda>m. om_lookup m full_key) of
        Some entry \<Rightarrow> Inr (entry, t)
      | None \<Rightarrow>
          (case Option.bind (wt_read_cache t cf) (\<lambda>cache. cache full_key) of
             Some entry \<Rightarrow> Inr (entry, t)
           | None \<Rightarrow>
               if \<not> cf_handle R (wt_db t) cf then Inl (MissingColumnFamily cf)
               else
                 (case get_cf R (wt_db t) cf full_key of
                    Inl e \<Rightarrow> Inl e
                  | Inr value \<Rightarrow>
                      let cache = (case wt_read_cache t cf of Some c \<Rightarrow> c | None \<Rightarrow> Map.empty) in
                      Inr (value,
                        t\<lparr> wt_read_cache := (wt_read_cache t)(cf \<mapsto> cache(full_key \<mapsto> value)) \<rparr>))))"

definition get_raw :: "'db rocksdb \<Rightarrow> cf \<Rightarrow> bytes \<Rightarrow> ('db write_txn, bytes option) txm" where
  "get_raw R cf key t = get_full R cf (scoped t key) t"

definition overlay_of :: "'db write_txn \<Rightarrow> cf \<Rightarrow> overlay" where
  "overlay_of t cf = (case wt_overlay t cf of Some m \<Rightarrow> m | None \<Rightarrow> om_empty)"

definition put_full :: "'db rocksdb \<Rightarrow> cf \<Rightarrow> bytes \<Rightarrow> bytes \<Rightarrow> ('db write_txn, unit) txm" where
  "put_full R cf full_key value t =
     (if \<not> cf_handle R (wt_db t) cf then Inl (MissingColumnFamily cf)
      else Inr ((), t\<lparr> wt_batch := wt_batch t @ [PutCf cf full_key value],
                      wt_overlay := (wt_overlay t)(cf \<mapsto> om_insert full_key (Some value) (overlay_of t cf)),
                      wt_read_cache := (wt_read_cache t)(cf := None),
                      wt_dirty := True \<rparr>))"

definition put_raw :: "'db rocksdb \<Rightarrow> cf \<Rightarrow> bytes \<Rightarrow> bytes \<Rightarrow> ('db write_txn, unit) txm" where
  "put_raw R cf key value t = put_full R cf (scoped t key) value t"

definition delete_raw :: "'db rocksdb \<Rightarrow> cf \<Rightarrow> bytes \<Rightarrow> ('db write_txn, unit) txm" where
  "delete_raw R cf key t =
     (if \<not> cf_handle R (wt_db t) cf then Inl (MissingColumnFamily cf)
      else Inr ((), t\<lparr> wt_batch := wt_batch t @ [DeleteCf cf (scoped t key)],
                      wt_overlay := (wt_overlay t)(cf \<mapsto> om_insert (scoped t key) None (overlay_of t cf)),
                      wt_read_cache := (wt_read_cache t)(cf := None),
                      wt_dirty := True \<rparr>))"

definition scan_merged ::
    "'db rocksdb \<Rightarrow> cf \<Rightarrow> bytes option \<Rightarrow> bytes option \<Rightarrow> 's visitor \<Rightarrow> 's \<Rightarrow> ('db write_txn, 's) txm" where
  "scan_merged R cf start upper visit s t =
     (let gp = group_prefix (wt_group t);
          scoped_start = (case start of Some k \<Rightarrow> group_key (wt_group t) k | None \<Rightarrow> gp);
          scoped_upper =
            (case upper of Some u \<Rightarrow> Some (group_key (wt_group t) u) | None \<Rightarrow> prefix_upper_bound gp) in
      lift_res
        (scan_with_overlay R (wt_db t) cf (wt_overlay t cf) None (Some scoped_start) scoped_upper
           (\<lambda>k v. visit (drop (length gp) k) v) s) t)"

definition commit :: "'db rocksdb \<Rightarrow> 'db write_txn \<Rightarrow> error + (bool \<times> 'db)" where
  "commit R t =
     (if \<not> wt_dirty t then Inr (False, wt_db t)
      else (case write_opt R (wt_db t) (wt_batch t) of Inl e \<Rightarrow> Inl e | Inr d \<Rightarrow> Inr (True, d)))"

definition write_expiry :: "'db rocksdb \<Rightarrow> 'c codec_scheme \<Rightarrow> u64 \<Rightarrow> cf \<Rightarrow> bytes \<Rightarrow> ('db write_txn, unit) txm" where
  "write_expiry R C exp cf primary_key t =
     (let index_exp = quantized_index_expiry (wt_now_ms t) exp;
          ek = expiry_key index_exp cf primary_key in
      bnd (lift_res (encode_record C (Str [] index_exp))) (\<lambda>record.
      put_raw R CF_EXPIRY ek record) t)"

definition set_bytes :: "'db rocksdb \<Rightarrow> 'c codec_scheme \<Rightarrow> cf \<Rightarrow> bytes \<Rightarrow> bytes \<Rightarrow> u64 \<Rightarrow> ('db write_txn, unit) txm" where
  "set_bytes R C cf key value ttl_ms t =
     (let exp = expiry_at (wt_now_ms t) ttl_ms in
      bnd (lift_res (encode_record C (Bytes value exp))) (\<lambda>record.
      bnd (put_raw R cf key record) (\<lambda>_.
      if 0 < ttl_ms then write_expiry R C exp cf key else ret ())) t)"

definition get_bytes :: "'db rocksdb \<Rightarrow> 'c codec_scheme \<Rightarrow> cf \<Rightarrow> bytes \<Rightarrow> ('db write_txn, bytes option) txm" where
  "get_bytes R C cf key =
     bnd (get_raw R cf key) (\<lambda>raw.
     case raw of
       None \<Rightarrow> ret None
     | Some raw \<Rightarrow>
         bnd (lift_res (decode_record C raw)) (\<lambda>rec t.
         case rec of
           Bytes v exp \<Rightarrow> Inr (if \<not> expired exp (wt_now_ms t) then Some v else None, t)
         | _ \<Rightarrow> Inr (None, t)))"

definition write_get_str :: "'db rocksdb \<Rightarrow> 'c codec_scheme \<Rightarrow> cf \<Rightarrow> bytes \<Rightarrow> ('db write_txn, string option) txm" where
  "write_get_str R C cf key =
     bnd (get_raw R cf key) (\<lambda>value t. lift_res (str_of_value C (wt_now_ms t) value) t)"

definition write_set_str ::
    "'db rocksdb \<Rightarrow> 'c codec_scheme \<Rightarrow> cf \<Rightarrow> bytes \<Rightarrow> string \<Rightarrow> u64 \<Rightarrow> ('db write_txn, unit) txm" where
  "write_set_str R C cf key value ttl_ms t =
     (let exp = expiry_at (wt_now_ms t) ttl_ms in
      bnd (lift_res (encode_record C (Str value exp))) (\<lambda>record.
      bnd (put_raw R cf key record) (\<lambda>_.
      if 0 < ttl_ms then write_expiry R C exp cf key else ret ())) t)"

definition write_pexpire_str :: "'db rocksdb \<Rightarrow> 'c codec_scheme \<Rightarrow> cf \<Rightarrow> bytes \<Rightarrow> u64 \<Rightarrow> ('db write_txn, unit) txm" where
  "write_pexpire_str R C cf key ttl_ms =
     bnd (write_get_str R C cf key) (\<lambda>v.
     case v of Some v \<Rightarrow> write_set_str R C cf key v ttl_ms | None \<Rightarrow> ret ())"

definition write_del :: "'db rocksdb \<Rightarrow> cf \<Rightarrow> bytes \<Rightarrow> ('db write_txn, unit) txm" where
  "write_del R cf key = delete_raw R cf key"

definition write_sadd ::
    "'db rocksdb \<Rightarrow> 'c codec_scheme \<Rightarrow> cf \<Rightarrow> bytes \<Rightarrow> string \<Rightarrow> u64 \<Rightarrow> ('db write_txn, unit) txm" where
  "write_sadd R C cf key member ttl_ms t =
     (let exp = expiry_at (wt_now_ms t) ttl_ms; mk = member_key key member in
      bnd (lift_res (encode_record C (Str member exp))) (\<lambda>record.
      bnd (put_raw R cf mk record) (\<lambda>_.
      if 0 < ttl_ms then write_expiry R C exp cf mk else ret ())) t)"

definition write_srem :: "'db rocksdb \<Rightarrow> cf \<Rightarrow> bytes \<Rightarrow> string \<Rightarrow> ('db write_txn, unit) txm" where
  "write_srem R cf key member = delete_raw R cf (member_key key member)"

definition write_smembers_limited ::
    "'db rocksdb \<Rightarrow> 'c codec_scheme \<Rightarrow> cf \<Rightarrow> bytes \<Rightarrow> nat \<Rightarrow> ('db write_txn, string list) txm" where
  "write_smembers_limited R C cf key limit t =
     lift_res (smembers_limited_impl R C (wt_db t) cf (wt_overlay t cf) None (scoped t key) limit
       (wt_now_ms t)) t"

definition write_smembers_page ::
    "'db rocksdb \<Rightarrow> 'c codec_scheme \<Rightarrow> cf \<Rightarrow> bytes \<Rightarrow> bytes option \<Rightarrow> nat \<Rightarrow>
     ('db write_txn, string list \<times> bytes option) txm" where
  "write_smembers_page R C cf key cursor page t =
     lift_res (map_sum id (\<lambda>(members, next). (members, map_option (drop GROUP_PREFIX_LEN) next))
       (smembers_page_impl R C (wt_db t) cf (wt_overlay t cf) None (scoped t key)
         (map_option (group_key (wt_group t)) cursor) page (wt_now_ms t))) t"

definition write_sismember :: "'db rocksdb \<Rightarrow> 'c codec_scheme \<Rightarrow> cf \<Rightarrow> bytes \<Rightarrow> string \<Rightarrow> ('db write_txn, bool) txm" where
  "write_sismember R C cf key member =
     bnd (get_raw R cf (member_key key member)) (\<lambda>value t.
     lift_res (is_member_value C (wt_now_ms t) value) t)"

definition write_has_live_member :: "'db rocksdb \<Rightarrow> 'c codec_scheme \<Rightarrow> cf \<Rightarrow> bytes \<Rightarrow> ('db write_txn, bool) txm" where
  "write_has_live_member R C cf key t =
     lift_res (has_live_member_impl R C (wt_db t) cf (wt_overlay t cf) None (scoped t key) (wt_now_ms t)) t"

definition write_store :: "'db rocksdb \<Rightarrow> 'c codec_scheme \<Rightarrow> 'db write_txn store_txn" where
  "write_store R C =
     \<lparr> now_ms = wt_now_ms,
       get_str = write_get_str R C,
       set_str = write_set_str R C,
       pexpire_str = write_pexpire_str R C,
       del = write_del R,
       sadd = write_sadd R C,
       srem = write_srem R,
       smembers_limited = write_smembers_limited R C,
       smembers_page = write_smembers_page R C,
       sismember = write_sismember R C,
       has_live_member = write_has_live_member R C \<rparr>"

section \<open>RocksDbTxn\<close>

record 'db rocks_txn =
  rt_db :: 'db
  rt_group :: group_id
  rt_now_ms :: u64

definition rocks_txn_new :: "'db \<Rightarrow> group_id \<Rightarrow> u64 \<Rightarrow> 'db rocks_txn" where
  "rocks_txn_new db g now = \<lparr> rt_db = db, rt_group = g, rt_now_ms = now \<rparr>"

definition rocks_get_str :: "'db rocksdb \<Rightarrow> 'c codec_scheme \<Rightarrow> cf \<Rightarrow> bytes \<Rightarrow> ('db rocks_txn, string option) txm" where
  "rocks_get_str R C cf key t =
     (if \<not> cf_handle R (rt_db t) cf then Inl (MissingColumnFamily cf)
      else
        (case get_cf R (rt_db t) cf (group_key (rt_group t) key) of
           Inl e \<Rightarrow> Inl e
         | Inr value \<Rightarrow> lift_res (str_of_value C (rt_now_ms t) value) t))"

definition rocks_smembers_limited ::
    "'db rocksdb \<Rightarrow> 'c codec_scheme \<Rightarrow> cf \<Rightarrow> bytes \<Rightarrow> nat \<Rightarrow> ('db rocks_txn, string list) txm" where
  "rocks_smembers_limited R C cf key limit t =
     lift_res (smembers_limited_impl R C (rt_db t) cf None None (group_key (rt_group t) key) limit
       (rt_now_ms t)) t"

definition rocks_smembers_page ::
    "'db rocksdb \<Rightarrow> 'c codec_scheme \<Rightarrow> cf \<Rightarrow> bytes \<Rightarrow> bytes option \<Rightarrow> nat \<Rightarrow>
     ('db rocks_txn, string list \<times> bytes option) txm" where
  "rocks_smembers_page R C cf key cursor page t =
     lift_res (map_sum id (\<lambda>(members, next). (members, map_option (drop GROUP_PREFIX_LEN) next))
       (smembers_page_impl R C (rt_db t) cf None None (group_key (rt_group t) key)
         (map_option (group_key (rt_group t)) cursor) page (rt_now_ms t))) t"

definition rocks_sismember :: "'db rocksdb \<Rightarrow> 'c codec_scheme \<Rightarrow> cf \<Rightarrow> bytes \<Rightarrow> string \<Rightarrow> ('db rocks_txn, bool) txm" where
  "rocks_sismember R C cf key member t =
     (if \<not> cf_handle R (rt_db t) cf then Inl (MissingColumnFamily cf)
      else
        (case get_cf R (rt_db t) cf (group_key (rt_group t) (member_key key member)) of
           Inl e \<Rightarrow> Inl e
         | Inr value \<Rightarrow> lift_res (is_member_value C (rt_now_ms t) value) t))"

definition rocks_has_live_member :: "'db rocksdb \<Rightarrow> 'c codec_scheme \<Rightarrow> cf \<Rightarrow> bytes \<Rightarrow> ('db rocks_txn, bool) txm" where
  "rocks_has_live_member R C cf key t =
     lift_res (has_live_member_impl R C (rt_db t) cf None None (group_key (rt_group t) key) (rt_now_ms t)) t"

definition rocks_store :: "'db rocksdb \<Rightarrow> 'c codec_scheme \<Rightarrow> 'db rocks_txn store_txn" where
  "rocks_store R C =
     \<lparr> now_ms = rt_now_ms,
       get_str = rocks_get_str R C,
       set_str = (\<lambda>cf key value ttl. fail ReadOnlyTxn),
       pexpire_str = (\<lambda>cf key ttl. fail ReadOnlyTxn),
       del = (\<lambda>cf key. ret ()),
       sadd = (\<lambda>cf key member ttl. fail ReadOnlyTxn),
       srem = (\<lambda>cf key member. ret ()),
       smembers_limited = rocks_smembers_limited R C,
       smembers_page = rocks_smembers_page R C,
       sismember = rocks_sismember R C,
       has_live_member = rocks_has_live_member R C \<rparr>"

section \<open>SnapshotTxn\<close>

record 'db snapshot_txn =
  sn_db :: 'db
  sn_snapshot :: 'db
  sn_group :: group_id
  sn_now_ms :: u64

definition snapshot_txn_new :: "'db \<Rightarrow> 'db \<Rightarrow> group_id \<Rightarrow> u64 \<Rightarrow> 'db snapshot_txn" where
  "snapshot_txn_new db snapshot g now =
     \<lparr> sn_db = db, sn_snapshot = snapshot, sn_group = g, sn_now_ms = now \<rparr>"

definition snap_get_str :: "'db rocksdb \<Rightarrow> 'c codec_scheme \<Rightarrow> cf \<Rightarrow> bytes \<Rightarrow> ('db snapshot_txn, string option) txm" where
  "snap_get_str R C cf key t =
     (if \<not> cf_handle R (sn_db t) cf then Inl (MissingColumnFamily cf)
      else
        (case get_cf R (sn_snapshot t) cf (group_key (sn_group t) key) of
           Inl e \<Rightarrow> Inl e
         | Inr value \<Rightarrow> lift_res (str_of_value C (sn_now_ms t) value) t))"

definition snap_smembers_limited ::
    "'db rocksdb \<Rightarrow> 'c codec_scheme \<Rightarrow> cf \<Rightarrow> bytes \<Rightarrow> nat \<Rightarrow> ('db snapshot_txn, string list) txm" where
  "snap_smembers_limited R C cf key limit t =
     lift_res (smembers_limited_impl R C (sn_db t) cf None (Some (sn_snapshot t))
       (group_key (sn_group t) key) limit (sn_now_ms t)) t"

definition snap_smembers_page ::
    "'db rocksdb \<Rightarrow> 'c codec_scheme \<Rightarrow> cf \<Rightarrow> bytes \<Rightarrow> bytes option \<Rightarrow> nat \<Rightarrow>
     ('db snapshot_txn, string list \<times> bytes option) txm" where
  "snap_smembers_page R C cf key cursor page t =
     lift_res (map_sum id (\<lambda>(members, next). (members, map_option (drop GROUP_PREFIX_LEN) next))
       (smembers_page_impl R C (sn_db t) cf None (Some (sn_snapshot t)) (group_key (sn_group t) key)
         (map_option (group_key (sn_group t)) cursor) page (sn_now_ms t))) t"

definition snap_sismember :: "'db rocksdb \<Rightarrow> 'c codec_scheme \<Rightarrow> cf \<Rightarrow> bytes \<Rightarrow> string \<Rightarrow> ('db snapshot_txn, bool) txm" where
  "snap_sismember R C cf key member t =
     (if \<not> cf_handle R (sn_db t) cf then Inl (MissingColumnFamily cf)
      else
        (case get_cf R (sn_snapshot t) cf (group_key (sn_group t) (member_key key member)) of
           Inl e \<Rightarrow> Inl e
         | Inr value \<Rightarrow> lift_res (is_member_value C (sn_now_ms t) value) t))"

definition snap_has_live_member :: "'db rocksdb \<Rightarrow> 'c codec_scheme \<Rightarrow> cf \<Rightarrow> bytes \<Rightarrow> ('db snapshot_txn, bool) txm" where
  "snap_has_live_member R C cf key t =
     lift_res (has_live_member_impl R C (sn_db t) cf None (Some (sn_snapshot t))
       (group_key (sn_group t) key) (sn_now_ms t)) t"

definition snapshot_store :: "'db rocksdb \<Rightarrow> 'c codec_scheme \<Rightarrow> 'db snapshot_txn store_txn" where
  "snapshot_store R C =
     \<lparr> now_ms = sn_now_ms,
       get_str = snap_get_str R C,
       set_str = (\<lambda>cf key value ttl. fail ReadOnlyTxn),
       pexpire_str = (\<lambda>cf key ttl. fail ReadOnlyTxn),
       del = (\<lambda>cf key. ret ()),
       sadd = (\<lambda>cf key member ttl. fail ReadOnlyTxn),
       srem = (\<lambda>cf key member. ret ()),
       smembers_limited = snap_smembers_limited R C,
       smembers_page = snap_smembers_page R C,
       sismember = snap_sismember R C,
       has_live_member = snap_has_live_member R C \<rparr>"

section \<open>Group lifecycle\<close>

definition SYS_GROUP :: group_id where
  "SYS_GROUP = - 1"

text \<open>The loop over the column families; each one is range-deleted or the loop stops on an error.
  A bounded range always exists here, its absence is the panic of \<open>expect\<close>.\<close>

fun destroy_cfs :: "'db rocksdb \<Rightarrow> bytes \<Rightarrow> bytes \<Rightarrow> cf list \<Rightarrow> 'db \<Rightarrow> error + 'db" where
  "destroy_cfs R start end [] db = Inr db"
| "destroy_cfs R start end (cf # cfs) db =
     (if \<not> cf_handle R db cf then Inl (MissingColumnFamily cf)
      else
        (case delete_range_cf R db cf start end of
           Inl e \<Rightarrow> Inl e
         | Inr db' \<Rightarrow>
             destroy_cfs R start end cfs
               (case delete_file_in_range_cf R db' cf start end of Inl _ \<Rightarrow> db' | Inr db'' \<Rightarrow> db'')))"

definition destroy_group :: "'db rocksdb \<Rightarrow> 'db \<Rightarrow> group_id \<Rightarrow> error + 'db" where
  "destroy_group R db g =
     (if g = SYS_GROUP then Inl (ParseError ''refusing to destroy the system group'')
      else
        (case group_range g of
           (start, None) \<Rightarrow> Inl Panic
         | (start, Some end) \<Rightarrow> destroy_cfs R start end (STATE_CFS @ [CF_RAFT_LOG, CF_META]) db))"

definition compact_swept_expiry :: "'db rocksdb \<Rightarrow> 'db \<Rightarrow> group_id \<Rightarrow> error + 'db" where
  "compact_swept_expiry R db g =
     (if \<not> cf_handle R db CF_META then Inl (MissingColumnFamily CF_META)
      else
        (case get_cf R db CF_META (group_key g META_GC_CURSOR_KEY) of
           Inl e \<Rightarrow> Inl e
         | Inr None \<Rightarrow> Inr db
         | Inr (Some cursor) \<Rightarrow>
             if \<not> cf_handle R db CF_EXPIRY then Inl (MissingColumnFamily CF_EXPIRY)
             else
               let start = group_prefix g; upper = group_key g cursor in
               (case delete_file_in_range_cf R db CF_EXPIRY start upper of
                  Inl e \<Rightarrow> Inl e
                | Inr db' \<Rightarrow> Inr (compact_range_cf R db' CF_EXPIRY start upper))))"

definition expiry_gc_cursor :: "'db rocksdb \<Rightarrow> 'db \<Rightarrow> group_id \<Rightarrow> error + bytes option" where
  "expiry_gc_cursor R db g =
     (if \<not> cf_handle R db CF_META then Inl (MissingColumnFamily CF_META)
      else get_cf R db CF_META (group_key g META_GC_CURSOR_KEY))"

definition group_has_expiry_due :: "'db rocksdb \<Rightarrow> 'db \<Rightarrow> group_id \<Rightarrow> u64 \<Rightarrow> error + bool" where
  "group_has_expiry_due R db g now =
     (if \<not> cf_handle R db CF_EXPIRY then Inl (MissingColumnFamily CF_EXPIRY)
      else
        (case expiry_gc_cursor R db g of
           Inl e \<Rightarrow> Inl e
         | Inr cursor \<Rightarrow>
             let start = (case cursor of Some c \<Rightarrow> group_key g c | None \<Rightarrow> group_prefix g);
                 upper = group_key g (expiry_scan_upper now);
                 (it, status) = iter_cf R db CF_EXPIRY (Some start) (Some upper) in
             if it = [] then (case status of Some e \<Rightarrow> Inl e | None \<Rightarrow> Inr False)
             else Inr True))"

end
