(* ===== verification/Engine.thy ===== *)
theory Engine
  imports Lock_Paths Store_Txn
begin

text \<open>
  \<open>src/src/engine.rs\<close>: the lock engine. Every function takes the transaction's methods \<open>T\<close> (the
  \<open>T: StoreTxn\<close> of the source) and is a program over the transaction state. Logging is left out.
\<close>

section \<open>Constructors and constants\<close>

definition RELEASE_PAGE :: nat where
  "RELEASE_PAGE = 4096"

definition parse_fence :: "string option \<Rightarrow> i64 option" where
  "parse_fence v = Option.bind v parse_i64"

definition conflict :: "string \<Rightarrow> string \<Rightarrow> reason \<Rightarrow> acquire_outcome" where
  "conflict path owner reason = Conflict path owner reason"

definition lost :: "string \<Rightarrow> reason \<Rightarrow> acquire_outcome" where
  "lost path reason = Lost path reason"

definition renew_lost :: "string \<Rightarrow> reason \<Rightarrow> renew_outcome" where
  "renew_lost path reason = RenewLost path reason"

section \<open>Shared helpers\<close>

definition owner_alive :: "'t store_txn \<Rightarrow> string \<Rightarrow> ('t, bool) txm" where
  "owner_alive T owner =
     bnd (get_str T CF_OWNER_ALIVE (alive_key owner)) (\<lambda>v. ret (v \<noteq> None))"

definition get_namespace_policy_record_inner ::
    "'t store_txn \<Rightarrow> string \<Rightarrow> lock_algorithm \<Rightarrow> ('t, lock_policy \<times> bool) txm" where
  "get_namespace_policy_record_inner T namespace fallback =
     bnd (get_str T CF_NAMESPACE_SETTINGS (namespace_policy_key namespace)) (\<lambda>v.
     case v of
       None \<Rightarrow> ret (lock_policy_from_algorithm fallback, False)
     | Some raw \<Rightarrow> bnd (lift_res (parse_namespace_policy_value raw)) (\<lambda>policy. ret (policy, True)))"

definition get_namespace_policy_inner ::
    "'t store_txn \<Rightarrow> string \<Rightarrow> lock_algorithm \<Rightarrow> ('t, lock_algorithm \<times> bool) txm" where
  "get_namespace_policy_inner T namespace fallback =
     bnd (get_namespace_policy_record_inner T namespace fallback) (\<lambda>(policy, explicit).
     ret (lp_algorithm policy, explicit))"

definition set_namespace_policy_inner :: "'t store_txn \<Rightarrow> string \<Rightarrow> lock_algorithm \<Rightarrow> ('t, u64) txm" where
  "set_namespace_policy_inner T namespace algorithm =
     bnd (get_namespace_policy_record_inner T namespace default_lock_algorithm) (\<lambda>(current, explicit).
     let policy = lock_policy_new algorithm (lp_epoch current);
         next_epoch = (if explicit \<and> lp_algorithm current = lp_algorithm policy then lp_epoch current
                       else sat_add (lp_epoch current) 1);
         next_policy = lock_policy_new algorithm next_epoch in
     bnd (set_str T CF_NAMESPACE_SETTINGS (namespace_policy_key namespace)
           (u64_str next_epoch @ '':'' @ algorithm_str (lp_algorithm next_policy)) 0) (\<lambda>_.
     ret next_epoch))"

definition delete_namespace_policy_inner :: "'t store_txn \<Rightarrow> string \<Rightarrow> ('t, unit) txm" where
  "delete_namespace_policy_inner T namespace = del T CF_NAMESPACE_SETTINGS (namespace_policy_key namespace)"

definition hold_algorithm :: "'t store_txn \<Rightarrow> string \<Rightarrow> mode \<Rightarrow> string \<Rightarrow> ('t, lock_algorithm) txm" where
  "hold_algorithm T owner m path =
     bnd (get_str T CF_META (hold_algorithm_key owner (mode_str m) path)) (\<lambda>v.
     case v of
       None \<Rightarrow> ret default_lock_algorithm
     | Some raw \<Rightarrow> lift_res (algorithm_from_str raw))"

definition set_hold_algorithm ::
    "'t store_txn \<Rightarrow> string \<Rightarrow> mode \<Rightarrow> string \<Rightarrow> lock_algorithm \<Rightarrow> u64 \<Rightarrow> ('t, unit) txm" where
  "set_hold_algorithm T owner m path algorithm ttl_ms =
     set_str T CF_META (hold_algorithm_key owner (mode_str m) path) (algorithm_str algorithm) ttl_ms"

definition del_hold_algorithm :: "'t store_txn \<Rightarrow> string \<Rightarrow> mode \<Rightarrow> string \<Rightarrow> ('t, unit) txm" where
  "del_hold_algorithm T owner m path = del T CF_META (hold_algorithm_key owner (mode_str m) path)"

definition semaphore_capacity :: "'t store_txn \<Rightarrow> string \<Rightarrow> ('t, u32 option) txm" where
  "semaphore_capacity T path =
     bnd (get_str T CF_META (semaphore_permits_key path)) (\<lambda>v.
     case v of
       None \<Rightarrow> ret None
     | Some raw \<Rightarrow> (case parse_u32 raw of None \<Rightarrow> fail (ParseError raw) | Some n \<Rightarrow> ret (Some n)))"

definition set_semaphore_capacity :: "'t store_txn \<Rightarrow> string \<Rightarrow> u32 \<Rightarrow> ('t, unit) txm" where
  "set_semaphore_capacity T path permits =
     set_str T CF_META (semaphore_permits_key path) (nat_str (unat permits)) 0"

definition prune_dead_read_owners :: "'t store_txn \<Rightarrow> string \<Rightarrow> ('t, string list) txm" where
  "prune_dead_read_owners T path =
     bnd (smembers_limited T CF_READ_LOCKS (rd_prefix path) MAX_SET_ENUM_MEMBERS) (\<lambda>owners.
     filter_each (\<lambda>o'.
       bnd (owner_alive T o') (\<lambda>alive.
       if alive then ret True
       else
         bnd (srem T CF_READ_LOCKS (rd_prefix path) o') (\<lambda>_.
         bnd (del_hold_algorithm T o' Read path) (\<lambda>_.
         ret False)))) owners)"

definition prune_dead_semaphore_owners :: "'t store_txn \<Rightarrow> string \<Rightarrow> ('t, string list) txm" where
  "prune_dead_semaphore_owners T path =
     bnd (smembers_limited T CF_SEMAPHORE (sem_prefix path) MAX_SET_ENUM_MEMBERS) (\<lambda>owners.
     filter_each (\<lambda>o'.
       bnd (owner_alive T o') (\<lambda>alive.
       if alive then ret True
       else
         bnd (srem T CF_SEMAPHORE (sem_prefix path) o') (\<lambda>_.
         bnd (del_hold_algorithm T o' Write path) (\<lambda>_.
         ret False)))) owners)"

definition add_descendant_indexes :: "'t store_txn \<Rightarrow> mode \<Rightarrow> string \<Rightarrow> u64 \<Rightarrow> ('t, unit) txm" where
  "add_descendant_indexes T m path ttl_ms =
     for_each (\<lambda>anc.
       if m = Write then sadd T CF_DESC_WRITE (wrdesc_key anc) path ttl_ms
       else sadd T CF_DESC_READ (rddesc_prefix anc) path ttl_ms) (get_ancestors path)"

definition remove_descendant_indexes :: "'t store_txn \<Rightarrow> mode \<Rightarrow> string \<Rightarrow> ('t, unit) txm" where
  "remove_descendant_indexes T m path =
     for_each (\<lambda>anc.
       if m = Write then srem T CF_DESC_WRITE (wrdesc_key anc) path
       else srem T CF_DESC_READ (rddesc_prefix anc) path) (get_ancestors path)"

definition get_live_write_owner :: "'t store_txn \<Rightarrow> string \<Rightarrow> ('t, string option) txm" where
  "get_live_write_owner T path =
     bnd (get_str T CF_WRITE_LOCKS (wr_key path)) (\<lambda>v.
     case v of
       None \<Rightarrow> ret None
     | Some owner \<Rightarrow>
         bnd (owner_alive T owner) (\<lambda>alive.
         if alive then ret (Some owner)
         else
           bnd (del T CF_WRITE_LOCKS (wr_key path)) (\<lambda>_.
           bnd (del_hold_algorithm T owner Write path) (\<lambda>_.
           bnd (remove_descendant_indexes T Write path) (\<lambda>_.
           ret None)))))"

definition find_descendant_write_conflict ::
    "'t store_txn \<Rightarrow> string \<Rightarrow> string \<Rightarrow> string \<Rightarrow> ('t, (string \<times> string \<times> reason) option) txm" where
  "find_descendant_write_conflict T owner_id path namespace =
     (let idx = wrdesc_key path in
      bnd (smembers_limited T CF_DESC_WRITE idx MAX_SET_ENUM_MEMBERS) (\<lambda>candidates.
      first_some (\<lambda>candidate.
        bnd (get_live_write_owner T candidate) (\<lambda>v.
        case v of
          None \<Rightarrow>
            bnd (srem T CF_DESC_WRITE idx candidate) (\<lambda>_.
            bnd (remove_descendant_indexes T Write candidate) (\<lambda>_.
            ret None))
        | Some owner \<Rightarrow>
            ret (if owner \<noteq> owner_id
                 then Some (public_path namespace candidate, owner, DescendantWriteLocked)
                 else None))) candidates))"

text \<open>The loop of \<open>find_descendant_read_conflict\<close>, with the set of candidates already seen.\<close>

fun descendant_read_loop ::
    "'t store_txn \<Rightarrow> string \<Rightarrow> bytes \<Rightarrow> string \<Rightarrow> string set \<Rightarrow> string list \<Rightarrow>
     ('t, (string \<times> string \<times> reason) option) txm" where
  "descendant_read_loop T owner_id idx_pfx namespace seen [] = ret None"
| "descendant_read_loop T owner_id idx_pfx namespace seen (candidate # candidates) =
     (if candidate \<in> seen then descendant_read_loop T owner_id idx_pfx namespace seen candidates
      else
        bnd (prune_dead_read_owners T candidate) (\<lambda>owners.
        if owners = [] then
          bnd (srem T CF_DESC_READ idx_pfx candidate) (\<lambda>_.
          bnd (remove_descendant_indexes T Read candidate) (\<lambda>_.
          descendant_read_loop T owner_id idx_pfx namespace (insert candidate seen) candidates))
        else
          (case find (\<lambda>owner. owner \<noteq> owner_id) owners of
             Some owner \<Rightarrow> ret (Some (public_path namespace candidate, owner, DescendantReadLocked))
           | None \<Rightarrow> descendant_read_loop T owner_id idx_pfx namespace (insert candidate seen) candidates)))"

definition find_descendant_read_conflict ::
    "'t store_txn \<Rightarrow> string \<Rightarrow> string \<Rightarrow> string \<Rightarrow> ('t, (string \<times> string \<times> reason) option) txm" where
  "find_descendant_read_conflict T owner_id path namespace =
     (let idx_pfx = rddesc_prefix path in
      bnd (smembers_limited T CF_DESC_READ idx_pfx MAX_SET_ENUM_MEMBERS) (\<lambda>candidates.
      descendant_read_loop T owner_id idx_pfx namespace {} candidates))"

section \<open>Release\<close>

definition apply_release :: "'t store_txn \<Rightarrow> string \<Rightarrow> string \<Rightarrow> rel_req \<Rightarrow> bytes \<Rightarrow> ('t, unit) txm" where
  "apply_release T owner namespace req own_pfx =
     (let path = rr_path req;
          key_path = scoped_path namespace path;
          member = hold_member namespace (rr_mode req) path in
      bnd (srem T CF_OWNER_HOLDS own_pfx member) (\<lambda>_.
      bnd (if rr_mode req = Write
           then bnd (hold_algorithm T owner Write key_path) (\<lambda>a. ret (is_semaphore a))
           else ret False) (\<lambda>sem.
      if sem then
        bnd (srem T CF_SEMAPHORE (sem_prefix key_path) owner) (\<lambda>_.
        del_hold_algorithm T owner Write key_path)
      else if rr_mode req = Write then
        bnd (get_str T CF_WRITE_LOCKS (wr_key key_path)) (\<lambda>v.
        if v = Some owner then
          bnd (del T CF_WRITE_LOCKS (wr_key key_path)) (\<lambda>_.
          bnd (del_hold_algorithm T owner Write key_path) (\<lambda>_.
          remove_descendant_indexes T Write key_path))
        else ret ())
      else
        bnd (srem T CF_READ_LOCKS (rd_prefix key_path) owner) (\<lambda>_.
        bnd (del_hold_algorithm T owner Read key_path) (\<lambda>_.
        bnd (has_live_member T CF_READ_LOCKS (rd_prefix key_path)) (\<lambda>live.
        if \<not> live then remove_descendant_indexes T Read key_path else ret ()))))))"

definition apply_releases ::
    "'t store_txn \<Rightarrow> string \<Rightarrow> string \<Rightarrow> rel_req list \<Rightarrow> bytes \<Rightarrow> bytes \<Rightarrow> ('t, unit) txm" where
  "apply_releases T owner namespace release_requests own_pfx alive_k =
     bnd (for_each (\<lambda>req. apply_release T owner namespace req own_pfx) release_requests) (\<lambda>_.
     bnd (has_live_member T CF_OWNER_HOLDS own_pfx) (\<lambda>live.
     if \<not> live then
       bnd (del T CF_OWNER_ALIVE alive_k) (\<lambda>_.
       del T CF_OWNER_ALIVE (revoke_key owner))
     else ret ()))"

text \<open>The loop body of \<open>release_inner_in_namespace\<close> is, line for line, \<open>apply_release\<close>.\<close>

definition release_inner_in_namespace ::
    "'t store_txn \<Rightarrow> string \<Rightarrow> string \<Rightarrow> rel_req list \<Rightarrow> bool \<Rightarrow> ('t, unit) txm" where
  "release_inner_in_namespace T namespace owner reqs del_wait_key =
     (let own_pfx = own_prefix owner; alive_k = alive_key owner in
      bnd (for_each (\<lambda>req. apply_release T owner namespace req own_pfx) reqs) (\<lambda>_.
      bnd (has_live_member T CF_OWNER_HOLDS own_pfx) (\<lambda>live.
      bnd (if \<not> live then
             bnd (del T CF_OWNER_ALIVE alive_k) (\<lambda>_.
             del T CF_OWNER_ALIVE (revoke_key owner))
           else ret ()) (\<lambda>_.
      if del_wait_key then del T CF_WAIT_EDGES (wait_key owner) else ret ()))))"

definition release_inner :: "'t store_txn \<Rightarrow> string \<Rightarrow> rel_req list \<Rightarrow> bool \<Rightarrow> ('t, unit) txm" where
  "release_inner T owner reqs del_wait_key =
     (let namespace = (case reqs of r # _ \<Rightarrow> handler_of (rr_path r) | [] \<Rightarrow> []) in
      release_inner_in_namespace T namespace owner reqs del_wait_key)"

definition release_held_member :: "'t store_txn \<Rightarrow> string \<Rightarrow> string \<Rightarrow> ('t, unit) txm" where
  "release_held_member T owner item =
     (case parse_member item of
        None \<Rightarrow> ret ()
      | Some held \<Rightarrow>
          let key_path = held_key_path held in
          (case hl_mode held of
             Write \<Rightarrow>
               bnd (hold_algorithm T owner Write key_path) (\<lambda>a.
               if is_semaphore a then
                 bnd (srem T CF_SEMAPHORE (sem_prefix key_path) owner) (\<lambda>_.
                 del_hold_algorithm T owner Write key_path)
               else
                 bnd (get_str T CF_WRITE_LOCKS (wr_key key_path)) (\<lambda>v.
                 if v = Some owner then
                   bnd (del T CF_WRITE_LOCKS (wr_key key_path)) (\<lambda>_.
                   bnd (del_hold_algorithm T owner Write key_path) (\<lambda>_.
                   remove_descendant_indexes T Write key_path))
                 else ret ()))
           | Read \<Rightarrow>
               bnd (srem T CF_READ_LOCKS (rd_prefix key_path) owner) (\<lambda>_.
               bnd (del_hold_algorithm T owner Read key_path) (\<lambda>_.
               bnd (has_live_member T CF_READ_LOCKS (rd_prefix key_path)) (\<lambda>live.
               if \<not> live then remove_descendant_indexes T Read key_path else ret ())))))"

text \<open>One iteration of the paging loop; the cursor of the next one, if any.\<close>

definition release_page :: "'t store_txn \<Rightarrow> string \<Rightarrow> bytes option \<Rightarrow> ('t, bytes option option) txm" where
  "release_page T owner cursor =
     (let own_pfx = own_prefix owner in
      bnd (smembers_page T CF_OWNER_HOLDS own_pfx cursor RELEASE_PAGE) (\<lambda>(members, next).
      bnd (for_each (\<lambda>item.
             bnd (release_held_member T owner item) (\<lambda>_.
             srem T CF_OWNER_HOLDS own_pfx item)) members) (\<lambda>_.
      ret (case next of None \<Rightarrow> None | Some c \<Rightarrow> Some (Some c)))))"

definition release_owner_wide :: "'t store_txn \<Rightarrow> string \<Rightarrow> bool \<Rightarrow> ('t, unit) txm" where
  "release_owner_wide T owner del_wait_key =
     bnd (loop_while (release_page T owner) None) (\<lambda>_.
     bnd (del T CF_OWNER_ALIVE (alive_key owner)) (\<lambda>_.
     bnd (del T CF_OWNER_ALIVE (revoke_key owner)) (\<lambda>_.
     if del_wait_key then del T CF_WAIT_EDGES (wait_key owner) else ret ())))"

definition release_all_inner :: "'t store_txn \<Rightarrow> string \<Rightarrow> bool \<Rightarrow> ('t, unit) txm" where
  "release_all_inner T owner del_wait_key = release_owner_wide T owner del_wait_key"

definition force_release_inner :: "'t store_txn \<Rightarrow> string \<Rightarrow> ('t, unit) txm" where
  "force_release_inner T victim = release_owner_wide T victim True"

section \<open>Acquire: validation\<close>

definition validate_held ::
    "'t store_txn \<Rightarrow> string \<Rightarrow> i64 \<Rightarrow> lock_req \<Rightarrow> string \<Rightarrow> ('t, acquire_outcome option) txm" where
  "validate_held T owner token req namespace =
     (let path = lr_path req; key_path = scoped_path namespace path in
      bnd (hold_algorithm T owner (lr_mode req) key_path) (\<lambda>held_algorithm.
      if is_semaphore held_algorithm then
        bnd (sismember T CF_SEMAPHORE (sem_prefix key_path) owner) (\<lambda>b.
        ret (if \<not> b then Some (lost path MissingSemaphore) else None))
      else if lr_mode req = Write then
        bnd (get_str T CF_WRITE_LOCKS (wr_key key_path)) (\<lambda>v.
        if v \<noteq> Some owner then ret (Some (lost path MissingWrite))
        else
          bnd (get_str T CF_FENCES (fence_key key_path)) (\<lambda>f.
          case parse_fence f of
            None \<Rightarrow> ret (Some (lost path MissingFence))
          | Some cur \<Rightarrow>
              if cur > token then ret (Some (conflict path (int_str cur) StaleFencingToken))
              else ret None))
      else
        bnd (sismember T CF_READ_LOCKS (rd_prefix key_path) owner) (\<lambda>b.
        ret (if \<not> b then Some (lost path MissingRead) else None))))"

definition validate_new_ancestors ::
    "'t store_txn \<Rightarrow> string \<Rightarrow> string \<Rightarrow> string \<Rightarrow> ('t, acquire_outcome option) txm" where
  "validate_new_ancestors T owner namespace key_path =
     first_some (\<lambda>anc.
       bnd (get_live_write_owner T anc) (\<lambda>v.
       case v of
         None \<Rightarrow> ret None
       | Some anc_owner \<Rightarrow>
           if anc_owner \<noteq> owner then
             bnd (hold_algorithm T anc_owner Write anc) (\<lambda>a.
             ret (if recursive a
                  then Some (conflict (public_path namespace anc) anc_owner AncestorLocked)
                  else None))
           else ret None)) (get_ancestors key_path)"

definition validate_new_write ::
    "'t store_txn \<Rightarrow> string \<Rightarrow> i64 \<Rightarrow> string \<Rightarrow> string \<Rightarrow> string \<Rightarrow> lock_algorithm \<Rightarrow> bool \<Rightarrow>
     ('t, acquire_outcome option) txm" where
  "validate_new_write T owner token path namespace key_path algorithm same_owner_write =
     bnd (prune_dead_read_owners T key_path) (\<lambda>rd_owners.
     bnd (if rd_owners = [] then remove_descendant_indexes T Read key_path else ret ()) (\<lambda>_.
     case find (\<lambda>o'. o' \<noteq> owner) rd_owners of
       Some o' \<Rightarrow> ret (Some (conflict path o' ReadLocked))
     | None \<Rightarrow>
         bnd (if recursive algorithm then
                bnd (find_descendant_write_conflict T owner key_path namespace) (\<lambda>w.
                case w of
                  Some (path, owner, reason) \<Rightarrow> ret (Some (Conflict path owner reason))
                | None \<Rightarrow>
                    bnd (find_descendant_read_conflict T owner key_path namespace) (\<lambda>r.
                    case r of
                      Some (path, owner, reason) \<Rightarrow> ret (Some (Conflict path owner reason))
                    | None \<Rightarrow> ret None))
              else ret None) (\<lambda>below.
         case below of
           Some outcome \<Rightarrow> ret (Some outcome)
         | None \<Rightarrow>
             bnd (get_str T CF_FENCES (fence_key key_path)) (\<lambda>f.
             case parse_fence f of
               Some cur \<Rightarrow>
                 if cur > token \<or> (cur = token \<and> \<not> same_owner_write)
                 then ret (Some (conflict path (int_str cur) StaleFencingToken))
                 else ret None
             | None \<Rightarrow> ret None))))"

definition validate_new_semaphore ::
    "'t store_txn \<Rightarrow> string \<Rightarrow> lock_req \<Rightarrow> string \<Rightarrow> ('t, acquire_outcome option) txm" where
  "validate_new_semaphore T owner req key_path =
     (let path = lr_path req in
      if lr_permits req = 0 then ret (Some (conflict path [] InvalidPermits))
      else
        bnd (semaphore_capacity T key_path) (\<lambda>cap.
        if cap \<noteq> None \<and> the cap \<noteq> lr_permits req then
          ret (Some (conflict path (nat_str (unat (the cap))) InvalidPermits))
        else
          bnd (sismember T CF_SEMAPHORE (sem_prefix key_path) owner) (\<lambda>b.
          if \<not> b then
            bnd (prune_dead_semaphore_owners T key_path) (\<lambda>holders.
            if word_of_nat (length holders) \<ge> lr_permits req then
              let blocker = (case holders of [] \<Rightarrow> [] | h # _ \<Rightarrow> h) in
              ret (Some (conflict path blocker SemaphoreFull))
            else ret None)
          else ret None)))"

definition validate_new ::
    "'t store_txn \<Rightarrow> string \<Rightarrow> i64 \<Rightarrow> lock_req \<Rightarrow> string \<Rightarrow> lock_policy \<Rightarrow> ('t, acquire_outcome option) txm" where
  "validate_new T owner token req namespace policy =
     (let path = lr_path req; key_path = scoped_path namespace path; algorithm = lp_algorithm policy in
      if \<not> allows_mode algorithm (lr_mode req) then ret (Some (conflict path [] ReadLocksDisabled))
      else
        bnd (validate_new_ancestors T owner namespace key_path) (\<lambda>above.
        case above of
          Some outcome \<Rightarrow> ret (Some outcome)
        | None \<Rightarrow>
            if is_semaphore algorithm then validate_new_semaphore T owner req key_path
            else
              bnd (get_live_write_owner T key_path) (\<lambda>v.
              case v of
                Some wr_owner \<Rightarrow>
                  if wr_owner \<noteq> owner then ret (Some (conflict path wr_owner WriteLocked))
                  else if lr_mode req = Write
                  then validate_new_write T owner token path namespace key_path algorithm True
                  else ret None
              | None \<Rightarrow>
                  if lr_mode req = Write
                  then validate_new_write T owner token path namespace key_path algorithm False
                  else ret None)))"

definition validate_acquire ::
    "'t store_txn \<Rightarrow> string \<Rightarrow> i64 \<Rightarrow> lock_req list \<Rightarrow> string \<Rightarrow> lock_policy \<Rightarrow> ('t, acquire_outcome option) txm" where
  "validate_acquire T owner token requests namespace policy =
     first_some (\<lambda>req.
       case lr_state req of
         Held \<Rightarrow> validate_held T owner token req namespace
       | New \<Rightarrow> validate_new T owner token req namespace policy) requests"

section \<open>Acquire: application\<close>

definition refresh_portfolio :: "'t store_txn \<Rightarrow> bytes \<Rightarrow> u64 \<Rightarrow> ('t, unit) txm" where
  "refresh_portfolio T alive_k ttl_ms = set_str T CF_OWNER_ALIVE alive_k ''1'' ttl_ms"

record acquire_apply_ctx =
  ac_owner :: string
  ac_namespace :: string
  ac_request_algorithm :: lock_algorithm
  ac_token :: i64
  ac_own_pfx :: bytes

definition apply_write_acquire ::
    "'t store_txn \<Rightarrow> string \<Rightarrow> string \<Rightarrow> lock_state \<Rightarrow> string \<Rightarrow> i64 \<Rightarrow> ('t, acquire_outcome option) txm" where
  "apply_write_acquire T owner path state key_path token =
     (let wr_k = wr_key key_path;
          fence_k = fence_key key_path;
          take_it =
            bnd (set_str T CF_WRITE_LOCKS wr_k owner 0) (\<lambda>_.
            bnd (set_str T CF_FENCES fence_k (int_str token) 0) (\<lambda>_.
            bnd (add_descendant_indexes T Write key_path 0) (\<lambda>_.
            ret None))) in
      case state of
        Held \<Rightarrow> take_it
      | New \<Rightarrow>
          bnd (get_str T CF_WRITE_LOCKS wr_k) (\<lambda>v.
          case v of
            None \<Rightarrow> take_it
          | Some current \<Rightarrow>
              if current = owner then take_it else ret (Some (conflict path current WriteLocked))))"

definition apply_acquire ::
    "'t store_txn \<Rightarrow> lock_req \<Rightarrow> acquire_apply_ctx \<Rightarrow> ('t, acquire_outcome option) txm" where
  "apply_acquire T req ctx =
     (let path = lr_path req;
          key_path = scoped_path (ac_namespace ctx) path;
          member = hold_member (ac_namespace ctx) (lr_mode req) path in
      bnd (if lr_state req = Held then hold_algorithm T (ac_owner ctx) (lr_mode req) key_path
           else ret (ac_request_algorithm ctx)) (\<lambda>held_algorithm.
      bnd (if is_semaphore held_algorithm then
             (if lr_state req = New then
                bnd (semaphore_capacity T key_path) (\<lambda>cap.
                case cap of
                  Some capacity \<Rightarrow>
                    ret (if capacity \<noteq> lr_permits req
                         then Some (conflict path (nat_str (unat capacity)) InvalidPermits) else None)
                | None \<Rightarrow>
                    bnd (set_semaphore_capacity T key_path (lr_permits req)) (\<lambda>_. ret None))
              else ret None)
           else if lr_mode req = Write then
             apply_write_acquire T (ac_owner ctx) path (lr_state req) key_path (ac_token ctx)
           else
             bnd (sadd T CF_READ_LOCKS (rd_prefix key_path) (ac_owner ctx) 0) (\<lambda>_.
             bnd (add_descendant_indexes T Read key_path 0) (\<lambda>_.
             ret None))) (\<lambda>outcome.
      case outcome of
        Some out \<Rightarrow> ret (Some out)
      | None \<Rightarrow>
          bnd (if is_semaphore held_algorithm
               then sadd T CF_SEMAPHORE (sem_prefix key_path) (ac_owner ctx) 0 else ret ()) (\<lambda>_.
          bnd (sadd T CF_OWNER_HOLDS (ac_own_pfx ctx) member 0) (\<lambda>_.
          bnd (set_hold_algorithm T (ac_owner ctx) (lr_mode req) key_path held_algorithm 0) (\<lambda>_.
          ret None))))))"

definition acquire_inner_in_namespace ::
    "'t store_txn \<Rightarrow> acquire_args \<Rightarrow> lock_policy \<Rightarrow> string \<Rightarrow> ('t, acquire_outcome) txm" where
  "acquire_inner_in_namespace T args policy namespace =
     (let owner = aa_owner_id args;
          token = aa_fencing_token args;
          alive_k = alive_key owner;
          own_pfx = own_prefix owner in
      if aa_requests args = [] \<and> aa_release_requests args = [] then ret (AcqOk 0)
      else
        let has_held = list_ex (\<lambda>r. lr_state r = Held) (aa_requests args) in
        bnd (get_str T CF_OWNER_ALIVE alive_k) (\<lambda>v.
        let alive = (v \<noteq> None) in
        if has_held \<and> \<not> alive then ret (Lost [] MissingAlive)
        else
          bnd (if \<not> has_held \<and> \<not> alive \<and> aa_requests args \<noteq> [] then release_owner_wide T owner False
               else ret ()) (\<lambda>_.
          bnd (validate_acquire T owner token (aa_requests args) namespace policy) (\<lambda>invalid.
          case invalid of
            Some outcome \<Rightarrow> ret outcome
          | None \<Rightarrow>
              let apply_ctx =
                \<lparr> ac_owner = owner, ac_namespace = namespace, ac_request_algorithm = lp_algorithm policy,
                  ac_token = token, ac_own_pfx = own_pfx \<rparr> in
              bnd (first_some (\<lambda>req. apply_acquire T req apply_ctx) (aa_requests args)) (\<lambda>refused.
              case refused of
                Some outcome \<Rightarrow> ret outcome
              | None \<Rightarrow>
                  bnd (refresh_portfolio T alive_k (aa_ttl_ms args)) (\<lambda>_.
                  bnd (if aa_release_requests args \<noteq> []
                       then apply_releases T owner namespace (aa_release_requests args) own_pfx alive_k
                       else ret ()) (\<lambda>_.
                  ret (AcqOk (if token > 0 then token else 0)))))))))"

definition acquire_inner_with_policy ::
    "'t store_txn \<Rightarrow> acquire_args \<Rightarrow> lock_algorithm \<Rightarrow> ('t, acquire_outcome) txm" where
  "acquire_inner_with_policy T args request_algorithm =
     (let handlers = map (\<lambda>r. handler_of (lr_path r)) (aa_requests args)
                       @ map (\<lambda>r. handler_of (rr_path r)) (aa_release_requests args);
          namespace = (case handlers of h # _ \<Rightarrow> h | [] \<Rightarrow> []) in
      acquire_inner_in_namespace T args (lock_policy_from_algorithm request_algorithm) namespace)"

definition acquire_inner :: "'t store_txn \<Rightarrow> acquire_args \<Rightarrow> ('t, acquire_outcome) txm" where
  "acquire_inner T args = acquire_inner_with_policy T args default_lock_algorithm"

section \<open>Renew, revoke, fencing\<close>

definition renew_inner :: "'t store_txn \<Rightarrow> string \<Rightarrow> u64 \<Rightarrow> ('t, renew_outcome) txm" where
  "renew_inner T owner ttl_ms =
     (let alive_k = alive_key owner; own_pfx = own_prefix owner in
      bnd (get_str T CF_OWNER_ALIVE alive_k) (\<lambda>v.
      if v = None then ret (renew_lost [] MissingAlive)
      else
        bnd (has_live_member T CF_OWNER_HOLDS own_pfx) (\<lambda>live.
        if \<not> live then ret (renew_lost [] MissingOwnerSet)
        else
          bnd (pexpire_str T CF_OWNER_ALIVE alive_k ttl_ms) (\<lambda>_.
          bnd (get_str T CF_OWNER_ALIVE (revoke_key owner)) (\<lambda>r.
          ret (RenewOk (r \<noteq> None)))))))"

definition request_revoke_inner :: "'t store_txn \<Rightarrow> string \<Rightarrow> u64 \<Rightarrow> ('t, unit) txm" where
  "request_revoke_inner T owner ttl_ms =
     bnd (get_str T CF_OWNER_ALIVE (alive_key owner)) (\<lambda>v.
     if v = None then ret () else set_str T CF_OWNER_ALIVE (revoke_key owner) ''1'' ttl_ms)"

definition assert_fencing_inner ::
    "'t store_txn \<Rightarrow> string \<Rightarrow> string \<Rightarrow> i64 \<Rightarrow> string list \<Rightarrow> ('t, assert_outcome) txm" where
  "assert_fencing_inner T namespace owner fencing_token paths =
     bnd (if paths \<noteq> [] then bnd (owner_alive T owner) (\<lambda>a. ret (\<not> a)) else ret False) (\<lambda>dead.
     if dead then ret (AssertFail (hd paths) StaleOwner)
     else
       let token_str = int_str fencing_token in
       bnd (first_some (\<lambda>path.
         let key_path = scoped_path namespace path in
         bnd (get_str T CF_WRITE_LOCKS (wr_key key_path)) (\<lambda>w.
         if w \<noteq> Some owner then ret (Some (AssertFail path StaleOwner))
         else
           bnd (get_str T CF_FENCES (fence_key key_path)) (\<lambda>f.
           if f \<noteq> Some token_str then ret (Some (AssertFail path StaleFencingToken))
           else ret None))) paths) (\<lambda>failed.
       ret (case failed of Some out \<Rightarrow> out | None \<Rightarrow> AssertOk)))"

section \<open>Wait edges and blocking\<close>

definition read_wait_edge :: "'t store_txn \<Rightarrow> string \<Rightarrow> ('t, wait_edge option) txm" where
  "read_wait_edge T owner =
     bnd (get_str T CF_WAIT_EDGES (wait_key owner)) (\<lambda>v.
     case v of
       None \<Rightarrow> ret None
     | Some raw \<Rightarrow> bnd (lift_res (parse_wait_edge raw)) (\<lambda>e. ret (Some e)))"

definition is_blocking_inner ::
    "'t store_txn \<Rightarrow> string \<Rightarrow> string \<Rightarrow> string \<Rightarrow> reason \<Rightarrow> ('t, bool) txm" where
  "is_blocking_inner T namespace conflict_path conflict_owner reason =
     (let key_path = scoped_path namespace conflict_path;
          is_read = (reason = ReadLocked \<or> reason = DescendantReadLocked) in
      if is_read then
        bnd (sismember T CF_READ_LOCKS (rd_prefix key_path) conflict_owner) (\<lambda>b.
        if \<not> b then ret False
        else
          bnd (get_str T CF_OWNER_ALIVE (alive_key conflict_owner)) (\<lambda>v.
          if v \<noteq> None then ret True
          else
            bnd (srem T CF_READ_LOCKS (rd_prefix key_path) conflict_owner) (\<lambda>_.
            bnd (del_hold_algorithm T conflict_owner Read key_path) (\<lambda>_.
            bnd (has_live_member T CF_READ_LOCKS (rd_prefix key_path)) (\<lambda>live.
            bnd (if \<not> live then remove_descendant_indexes T Read key_path else ret ()) (\<lambda>_.
            ret False))))))
      else if reason = SemaphoreFull then
        bnd (sismember T CF_SEMAPHORE (sem_prefix key_path) conflict_owner) (\<lambda>b.
        if \<not> b then ret False
        else
          bnd (get_str T CF_OWNER_ALIVE (alive_key conflict_owner)) (\<lambda>v.
          if v \<noteq> None then ret True
          else
            bnd (srem T CF_SEMAPHORE (sem_prefix key_path) conflict_owner) (\<lambda>_.
            bnd (del_hold_algorithm T conflict_owner Write key_path) (\<lambda>_.
            ret False))))
      else
        bnd (get_live_write_owner T key_path) (\<lambda>v. ret (v = Some conflict_owner)))"

definition set_wait_edge_inner ::
    "'t store_txn \<Rightarrow> string \<Rightarrow> string \<Rightarrow> u64 \<Rightarrow> wait_edge_metadata option \<Rightarrow> ('t, unit) txm" where
  "set_wait_edge_inner T owner conflict_owner ttl_ms metadata =
     set_str T CF_WAIT_EDGES (wait_key owner) (encode_wait_edge conflict_owner metadata) ttl_ms"

definition clear_wait_edge_inner :: "'t store_txn \<Rightarrow> string \<Rightarrow> ('t, unit) txm" where
  "clear_wait_edge_inner T owner = del T CF_WAIT_EDGES (wait_key owner)"

definition is_owner_alive_inner :: "'t store_txn \<Rightarrow> string \<Rightarrow> ('t, bool) txm" where
  "is_owner_alive_inner T owner =
     bnd (get_str T CF_OWNER_ALIVE (alive_key owner)) (\<lambda>v. ret (v \<noteq> None))"

section \<open>Inspection\<close>

record path_info =
  pi_write_owner :: "string option"
  pi_read_owners :: "string list"
  pi_fence :: "i64 option"
  pi_claim_owner :: "string option"
  pi_semaphore_owners :: "string list"

record owned_lock =
  ol_path :: string
  ol_mode :: mode

record lock_entry =
  le_owner :: string
  le_path :: string
  le_mode :: mode
  le_fence :: "i64 option"

record lock_dump_page =
  ld_entries :: "lock_entry list"
  ld_next_cursor :: "bytes option"

definition inspect_path_inner :: "'t store_txn \<Rightarrow> string \<Rightarrow> string \<Rightarrow> ('t, path_info) txm" where
  "inspect_path_inner T namespace path =
     (let key_path = scoped_path namespace path in
      bnd (get_str T CF_WRITE_LOCKS (wr_key key_path)) (\<lambda>w.
      bnd (case w of
             Some owner \<Rightarrow> bnd (owner_alive T owner) (\<lambda>a. ret (if a then Some owner else None))
           | None \<Rightarrow> ret None) (\<lambda>write_owner.
      bnd (smembers_limited T CF_READ_LOCKS (rd_prefix key_path) MAX_SET_ENUM_MEMBERS) (\<lambda>readers.
      bnd (filter_each (owner_alive T) readers) (\<lambda>read_owners.
      bnd (get_str T CF_FENCES (fence_key key_path)) (\<lambda>f.
      bnd (smembers_limited T CF_SEMAPHORE (sem_prefix key_path) MAX_SET_ENUM_MEMBERS) (\<lambda>holders.
      bnd (filter_each (owner_alive T) holders) (\<lambda>semaphore_owners.
      ret \<lparr> pi_write_owner = write_owner, pi_read_owners = read_owners, pi_fence = parse_fence f,
            pi_claim_owner = None, pi_semaphore_owners = semaphore_owners \<rparr>))))))))"

definition list_owner_locks_inner :: "'t store_txn \<Rightarrow> string \<Rightarrow> ('t, bool \<times> owned_lock list) txm" where
  "list_owner_locks_inner T owner =
     bnd (get_str T CF_OWNER_ALIVE (alive_key owner)) (\<lambda>v.
     if v = None then ret (False, [])
     else
       bnd (smembers_limited T CF_OWNER_HOLDS (own_prefix owner) MAX_SET_ENUM_MEMBERS) (\<lambda>members.
       ret (True,
         map (\<lambda>held. \<lparr> ol_path = hl_path held, ol_mode = hl_mode held \<rparr>)
           (List.map_filter parse_member members))))"

end
