(* ===== verification/Store_View.thy ===== *)
theory Store_View
  imports Store_Txn
begin

text \<open>
  What a transaction promises. The contract of the database (\<open>rocksdb_ok\<close>) and of the record
  encoding (\<open>codec_ok\<close>) are stated here; from them, the overlay, the read cache and the group
  prefix of \<open>WriteTxn\<close> are hidden behind one view, the ordered map of the group's own keys
  (\<open>txn_view\<close>), and every operation is shown to act on that view as on a plain map.
\<close>

section \<open>Scans of ordered lists\<close>

fun scan_list :: "'s visitor \<Rightarrow> (bytes \<times> bytes) list \<Rightarrow> 's \<Rightarrow> error + 's" where
  "scan_list visit [] s = Inr s"
| "scan_list visit ((k, v) # es) s = visit_then visit k v s (scan_list visit es)"

definition in_bounds :: "bytes option \<Rightarrow> bytes option \<Rightarrow> bytes \<Rightarrow> bool" where
  "in_bounds lo up k \<longleftrightarrow>
     (case lo of None \<Rightarrow> True | Some l \<Rightarrow> l \<le> k) \<and> (case up of None \<Rightarrow> True | Some u \<Rightarrow> k < u)"

definition range_entries :: "(bytes, 'v) omap \<Rightarrow> bytes option \<Rightarrow> bytes option \<Rightarrow> (bytes \<times> 'v) list" where
  "range_entries m lo up = filter (\<lambda>(k, _). in_bounds lo up k) (om_entries m)"

fun merge_lists :: "('k::linorder \<times> 'v) list \<Rightarrow> ('k \<times> 'v option) list \<Rightarrow> ('k \<times> 'v) list" where
  "merge_lists [] [] = []"
| "merge_lists [] ((k, Some v) # ov) = (k, v) # merge_lists [] ov"
| "merge_lists [] ((k, None) # ov) = merge_lists [] ov"
| "merge_lists ((dk, dv) # it) [] = (dk, dv) # merge_lists it []"
| "merge_lists ((dk, dv) # it) ((k, v) # ov) =
     (if dk \<ge> k then
        (case v of
           Some x \<Rightarrow> (k, x) # merge_lists (if dk = k then it else (dk, dv) # it) ov
         | None \<Rightarrow> merge_lists (if dk = k then it else (dk, dv) # it) ov)
      else (dk, dv) # merge_lists it ((k, v) # ov))"

definition om_merge :: "('k::linorder, 'v) omap \<Rightarrow> ('k, 'v option) omap \<Rightarrow> ('k, 'v) omap" where
  "om_merge b ov = om_of_list (merge_lists (om_entries b) (om_entries ov))"

lemma merge_lists_keys:
  "set (map fst (merge_lists it ov)) \<subseteq> set (map fst it) \<union> set (map fst ov)"
proof (induction it ov rule: merge_lists.induct)
  case (5 dk dv it k v ov)
  then show ?case
    by (cases "dk \<ge> k"; cases "dk = k"; cases v) (simp_all del: set_map, blast+)
qed (simp_all del: set_map, blast+)

lemma merge_lists_greater:
  "\<forall>x \<in> set (map fst it). k < x \<Longrightarrow> \<forall>x \<in> set (map fst ov). k < x \<Longrightarrow>
   \<forall>x \<in> set (map fst (merge_lists it ov)). k < x"
  using merge_lists_keys[of it ov] by blast

lemma sorted_fst_Cons:
  "sorted_wrt (<) (map fst ((k, v) # xs)) \<longleftrightarrow>
     (\<forall>x \<in> set (map fst xs). k < x) \<and> sorted_wrt (<) (map fst xs)"
  by simp

lemma merge_lists_sorted:
  assumes "sorted_wrt (<) (map fst it)" and "sorted_wrt (<) (map fst ov)"
  shows "sorted_wrt (<) (map fst (merge_lists it ov))"
  using assms
proof (induction it ov rule: merge_lists.induct)
  case (5 dk dv it k v ov)
  note prems = 5(4,5)[unfolded sorted_fst_Cons]
  show ?case
  proof (cases "dk \<ge> k")
    case True
    let ?it = "if dk = k then it else (dk, dv) # it"
    have it: "sorted_wrt (<) (map fst ?it)" "\<forall>x \<in> set (map fst ?it). k < x"
      using True prems(1) by auto
    then have "\<forall>x \<in> set (map fst (merge_lists ?it ov)). k < x"
      using prems(2) by (intro merge_lists_greater) blast+
    moreover have "sorted_wrt (<) (map fst (merge_lists ?it ov))"
      using True it(1) prems(2) 5(1,2) by (cases v) auto
    ultimately show ?thesis
      using True by (cases v) (simp_all del: map_map set_map)
  next
    case False
    then have "\<forall>x \<in> set (map fst (merge_lists it ((k, v) # ov))). dk < x"
      using prems by (intro merge_lists_greater) auto
    then show ?thesis using False 5 by (simp del: set_map)
  qed
next
  case (2 k v ov)
  then have "\<forall>x \<in> set (map fst (merge_lists [] ov)). k < x" by (intro merge_lists_greater) auto
  with 2 show ?case by simp
next
  case (4 dk dv it)
  then have "\<forall>x \<in> set (map fst (merge_lists it [])). dk < x" by (intro merge_lists_greater) auto
  with 4 show ?case by simp
qed auto

lemma map_of_None_greater: "\<forall>x \<in> set (map fst xs). k < x \<Longrightarrow> j \<le> k \<Longrightarrow> map_of xs j = None"
  for k :: "'k::linorder"
  by (auto simp: map_of_eq_None_iff)

lemma map_of_merge_lists:
  assumes "sorted_wrt (<) (map fst it)" and "sorted_wrt (<) (map fst ov)"
  shows "map_of (merge_lists it ov) x = (case map_of ov x of Some r \<Rightarrow> r | None \<Rightarrow> map_of it x)"
  using assms
proof (induction it ov rule: merge_lists.induct)
  case (5 dk dv it k v ov)
  note prems = 5(4,5)[unfolded sorted_fst_Cons]
  have ovk: "map_of ov k = None" using prems(2) map_of_None_greater by blast
  show ?case
  proof (cases "dk \<ge> k")
    case True
    let ?it = "if dk = k then it else (dk, dv) # it"
    have "map_of it k = None" using prems(1) True map_of_None_greater by blast
    moreover have "map_of (merge_lists ?it ov) x = (case map_of ov x of Some r \<Rightarrow> r | None \<Rightarrow> map_of ?it x)"
      using True prems 5(1,2) by (cases v) auto
    ultimately show ?thesis
      using True ovk by (cases v) (auto split: option.splits)
  next
    case False
    then have "map_of ov dk = None" using prems(2) map_of_None_greater[of ov k dk] by auto
    with False 5 show ?thesis by (auto split: option.splits)
  qed
next
  case (2 k v ov)
  then have "map_of ov k = None" using map_of_None_greater[of ov k k] by auto
  with 2 show ?case by (auto split: option.splits)
next
  case (3 k ov)
  then have "map_of ov k = None" using map_of_None_greater[of ov k k] by auto
  with 3 show ?case by (auto split: option.splits)
qed auto

lemma om_lookup_merge:
  "om_lookup (om_merge b ov) k = (case om_lookup ov k of Some r \<Rightarrow> r | None \<Rightarrow> om_lookup b k)"
  unfolding om_merge_def om_lookup_of_list
  by (simp add: map_of_merge_lists) (simp add: om_lookup_def split: option.split)

lemma sorted_distinct_keys: "sorted_wrt (<) (map fst xs) \<Longrightarrow> distinct (map fst xs)"
  for xs :: "('k::linorder \<times> 'v) list"
  by (simp add: strict_sorted_iff)

lemma sorted_map_of_unique:
  fixes xs ys :: "('k::linorder \<times> 'v) list"
  assumes "sorted_wrt (<) (map fst xs)" and "sorted_wrt (<) (map fst ys)" and "map_of xs = map_of ys"
  shows "xs = ys"
proof -
  have "(k, v) \<in> set xs \<longleftrightarrow> (k, v) \<in> set ys" for k v
    using assms(3) map_of_eq_Some_iff[OF sorted_distinct_keys[OF assms(1)], of k v]
      map_of_eq_Some_iff[OF sorted_distinct_keys[OF assms(2)], of k v] by argo
  then have "set xs = set ys" by auto
  with assms(1,2) show ?thesis by (rule strict_sorted_keys_unique)
qed

lemma range_entries_sorted [simp]: "sorted_wrt (<) (map fst (range_entries m lo up))"
  unfolding range_entries_def by (rule sorted_filter_fst) simp

lemma map_of_range_entries:
  "map_of (range_entries m lo up) k = (if in_bounds lo up k then om_lookup m k else None)"
  by (simp add: range_entries_def map_of_filter_key om_lookup_def)

lemma merge_range_entries:
  "merge_lists (range_entries b lo up) (range_entries ov lo up) = range_entries (om_merge b ov) lo up"
proof (rule sorted_map_of_unique)
  show "map_of (merge_lists (range_entries b lo up) (range_entries ov lo up)) =
    map_of (range_entries (om_merge b ov) lo up)"
    by (rule ext) (simp add: map_of_merge_lists map_of_range_entries om_lookup_merge cong: option.case_cong)
qed (simp_all add: merge_lists_sorted)

section \<open>The merge loop\<close>

text \<open>With a clean iterator the loop is a scan of the merged entries.\<close>

lemma visit_then_cong:
  "(\<And>s. f s = g s) \<Longrightarrow> visit_then visit k v s f = visit_then visit k v s g"
  by (simp add: visit_then_def split: sum.splits)

lemma merge_loop_scan_list: "merge_loop None visit it ov s = scan_list visit (merge_lists it ov) s"
proof (induction "None :: error option" visit it ov s rule: merge_loop.induct)
  case (1 visit ov s)
  then show ?case
    by (cases ov) (auto intro!: visit_then_cong split: option.splits)
next
  case (2 visit dk dv it s)
  then show ?case by (auto intro!: visit_then_cong)
next
  case (3 visit dk dv it ok v ov s)
  then show ?case
    by (auto simp: Let_def intro!: visit_then_cong split: option.splits)
qed

text \<open>An iterator that fails has yielded a prefix; a scan that still succeeds has stopped before.\<close>

lemma merge_loop_interrupted:
  "merge_loop (Some e) visit it ov s = Inr s' \<Longrightarrow> merge_loop None visit (it @ rest) ov s = Inr s'"
proof (induction "Some e" visit it ov s rule: merge_loop.induct)
  case (2 visit dk dv it s)
  then show ?case by (auto simp: visit_then_def split: sum.splits if_splits)
next
  case (3 visit dk dv it ok v ov s)
  then show ?case
    by (auto simp: Let_def visit_then_def split: sum.splits if_splits option.splits)
qed simp

section \<open>Bounds of prefix scans\<close>

lemma of_char_less_256: "(of_char c :: nat) < 256"
  by simp

lemma char_le_FF: "c \<le> CHR 0xFF"
proof -
  have "(of_char c :: nat) \<le> 255" using of_char_less_256[of c] by linarith
  then show ?thesis by (simp add: less_eq_char_def)
qed

lemma prefix_upper_bound_snoc:
  "prefix_upper_bound (q @ [c]) =
     (if c = CHR 0xFF then prefix_upper_bound q else Some (q @ [char_of ((of_char c :: nat) + 1)]))"
  by (simp add: prefix_upper_bound_def)

lemma char_successor_incr: "c \<noteq> CHR 0xFF \<Longrightarrow> char_successor c (char_of ((of_char c :: nat) + 1))"
proof -
  assume "c \<noteq> CHR 0xFF"
  then have "(of_char c :: nat) \<noteq> of_char (CHR 0xFF)" by (simp only: of_char_eq_iff) simp
  then have "(of_char c :: nat) \<noteq> 255" by simp
  with of_char_less_256[of c] have "(of_char c :: nat) + 1 < 256" by linarith
  then show ?thesis by (simp add: char_successor_def of_char_of)
qed

lemma prefix_upper_bound_range:
  "in_key_range p (prefix_upper_bound p) k \<longleftrightarrow> prefix p k"
proof (induction p arbitrary: k rule: rev_induct)
  case Nil
  then show ?case by (simp add: in_key_range_def prefix_upper_bound_def)
next
  case (snoc c q)
  show ?case
  proof (cases "c = CHR 0xFF")
    case True
    have "q @ [c] \<le> k \<Longrightarrow> q \<le> k" by (meson le_append_same order_trans)
    moreover have "prefix (q @ [c]) k \<longleftrightarrow> q @ [c] \<le> k" if pq: "prefix q k"
    proof -
      obtain r where r: "k = q @ r" using pq by (auto simp: prefix_def)
      have "[c] \<le> r \<longleftrightarrow> prefix [c] r"
        using True char_le_FF[of "hd r"] by (cases r) auto
      then show ?thesis by (simp add: r)
    qed
    ultimately show ?thesis
      using True snoc[of k]
      by (auto simp: in_key_range_def prefix_upper_bound_snoc dest: append_prefixD)
  next
    case False
    then show ?thesis
      using successor_prefix_range[OF char_successor_incr, of c q k]
      by (simp add: in_key_range_def prefix_upper_bound_snoc)
  qed
qed

section \<open>What the database promises\<close>

fun apply_batch_op :: "batch_op \<Rightarrow> (cf \<Rightarrow> (bytes, bytes) omap) \<Rightarrow> cf \<Rightarrow> (bytes, bytes) omap" where
  "apply_batch_op (PutCf cf k v) c = c(cf := om_insert k v (c cf))"
| "apply_batch_op (DeleteCf cf k) c = c(cf := om_delete k (c cf))"
| "apply_batch_op (DeleteRangeCf cf s e) c = c(cf := om_filter (\<lambda>k. \<not> (s \<le> k \<and> k < e)) (c cf))"

definition apply_batch :: "batch_op list \<Rightarrow> (cf \<Rightarrow> (bytes, bytes) omap) \<Rightarrow> cf \<Rightarrow> (bytes, bytes) omap" where
  "apply_batch ops c = fold apply_batch_op ops c"

text \<open>
  \<open>cts d cf\<close> is the content of a column family. A read that succeeds reads it, an iterator walks
  it in key order, a batch that is written is written whole, a range deletion removes the range,
  and dropping whole files removes nothing outside the range it is given.
\<close>

definition rocksdb_ok :: "'db rocksdb \<Rightarrow> ('db \<Rightarrow> cf \<Rightarrow> (bytes, bytes) omap) \<Rightarrow> bool" where
  "rocksdb_ok R cts \<longleftrightarrow>
     (\<forall>d cf k v. get_cf R d cf k = Inr v \<longrightarrow> v = om_lookup (cts d cf) k) \<and>
     (\<forall>d cf lo up it. iter_cf R d cf lo up = (it, None) \<longrightarrow> it = range_entries (cts d cf) lo up) \<and>
     (\<forall>d cf lo up it e. iter_cf R d cf lo up = (it, Some e) \<longrightarrow> prefix it (range_entries (cts d cf) lo up)) \<and>
     (\<forall>d cf lo hi r e. seek_for_prev_cf R d cf lo hi = (r, e) \<longrightarrow>
        (case r of
           Some kv \<Rightarrow> \<exists>es. range_entries (cts d cf) (Some lo) (Some (key_successor hi)) = es @ [kv]
         | None \<Rightarrow> e = None \<longrightarrow> range_entries (cts d cf) (Some lo) (Some (key_successor hi)) = [])) \<and>
     (\<forall>d ops d'. write_opt R d ops = Inr d' \<longrightarrow>
        cts d' = apply_batch ops (cts d) \<and> cf_handle R d' = cf_handle R d) \<and>
     (\<forall>d cf s e d'. delete_range_cf R d cf s e = Inr d' \<longrightarrow>
        cts d' = apply_batch_op (DeleteRangeCf cf s e) (cts d) \<and> cf_handle R d' = cf_handle R d) \<and>
     (\<forall>d cf s e d'. delete_file_in_range_cf R d cf s e = Inr d' \<longrightarrow> cf_handle R d' = cf_handle R d \<and>
        (\<forall>cf' k. om_lookup (cts d' cf') k \<in>
          (if cf' = cf \<and> s \<le> k \<and> k < e then {None, om_lookup (cts d cf') k} else {om_lookup (cts d cf') k}))) \<and>
     (\<forall>d cf s e. cts (compact_range_cf R d cf s e) = cts d \<and> cf_handle R (compact_range_cf R d cf s e) = cf_handle R d)"

definition codec_ok :: "'c codec_scheme \<Rightarrow> bool" where
  "codec_ok C \<longleftrightarrow> (\<forall>rec b. bincode_encode C rec = Inr b \<longrightarrow> bincode_decode C b = Inr rec)"

lemma rocksdb_okD:
  assumes "rocksdb_ok R cts"
  shows "get_cf R d cf k = Inr v \<Longrightarrow> v = om_lookup (cts d cf) k"
    and "iter_cf R d cf lo up = (it, None) \<Longrightarrow> it = range_entries (cts d cf) lo up"
    and "iter_cf R d cf lo up = (it, Some e) \<Longrightarrow> prefix it (range_entries (cts d cf) lo up)"
    and "write_opt R d ops = Inr d' \<Longrightarrow> cts d' = apply_batch ops (cts d)"
    and "delete_range_cf R d cf s u = Inr d' \<Longrightarrow> cts d' = apply_batch_op (DeleteRangeCf cf s u) (cts d)"
  using assms[unfolded rocksdb_ok_def] by simp_all

lemma codec_okD: "codec_ok C \<Longrightarrow> encode_record C rec = Inr b \<Longrightarrow> decode_record C b = Inr rec"
  by (simp add: codec_ok_def encode_record_def decode_record_def)

section \<open>The scan over the overlay\<close>

lemma overlay_range_Inr:
  "overlay_range m lo up = Inr es \<Longrightarrow> es = range_entries m lo up"
  by (auto simp: overlay_range_def range_entries_def in_bounds_def split: option.splits if_splits)

lemma scan_with_overlay_scan_list:
  assumes ok: "rocksdb_ok R cts"
    and scan: "scan_with_overlay R db cf ov snapshot lo up visit s = Inr s'"
  shows "scan_list visit
    (range_entries (om_merge (cts (case snapshot of Some sn \<Rightarrow> sn | None \<Rightarrow> db) cf)
       (case ov of Some m \<Rightarrow> m | None \<Rightarrow> om_empty)) lo up) s = Inr s'"
proof -
  let ?d = "case snapshot of Some sn \<Rightarrow> sn | None \<Rightarrow> db"
  let ?ov = "case ov of Some m \<Rightarrow> m | None \<Rightarrow> om_empty"
  obtain it status where it: "iter_cf R ?d cf lo up = (it, status)" by (cases "iter_cf R ?d cf lo up")
  with scan have loop: "merge_loop status visit it (range_entries ?ov lo up) s = Inr s'"
    by (auto simp: scan_with_overlay_def Let_def dest!: overlay_range_Inr split: if_splits sum.splits)
  have "merge_loop None visit (range_entries (cts ?d cf) lo up) (range_entries ?ov lo up) s = Inr s'"
  proof (cases status)
    case None
    with it have "it = range_entries (cts ?d cf) lo up" using rocksdb_okD(2)[OF ok] by blast
    with loop None show ?thesis by simp
  next
    case (Some e)
    with it have "prefix it (range_entries (cts ?d cf) lo up)" using rocksdb_okD(3)[OF ok] by blast
    then obtain rest where "range_entries (cts ?d cf) lo up = it @ rest" by (auto simp: prefix_def)
    with loop Some show ?thesis by (simp add: merge_loop_interrupted)
  qed
  then show ?thesis by (simp add: merge_loop_scan_list merge_range_entries)
qed

section \<open>The keys of one group\<close>

definition group_view :: "group_id \<Rightarrow> (bytes, 'v) omap \<Rightarrow> (bytes, 'v) omap" where
  "group_view g m =
     om_of_list (map (\<lambda>(k, v). (drop GROUP_PREFIX_LEN k, v))
       (filter (\<lambda>(k, _). prefix (group_prefix g) k) (om_entries m)))"

lemma map_of_drop_group:
  "map_of (map (\<lambda>(k, v). (drop GROUP_PREFIX_LEN k, v)) (filter (\<lambda>(k, _). prefix (group_prefix g) k) xs)) k =
     map_of xs (group_key g k)"
proof (induction xs)
  case (Cons x xs)
  obtain a b where x: "x = (a, b)" by (cases x)
  have "prefix (group_prefix g) a \<and> drop GROUP_PREFIX_LEN a = k \<longleftrightarrow> a = group_key g k"
    by (auto simp: prefix_def group_prefix_def group_key_def GROUP_PREFIX_LEN_def)
  with Cons x show ?case by (auto simp: group_key_def)
qed simp

lemma om_lookup_group_view [simp]: "om_lookup (group_view g m) k = om_lookup m (group_key g k)"
  by (simp add: group_view_def map_of_drop_group) (simp add: om_lookup_def)

text \<open>A scoped range of the whole column family is the range of the group's own keys.\<close>

definition scope_entry :: "group_id \<Rightarrow> bytes \<times> 'v \<Rightarrow> bytes \<times> 'v" where
  "scope_entry g = (\<lambda>(k, v). (group_key g k, v))"

lemma map_of_scope_entry:
  "map_of (map (scope_entry g) xs) x =
     (if prefix (group_prefix g) x then map_of xs (drop GROUP_PREFIX_LEN x) else None)"
proof (induction xs)
  case (Cons e xs)
  obtain a b where e: "e = (a, b)" by (cases e)
  have "group_key g a = x \<longleftrightarrow> prefix (group_prefix g) x \<and> drop GROUP_PREFIX_LEN x = a"
    by (auto simp: prefix_def group_prefix_def group_key_def GROUP_PREFIX_LEN_def)
  with Cons e show ?case by (auto simp: scope_entry_def)
qed simp

lemma scope_entry_sorted:
  "sorted_wrt (<) (map fst xs) \<Longrightarrow> sorted_wrt (<) (map fst (map (scope_entry g) xs))"
  by (induction xs) (auto simp: scope_entry_def)

definition scoped_lo :: "group_id \<Rightarrow> bytes option \<Rightarrow> bytes" where
  "scoped_lo g lo = (case lo of Some k \<Rightarrow> group_key g k | None \<Rightarrow> group_prefix g)"

definition scoped_up :: "group_id \<Rightarrow> bytes option \<Rightarrow> bytes option" where
  "scoped_up g up = (case up of Some u \<Rightarrow> Some (group_key g u) | None \<Rightarrow> prefix_upper_bound (group_prefix g))"

lemma between_group_keys:
  assumes "group_key g l \<le> x" and "x < group_key g u"
  shows "prefix (group_prefix g) x"
proof (rule ccontr)
  assume np: "\<not> prefix (group_prefix g) x"
  have "group_prefix g \<le> x"
    using assms(1) by (metis group_key_def group_prefix_def le_append_same order_trans)
  moreover have "group_prefix g \<noteq> x" using np by auto
  ultimately have "group_prefix g < x" by simp
  with np have "group_prefix g @ u < x" by (rule no_prefix_less_append)
  with assms(2) show False by (simp add: group_key_def group_prefix_def)
qed

lemma group_key_nil: "group_key g [] = group_prefix g"
  by (simp add: group_key_def group_prefix_def)

lemma scoped_bounds:
  "in_bounds (Some (scoped_lo g lo)) (scoped_up g up) x \<longleftrightarrow>
     prefix (group_prefix g) x \<and> in_bounds lo up (drop GROUP_PREFIX_LEN x)"
proof -
  have lo: "scoped_lo g lo = group_key g (case lo of Some l \<Rightarrow> l | None \<Rightarrow> [])"
    by (simp add: scoped_lo_def group_key_nil split: option.split)
  have in_pre: "in_bounds (Some (scoped_lo g lo)) (scoped_up g up) x \<Longrightarrow> prefix (group_prefix g) x"
  proof (cases up)
    case None
    assume "in_bounds (Some (scoped_lo g lo)) (scoped_up g up) x"
    with None have "in_key_range (group_prefix g) (prefix_upper_bound (group_prefix g)) x"
      using order_trans[OF le_append_same[of "group_prefix g" "case lo of Some l \<Rightarrow> l | None \<Rightarrow> []"]] unfolding lo
      by (simp add: in_bounds_def in_key_range_def scoped_up_def group_key_def group_prefix_def)
    then show ?thesis by (simp only: prefix_upper_bound_range)
  next
    case (Some u)
    assume "in_bounds (Some (scoped_lo g lo)) (scoped_up g up) x"
    with Some show ?thesis unfolding lo
      by (auto simp: in_bounds_def scoped_up_def intro: between_group_keys)
  qed
  moreover have "in_bounds (Some (scoped_lo g lo)) (scoped_up g up) x \<longleftrightarrow> in_bounds lo up y"
    if "x = group_key g y" for y
    using that prefix_upper_bound_range[of "group_prefix g" x] unfolding lo
    by (auto simp: in_bounds_def scoped_up_def in_key_range_def group_key_nil[symmetric]
        group_key_def group_prefix_def split: option.splits)
  moreover have "prefix (group_prefix g) x \<Longrightarrow> x = group_key g (drop GROUP_PREFIX_LEN x)"
    by (auto simp: prefix_def group_key_def group_prefix_def GROUP_PREFIX_LEN_def)
  ultimately show ?thesis by blast
qed

lemma group_range_entries:
  "range_entries m (Some (scoped_lo g lo)) (scoped_up g up) =
     map (scope_entry g) (range_entries (group_view g m) lo up)"
proof (rule sorted_map_of_unique)
  show "map_of (range_entries m (Some (scoped_lo g lo)) (scoped_up g up)) =
    map_of (map (scope_entry g) (range_entries (group_view g m) lo up))"
  proof (rule ext)
    fix x
    have "prefix (group_prefix g) x \<Longrightarrow> group_key g (drop GROUP_PREFIX_LEN x) = x"
      by (auto simp: prefix_def group_key_def group_prefix_def GROUP_PREFIX_LEN_def)
    then show "map_of (range_entries m (Some (scoped_lo g lo)) (scoped_up g up)) x =
      map_of (map (scope_entry g) (range_entries (group_view g m) lo up)) x"
      by (simp add: map_of_range_entries map_of_scope_entry scoped_bounds)
  qed
qed (simp_all add: scope_entry_sorted del: map_map)

lemma scan_list_map:
  "scan_list visit (map (scope_entry g) es) s = scan_list (\<lambda>k. visit (group_key g k)) es s"
proof (induction es arbitrary: s)
  case (Cons e es)
  then show ?case
    by (cases e) (auto simp: scope_entry_def visit_then_def split: sum.splits)
qed simp

section \<open>The view of a write transaction\<close>

definition txn_view :: "('db \<Rightarrow> cf \<Rightarrow> (bytes, bytes) omap) \<Rightarrow> 'db write_txn \<Rightarrow> cf \<Rightarrow> (bytes, bytes) omap" where
  "txn_view cts t cf = group_view (wt_group t) (om_merge (cts (wt_db t) cf) (overlay_of t cf))"

text \<open>
  The invariant of a transaction: a cached read agrees with the database, every pending key
  belongs to the transaction's group, and the batch and the overlay say the same.
\<close>

definition txn_ok :: "'db rocksdb \<Rightarrow> ('db \<Rightarrow> cf \<Rightarrow> (bytes, bytes) omap) \<Rightarrow> 'db write_txn \<Rightarrow> bool" where
  "txn_ok R cts t \<longleftrightarrow>
     rocksdb_ok R cts \<and>
     (\<forall>cf cache k v. wt_read_cache t cf = Some cache \<longrightarrow> cache k = Some v \<longrightarrow>
        v = om_lookup (cts (wt_db t) cf) k) \<and>
     (\<forall>cf k. om_lookup (overlay_of t cf) k \<noteq> None \<longrightarrow> prefix (group_prefix (wt_group t)) k) \<and>
     (\<forall>cf. apply_batch (wt_batch t) (cts (wt_db t)) cf = om_merge (cts (wt_db t) cf) (overlay_of t cf)) \<and>
     (\<not> wt_dirty t \<longrightarrow> wt_batch t = [])"

definition same_txn :: "'db write_txn \<Rightarrow> 'db write_txn \<Rightarrow> bool" where
  "same_txn t t' \<longleftrightarrow> wt_db t' = wt_db t \<and> wt_group t' = wt_group t \<and> wt_now_ms t' = wt_now_ms t"

lemma same_txn_refl [simp]: "same_txn t t"
  by (simp add: same_txn_def)

lemma same_txn_trans [trans]: "same_txn t u \<Longrightarrow> same_txn u v \<Longrightarrow> same_txn t v"
  by (simp add: same_txn_def)

lemma om_merge_empty [simp]: "om_merge b om_empty = b"
  by (rule om_eqI) (simp add: om_lookup_merge)

lemma om_merge_insert:
  "om_merge b (om_insert k (Some v) ov) = om_insert k v (om_merge b ov)"
  "om_merge b (om_insert k None ov) = om_delete k (om_merge b ov)"
  by (rule om_eqI, simp add: om_lookup_merge)+

lemma group_view_insert [simp]:
  "group_view g (om_insert (group_key g k) v m) = om_insert k v (group_view g m)"
  "group_view g (om_delete (group_key g k) m) = om_delete k (group_view g m)"
  by (rule om_eqI, simp)+

lemma new_txn_ok: "rocksdb_ok R cts \<Longrightarrow> txn_ok R cts (write_txn_new db g now)"
  by (simp add: txn_ok_def write_txn_new_def overlay_of_def apply_batch_def)

lemma new_txn_view [simp]: "txn_view cts (write_txn_new db g now) = (\<lambda>cf. group_view g (cts db cf))"
  by (simp add: fun_eq_iff txn_view_def write_txn_new_def overlay_of_def)

lemma wt_overlay_lookup:
  "Option.bind (wt_overlay t cf) (\<lambda>m. om_lookup m k) = om_lookup (overlay_of t cf) k"
  by (cases "wt_overlay t cf") (simp_all add: overlay_of_def)

lemma get_raw_view:
  assumes ok: "txn_ok R cts t" and get: "get_raw R cf k t = Inr (v, t')"
  shows "v = om_lookup (txn_view cts t cf) k" and "txn_view cts t' = txn_view cts t"
    and "txn_ok R cts t'" and "same_txn t t'"
proof -
  let ?k = "group_key (wt_group t) k"
  have R: "rocksdb_ok R cts" using ok by (simp add: txn_ok_def)
  have view: "om_lookup (txn_view cts t cf) k =
    (case om_lookup (overlay_of t cf) ?k of Some r \<Rightarrow> r | None \<Rightarrow> om_lookup (cts (wt_db t) cf) ?k)"
    by (simp add: txn_view_def om_lookup_merge)
  have cached: "x = om_lookup (cts (wt_db t) cf) j"
    if "Option.bind (wt_read_cache t cf) (\<lambda>c. c j) = Some x" for x j
    using that ok unfolding txn_ok_def by (cases "wt_read_cache t cf") auto
  note unfold = get[unfolded get_raw_def get_full_def scoped_def wt_overlay_lookup]
  have "v = om_lookup (txn_view cts t cf) k \<and> txn_view cts t' = txn_view cts t \<and>
    txn_ok R cts t' \<and> same_txn t t'"
  proof (cases "om_lookup (overlay_of t cf) ?k")
    case (Some r)
    then show ?thesis using ok view unfold by simp
  next
    case none: None
    show ?thesis
    proof (cases "Option.bind (wt_read_cache t cf) (\<lambda>c. c ?k)")
      case (Some r)
      then show ?thesis using ok view unfold none cached[of ?k r] by simp
    next
      case None
      define c where "c = (case wt_read_cache t cf of Some c \<Rightarrow> c | None \<Rightarrow> Map.empty)"
      have get_cf: "get_cf R (wt_db t) cf ?k = Inr v"
        and t': "t' = t\<lparr> wt_read_cache := (wt_read_cache t)(cf \<mapsto> c(?k \<mapsto> v)) \<rparr>"
        using unfold none None by (simp_all add: c_def Let_def split: if_splits sum.splits)
      have c: "c j = Some x \<Longrightarrow> x = om_lookup (cts (wt_db t) cf) j" for j x
        using cached[of j x] by (simp add: c_def split: option.splits)
      have v: "v = om_lookup (cts (wt_db t) cf) ?k" using get_cf by (rule rocksdb_okD(1)[OF R])
      have ov: "overlay_of t' cf' = overlay_of t cf'" for cf' using t' by (simp add: overlay_of_def)
      have keep: "wt_db t' = wt_db t" "wt_group t' = wt_group t" "wt_batch t' = wt_batch t"
        "wt_dirty t' = wt_dirty t" "wt_now_ms t' = wt_now_ms t"
        "wt_read_cache t' = (wt_read_cache t)(cf \<mapsto> c(?k \<mapsto> v))" by (simp_all add: t')
      have "wt_read_cache t' cf' = Some cache \<Longrightarrow> cache j = Some x \<Longrightarrow> x = om_lookup (cts (wt_db t) cf') j"
        for cf' cache j x
        using ok c v unfolding txn_ok_def by (auto simp: keep split: if_splits)
      then have "txn_ok R cts t'" using ok unfolding txn_ok_def ov keep(1-5) by blast
      moreover have "txn_view cts t' = txn_view cts t"
        by (rule ext) (simp add: txn_view_def ov keep)
      ultimately show ?thesis using v view none by (simp add: same_txn_def keep)
    qed
  qed
  then show "v = om_lookup (txn_view cts t cf) k" and "txn_view cts t' = txn_view cts t"
    and "txn_ok R cts t'" and "same_txn t t'" by blast+
qed

text \<open>A pending write goes to the batch, to the overlay, and to the view.\<close>

lemma overlay_write_view:
  assumes ok: "txn_ok R cts t"
    and t': "t' = t\<lparr> wt_batch := wt_batch t @ [op],
      wt_overlay := (wt_overlay t)(cf \<mapsto> om_insert (scoped t k) r (overlay_of t cf)),
      wt_read_cache := (wt_read_cache t)(cf := None), wt_dirty := True \<rparr>"
    and op: "\<And>c. apply_batch_op op c = c(cf := om_merge (c cf) (om_insert (scoped t k) r om_empty))"
  shows "txn_ok R cts t'" and "same_txn t t'"
    and "txn_view cts t' = (txn_view cts t)(cf :=
      (case r of Some v \<Rightarrow> om_insert k v (txn_view cts t cf) | None \<Rightarrow> om_delete k (txn_view cts t cf)))"
proof -
  have ov: "overlay_of t' cf' = (if cf' = cf then om_insert (scoped t k) r (overlay_of t cf) else overlay_of t cf')"
    for cf' by (simp add: t' overlay_of_def)
  have merge: "om_merge (om_merge b m) (om_insert x r om_empty) = om_merge b (om_insert x r m)" for b m x
    by (rule om_eqI) (simp add: om_lookup_merge)
  have keep: "wt_db t' = wt_db t" "wt_group t' = wt_group t" "wt_batch t' = wt_batch t @ [op]"
    "wt_read_cache t' = (wt_read_cache t)(cf := None)" "wt_dirty t'" "wt_now_ms t' = wt_now_ms t"
    by (simp_all add: t')
  have batch: "apply_batch (wt_batch t') (cts (wt_db t')) cf' =
    om_merge (cts (wt_db t') cf') (overlay_of t' cf')" for cf'
    using ok by (simp add: keep ov apply_batch_def txn_ok_def op merge)
  have "prefix (group_prefix (wt_group t)) (scoped t k)"
    by (simp add: scoped_def group_key_def group_prefix_def)
  then have keys: "om_lookup (overlay_of t' cf') k' \<noteq> None \<Longrightarrow> prefix (group_prefix (wt_group t')) k'" for cf' k'
    using ok by (auto simp: keep ov txn_ok_def split: if_splits)
  show "txn_ok R cts t'"
    using ok batch keys unfolding txn_ok_def by (simp add: keep)
  show "same_txn t t'" by (simp add: same_txn_def keep)
  show "txn_view cts t' = (txn_view cts t)(cf :=
      (case r of Some v \<Rightarrow> om_insert k v (txn_view cts t cf) | None \<Rightarrow> om_delete k (txn_view cts t cf)))"
    by (rule ext, cases r) (simp_all add: txn_view_def keep ov om_merge_insert scoped_def)
qed

lemma put_raw_view:
  assumes "txn_ok R cts t" and "put_raw R cf k v t = Inr (u, t')"
  shows "txn_ok R cts t'" and "same_txn t t'"
    and "txn_view cts t' = (txn_view cts t)(cf := om_insert k v (txn_view cts t cf))"
proof -
  have t': "t' = t\<lparr> wt_batch := wt_batch t @ [PutCf cf (scoped t k) v],
      wt_overlay := (wt_overlay t)(cf \<mapsto> om_insert (scoped t k) (Some v) (overlay_of t cf)),
      wt_read_cache := (wt_read_cache t)(cf := None), wt_dirty := True \<rparr>"
    using assms(2) by (auto simp: put_raw_def put_full_def split: if_splits)
  have op: "apply_batch_op (PutCf cf (scoped t k) v) c =
    c(cf := om_merge (c cf) (om_insert (scoped t k) (Some v) om_empty))" for c
    by (simp add: om_merge_insert)
  show "txn_ok R cts t'" and "same_txn t t'"
    and "txn_view cts t' = (txn_view cts t)(cf := om_insert k v (txn_view cts t cf))"
    using overlay_write_view[OF assms(1) t' op] by simp_all
qed

lemma delete_raw_view:
  assumes "txn_ok R cts t" and "delete_raw R cf k t = Inr (u, t')"
  shows "txn_ok R cts t'" and "same_txn t t'"
    and "txn_view cts t' = (txn_view cts t)(cf := om_delete k (txn_view cts t cf))"
proof -
  have t': "t' = t\<lparr> wt_batch := wt_batch t @ [DeleteCf cf (scoped t k)],
      wt_overlay := (wt_overlay t)(cf \<mapsto> om_insert (scoped t k) None (overlay_of t cf)),
      wt_read_cache := (wt_read_cache t)(cf := None), wt_dirty := True \<rparr>"
    using assms(2) by (auto simp: delete_raw_def split: if_splits)
  have op: "apply_batch_op (DeleteCf cf (scoped t k)) c =
    c(cf := om_merge (c cf) (om_insert (scoped t k) None om_empty))" for c
    by (simp add: om_merge_insert)
  show "txn_ok R cts t'" and "same_txn t t'"
    and "txn_view cts t' = (txn_view cts t)(cf := om_delete k (txn_view cts t cf))"
    using overlay_write_view[OF assms(1) t' op] by simp_all
qed

lemma scan_merged_view:
  assumes ok: "txn_ok R cts t" and scan: "scan_merged R cf lo up visit s t = Inr (s', t')"
  shows "t' = t" and "scan_list visit (range_entries (txn_view cts t cf) lo up) s = Inr s'"
proof -
  let ?g = "wt_group t"
  have R: "rocksdb_ok R cts" using ok by (simp add: txn_ok_def)
  from scan show "t' = t" by (simp add: scan_merged_def Let_def)
  from scan have "scan_with_overlay R (wt_db t) cf (wt_overlay t cf) None (Some (scoped_lo ?g lo))
    (scoped_up ?g up) (\<lambda>k v. visit (drop (length (group_prefix ?g)) k) v) s = Inr s'"
    by (simp add: scan_merged_def Let_def scoped_lo_def scoped_up_def)
  from scan_with_overlay_scan_list[OF R this]
  show "scan_list visit (range_entries (txn_view cts t cf) lo up) s = Inr s'"
    by (simp add: group_range_entries scan_list_map txn_view_def overlay_of_def
        group_prefix_def group_key_def)
qed

lemma commit_view:
  assumes ok: "txn_ok R cts t" and commit: "commit R t = Inr (written, d)"
  shows "cts d = (\<lambda>cf. om_merge (cts (wt_db t) cf) (overlay_of t cf))"
    and "group_view (wt_group t) (cts d cf) = txn_view cts t cf"
    and "g \<noteq> wt_group t \<Longrightarrow> group_view g (cts d cf) = group_view g (cts (wt_db t) cf)"
proof -
  have R: "rocksdb_ok R cts" using ok by (simp add: txn_ok_def)
  show d: "cts d = (\<lambda>cf. om_merge (cts (wt_db t) cf) (overlay_of t cf))"
  proof (cases "wt_dirty t")
    case True
    then have "write_opt R (wt_db t) (wt_batch t) = Inr d"
      using commit by (auto simp: commit_def split: sum.splits)
    then show ?thesis
      using rocksdb_okD(4)[OF R] ok by (simp add: txn_ok_def fun_eq_iff)
  next
    case False
    then have "d = wt_db t" using commit by (simp add: commit_def)
    moreover have "om_merge (cts (wt_db t) cf) (overlay_of t cf) = cts (wt_db t) cf" for cf
      using ok False unfolding txn_ok_def by (metis apply_batch_def fold_simps(1))
    ultimately show ?thesis by simp
  qed
  show "group_view (wt_group t) (cts d cf) = txn_view cts t cf"
    by (simp add: d txn_view_def)
  have "om_lookup (overlay_of t cf) (group_key g k) = None" if "g \<noteq> wt_group t" for k
  proof (rule ccontr)
    assume "om_lookup (overlay_of t cf) (group_key g k) \<noteq> None"
    then have "prefix (group_prefix (wt_group t)) (group_key g k)" using ok by (auto simp: txn_ok_def)
    then show False using that by (auto simp: group_prefix_def group_key_def prefix_def append_eq_append_conv)
  qed
  then show "g \<noteq> wt_group t \<Longrightarrow> group_view g (cts d cf) = group_view g (cts (wt_db t) cf)"
    by (intro om_eqI) (simp add: d om_lookup_merge)
qed

end
