(* ===== verification/Store_Interface.thy ===== *)
theory Store_Interface
  imports Store_View
begin

text \<open>
  The contract of the \<open>StoreTxn\<close> trait, as the lock engine relies on it. A store shows a partial
  map from column family and key to a string with its expiry time (\<open>sview\<close>); the locale
  \<open>store_reads\<close> says what the reads return of it and \<open>store_writes\<close> what the writes do to it. The
  three transactions of \<open>store_rocksdb.rs\<close> are interpreted as \<open>store_reads\<close> and the write
  transaction as \<open>store_writes\<close>.
\<close>

section \<open>String views\<close>

type_synonym sview = "cf \<Rightarrow> bytes \<Rightarrow> (string \<times> u64) option"

definition str_record :: "'c codec_scheme \<Rightarrow> bytes option \<Rightarrow> (string \<times> u64) option" where
  "str_record C value =
     (case value of
        None \<Rightarrow> None
      | Some b \<Rightarrow> (case decode_record C b of Inr (Str v e) \<Rightarrow> Some (v, e) | _ \<Rightarrow> None))"

text \<open>The expiry index is not part of what the engine sees.\<close>

definition str_view :: "'c codec_scheme \<Rightarrow> (cf \<Rightarrow> (bytes, bytes) omap) \<Rightarrow> sview" where
  "str_view C m cf k = (if cf = CF_EXPIRY then None else str_record C (om_lookup (m cf) k))"

definition live :: "u64 \<Rightarrow> (string \<times> u64) option \<Rightarrow> string option" where
  "live now r = (case r of Some (v, e) \<Rightarrow> if expired e now then None else Some v | None \<Rightarrow> None)"

lemma str_record_None [simp]: "str_record C None = None"
  by (simp add: str_record_def)

lemma live_simps [simp]:
  "live now None = None"
  "live now (Some (v, e)) = (if expired e now then None else Some v)"
  by (simp_all add: live_def)

lemma live_Some: "live now r = Some v \<longleftrightarrow> (\<exists>e. r = Some (v, e) \<and> \<not> expired e now)"
  by (auto simp: live_def split: option.splits if_splits)

lemma str_of_value_live:
  "str_of_value C now value = Inr r \<Longrightarrow> r = live now (str_record C value)"
  by (auto simp: str_of_value_def str_record_def live_def live_str_def
      split: option.splits sum.splits stored_record.splits)

lemma is_member_value_live:
  "is_member_value C now value = Inr r \<Longrightarrow> r \<longleftrightarrow> live now (str_record C value) \<noteq> None"
  by (auto simp: is_member_value_def str_record_def live_def
      split: option.splits sum.splits stored_record.splits if_splits)

lemma live_str_record:
  "decode_record C b = Inr rec \<Longrightarrow> live_str rec now = live now (str_record C (Some b))"
  by (cases rec) (auto simp: str_record_def live_def live_str_def)

section \<open>Set scans\<close>

text \<open>The live values of a list of raw entries.\<close>

definition live_values :: "'c codec_scheme \<Rightarrow> u64 \<Rightarrow> (bytes \<times> bytes) list \<Rightarrow> string list" where
  "live_values C now es =
     concat (map (\<lambda>(k, b). case live now (str_record C (Some b)) of Some v \<Rightarrow> [v] | None \<Rightarrow> []) es)"

lemma live_values_simps [simp]:
  "live_values C now [] = []"
  "live_values C now ((k, b) # es) =
     (case live now (str_record C (Some b)) of Some v \<Rightarrow> [v] | None \<Rightarrow> []) @ live_values C now es"
  "live_values C now (es @ fs) = live_values C now es @ live_values C now fs"
  by (simp_all add: live_values_def)

definition member_upper :: "bytes \<Rightarrow> bytes" where
  "member_upper key = key @ [CHR 0x01]"

lemma prefix_upper_bound_member: "prefix_upper_bound (member_prefix key) = Some (member_upper key)"
  by (simp add: member_prefix_def member_upper_def prefix_upper_bound_snoc
      byte_successors(1)[unfolded byte_sat_add_def, simplified])

lemma member_range: "in_bounds (Some (member_prefix key)) (Some (member_upper key)) k \<longleftrightarrow> prefix (member_prefix key) k"
  using prefix_upper_bound_range[of "member_prefix key" k]
  by (simp add: prefix_upper_bound_member in_bounds_def in_key_range_def)

abbreviation set_entries :: "bytes \<Rightarrow> (bytes, bytes) omap \<Rightarrow> (bytes \<times> bytes) list" where
  "set_entries key m \<equiv> range_entries m (Some (member_prefix key)) (Some (member_upper key))"

lemma set_entries_prefix: "(k, b) \<in> set (set_entries key m) \<Longrightarrow> prefix (member_prefix key) k"
  using member_range by (auto simp: range_entries_def)

lemma in_live_values:
  "v \<in> set (live_values C now (set_entries key m)) \<longleftrightarrow>
     (\<exists>x. live now (str_record C (om_lookup m (member_key key x))) = Some v)"
proof -
  have "v \<in> set (live_values C now (set_entries key m)) \<longleftrightarrow>
    (\<exists>k b. (k, b) \<in> set (set_entries key m) \<and> live now (str_record C (Some b)) = Some v)"
    by (force simp: live_values_def split: option.splits)
  also have "\<dots> \<longleftrightarrow> (\<exists>k b. prefix (member_prefix key) k \<and> om_lookup m k = Some b \<and>
      live now (str_record C (Some b)) = Some v)"
    by (auto simp: range_entries_def member_range om_entries_iff)
  also have "\<dots> \<longleftrightarrow> (\<exists>k. prefix (member_prefix key) k \<and> live now (str_record C (om_lookup m k)) = Some v)"
  proof -
    have "(\<exists>b. om_lookup m k = Some b \<and> live now (str_record C (Some b)) = Some v) \<longleftrightarrow>
      live now (str_record C (om_lookup m k)) = Some v" for k
      by (cases "om_lookup m k") auto
    then show ?thesis by metis
  qed
  finally show ?thesis by (auto simp: member_key_def prefix_def)
qed

lemma smembers_limited_visit_prefix:
  assumes "prefix pre k"
  shows "smembers_limited_visit C pre limit now k b (ms, raw, ex) =
    (case decode_record C b of
       Inl e \<Rightarrow> Inl e
     | Inr _ \<Rightarrow>
         let ms' = ms @ live_values C now [(k, b)] in
         if limit < length ms' \<and> length ms < length ms' then Inr (False, (ms, raw + 1, True))
         else if raw_scan_cap limit \<le> raw + 1 then Inr (False, (ms', raw + 1, True))
         else Inr (True, (ms', raw + 1, ex)))"
  using assms
  by (auto simp: smembers_limited_visit_def Let_def live_str_record split: sum.splits option.splits)

lemma scan_smembers_limited:
  assumes "scan_list (smembers_limited_visit C pre limit now) es (ms, raw, ex) = Inr (ms', raw', False)"
    and "\<forall>(k, b) \<in> set es. prefix pre k" and "length ms \<le> limit"
  shows "ms' = ms @ live_values C now es \<and> length ms' \<le> limit"
  using assms
proof (induction es arbitrary: ms raw ex)
  case (Cons e es)
  obtain k b where e: "e = (k, b)" by (cases e)
  let ?ms = "ms @ live_values C now [(k, b)]"
  have "scan_list (smembers_limited_visit C pre limit now) es (?ms, raw + 1, ex) = Inr (ms', raw', False)"
    and "length ?ms \<le> limit"
    using Cons.prems e
    by (auto simp: visit_then_def smembers_limited_visit_prefix Let_def simp del: live_values_simps(2)
        split: sum.splits if_splits)
  from Cons.IH[OF this(1) _ this(2)] Cons.prems(2) e
  have "ms' = ?ms @ live_values C now es" and "length ms' \<le> limit" by auto
  moreover from this have "ms' = ms @ live_values C now (e # es)" by (simp add: e)
  ultimately show ?case by blast
qed auto

lemma scan_has_live_member:
  assumes "scan_list (has_live_member_visit C pre now) es False = Inr r"
    and "\<forall>(k, b) \<in> set es. prefix pre k"
  shows "r \<longleftrightarrow> live_values C now es \<noteq> []"
  using assms
proof (induction es)
  case (Cons e es)
  then show ?case
    by (cases e) (auto simp: visit_then_def has_live_member_visit_def live_str_record
        split: sum.splits option.splits if_splits)
qed simp

text \<open>A page stops at the first raw key it does not look at; that key is the next cursor.\<close>

lemma smembers_page_visit_prefix:
  assumes "prefix pre k" and "\<not> page \<le> raw"
  shows "smembers_page_visit C pre page now k b (ms, raw, next) =
    (case decode_record C b of
       Inl e \<Rightarrow> Inl e
     | Inr _ \<Rightarrow> Inr (True, (ms @ live_values C now [(k, b)], raw + 1, next)))"
  using assms
  by (auto simp: smembers_page_visit_def live_str_record split: sum.splits option.splits)

lemma scan_smembers_page:
  assumes "scan_list (smembers_page_visit C pre page now) es (ms, raw, None) = Inr (ms', raw', next)"
    and "\<forall>(k, b) \<in> set es. prefix pre k"
  shows "(next = None \<and> ms' = ms @ live_values C now es) \<or>
    (\<exists>seen k b rest. next = Some k \<and> es = seen @ (k, b) # rest \<and> ms' = ms @ live_values C now seen \<and>
      (raw < page \<longrightarrow> seen \<noteq> []))"
  using assms
proof (induction es arbitrary: ms raw)
  case (Cons e es)
  obtain k b where e: "e = (k, b)" by (cases e)
  show ?case
  proof (cases "raw \<ge> page")
    case True
    with Cons.prems e have "next = Some k \<and> ms' = ms"
      by (auto simp: visit_then_def smembers_page_visit_def)
    with True e show ?thesis
      by (intro disjI2 exI[of _ "[] :: (bytes \<times> bytes) list"] exI[of _ k] exI[of _ b] exI[of _ es]) simp
  next
    case False
    let ?new = "case live now (str_record C (Some b)) of Some v \<Rightarrow> [v] | None \<Rightarrow> []"
    have "scan_list (smembers_page_visit C pre page now) es (ms @ ?new, raw + 1, None) = Inr (ms', raw', next)"
      using Cons.prems False e
      by (auto simp: visit_then_def smembers_page_visit_prefix split: sum.splits)
    from Cons.IH[OF this] Cons.prems(2) consider
      "next = None" "ms' = (ms @ ?new) @ live_values C now es"
      | seen k' b' rest where "next = Some k'" "es = seen @ (k', b') # rest"
        "ms' = (ms @ ?new) @ live_values C now seen" by auto
    then show ?thesis
    proof cases
      case 1
      then show ?thesis using e by simp
    next
      case 2
      then show ?thesis using e
        by (intro disjI2 exI[of _ "e # seen"] exI[of _ k'] exI[of _ b'] exI[of _ rest]) simp
    qed
  qed
qed simp

section \<open>The abstract store\<close>

record store_state =
  s_now :: u64
  s_view :: sview
  s_raw :: "cf \<Rightarrow> bytes set"

definition put_st :: "cf \<Rightarrow> bytes \<Rightarrow> string \<Rightarrow> u64 \<Rightarrow> store_state \<Rightarrow> store_state" where
  "put_st cf k v ttl s =
     s\<lparr> s_view := (s_view s)(cf := (s_view s cf)(k \<mapsto> (v, expiry_at (s_now s) ttl))),
        s_raw := (s_raw s)(cf := insert k (s_raw s cf)) \<rparr>"

definition del_st :: "cf \<Rightarrow> bytes \<Rightarrow> store_state \<Rightarrow> store_state" where
  "del_st cf k s =
     s\<lparr> s_view := (s_view s)(cf := (s_view s cf)(k := None)),
        s_raw := (s_raw s)(cf := s_raw s cf - {k}) \<rparr>"

definition live_st :: "store_state \<Rightarrow> cf \<Rightarrow> bytes \<Rightarrow> string option" where
  "live_st s cf k = live (s_now s) (s_view s cf k)"

definition live_members :: "store_state \<Rightarrow> cf \<Rightarrow> bytes \<Rightarrow> string set" where
  "live_members s cf key = {v. \<exists>x. live_st s cf (member_key key x) = Some v}"

text \<open>The live values of a set whose raw keys lie between two cursors.\<close>

definition page_members :: "store_state \<Rightarrow> cf \<Rightarrow> bytes \<Rightarrow> bytes \<Rightarrow> bytes option \<Rightarrow> string set" where
  "page_members s cf key lo up =
     {v. \<exists>k. prefix (member_prefix key) k \<and> in_key_range lo up k \<and> live_st s cf k = Some v}"

definition page_start :: "bytes \<Rightarrow> bytes option \<Rightarrow> bytes" where
  "page_start key cursor = (case cursor of Some c \<Rightarrow> c | None \<Rightarrow> member_prefix key)"

lemma put_st_simps [simp]:
  "s_now (put_st cf k v ttl s) = s_now s"
  "s_view (put_st cf k v ttl s) = (s_view s)(cf := (s_view s cf)(k \<mapsto> (v, expiry_at (s_now s) ttl)))"
  "s_raw (put_st cf k v ttl s) = (s_raw s)(cf := insert k (s_raw s cf))"
  by (simp_all add: put_st_def)

lemma del_st_simps [simp]:
  "s_now (del_st cf k s) = s_now s"
  "s_view (del_st cf k s) = (s_view s)(cf := (s_view s cf)(k := None))"
  "s_raw (del_st cf k s) = (s_raw s)(cf := s_raw s cf - {k})"
  by (simp_all add: del_st_def)

section \<open>The interfaces\<close>

locale store_reads =
  fixes T :: "'t store_txn" and ok :: "'t \<Rightarrow> bool" and st :: "'t \<Rightarrow> store_state"
  assumes now_law: "now_ms T t = s_now (st t)"
    and raw_finite: "ok t \<Longrightarrow> finite (s_raw (st t) cf)"
    and raw_view: "ok t \<Longrightarrow> s_view (st t) cf k \<noteq> None \<Longrightarrow> k \<in> s_raw (st t) cf"
    and get_str_law: "\<lbrakk>ok t; cf \<noteq> CF_EXPIRY; get_str T cf k t = Inr (r, t')\<rbrakk>
      \<Longrightarrow> ok t' \<and> st t' = st t \<and> r = live_st (st t) cf k"
    and smembers_limited_law: "\<lbrakk>ok t; cf \<noteq> CF_EXPIRY; smembers_limited T cf k limit t = Inr (ms, t')\<rbrakk>
      \<Longrightarrow> ok t' \<and> st t' = st t \<and> set ms = live_members (st t) cf k \<and> length ms \<le> limit"
    and smembers_page_law: "\<lbrakk>ok t; cf \<noteq> CF_EXPIRY; member_prefix k \<le> page_start k cursor;
        smembers_page T cf k cursor page t = Inr ((ms, next), t')\<rbrakk>
      \<Longrightarrow> ok t' \<and> st t' = st t \<and> set ms = page_members (st t) cf k (page_start k cursor) next \<and>
          (\<forall>n. next = Some n \<longrightarrow> prefix (member_prefix k) n \<and>
             (0 < page \<longrightarrow> (\<exists>x \<in> s_raw (st t) cf. in_key_range (page_start k cursor) next x)))"
    and sismember_law: "\<lbrakk>ok t; cf \<noteq> CF_EXPIRY; sismember T cf k m t = Inr (b, t')\<rbrakk>
      \<Longrightarrow> ok t' \<and> st t' = st t \<and> (b \<longleftrightarrow> live_st (st t) cf (member_key k m) \<noteq> None)"
    and has_live_member_law: "\<lbrakk>ok t; cf \<noteq> CF_EXPIRY; has_live_member T cf k t = Inr (b, t')\<rbrakk>
      \<Longrightarrow> ok t' \<and> st t' = st t \<and> (b \<longleftrightarrow> live_members (st t) cf k \<noteq> {})"

locale store_writes = store_reads +
  assumes set_str_law: "\<lbrakk>ok t; cf \<noteq> CF_EXPIRY; set_str T cf k v ttl t = Inr (u, t')\<rbrakk>
      \<Longrightarrow> ok t' \<and> st t' = put_st cf k v ttl (st t)"
    and pexpire_str_law: "\<lbrakk>ok t; cf \<noteq> CF_EXPIRY; pexpire_str T cf k ttl t = Inr (u, t')\<rbrakk>
      \<Longrightarrow> ok t' \<and> st t' = (case live_st (st t) cf k of Some v \<Rightarrow> put_st cf k v ttl (st t) | None \<Rightarrow> st t)"
    and del_law: "\<lbrakk>ok t; cf \<noteq> CF_EXPIRY; del T cf k t = Inr (u, t')\<rbrakk>
      \<Longrightarrow> ok t' \<and> st t' = del_st cf k (st t)"
    and sadd_law: "\<lbrakk>ok t; cf \<noteq> CF_EXPIRY; sadd T cf k m ttl t = Inr (u, t')\<rbrakk>
      \<Longrightarrow> ok t' \<and> st t' = put_st cf (member_key k m) m ttl (st t)"
    and srem_law: "\<lbrakk>ok t; cf \<noteq> CF_EXPIRY; srem T cf k m t = Inr (u, t')\<rbrakk>
      \<Longrightarrow> ok t' \<and> st t' = del_st cf (member_key k m) (st t)"

text \<open>A read-only transaction drops the deletions of lazy cleanup and refuses every other write.\<close>

locale store_read_only = store_reads +
  assumes del_noop: "del T cf k t = Inr ((), t)"
    and srem_noop: "srem T cf k m t = Inr ((), t)"
    and set_str_refused: "set_str T cf k v ttl t = Inl ReadOnlyTxn"
    and pexpire_str_refused: "pexpire_str T cf k ttl t = Inl ReadOnlyTxn"
    and sadd_refused: "sadd T cf k m ttl t = Inl ReadOnlyTxn"

section \<open>The scans of the three transactions\<close>

text \<open>What a group sees of a column family through an overlay and an optional snapshot.\<close>

definition merged_view ::
    "('db \<Rightarrow> cf \<Rightarrow> (bytes, bytes) omap) \<Rightarrow> 'db \<Rightarrow> 'db option \<Rightarrow> overlay option \<Rightarrow> group_id \<Rightarrow> cf \<Rightarrow> (bytes, bytes) omap" where
  "merged_view cts db snapshot ov g cf =
     group_view g (om_merge (cts (case snapshot of Some sn \<Rightarrow> sn | None \<Rightarrow> db) cf)
       (case ov of Some m \<Rightarrow> m | None \<Rightarrow> om_empty))"

lemma member_prefix_group: "member_prefix (group_key g key) = group_key g (member_prefix key)"
  by (simp add: member_prefix_def group_key_def)

lemma member_upper_group: "member_upper (group_key g key) = group_key g (member_upper key)"
  by (simp add: member_upper_def group_key_def)

lemma prefix_upper_bound_scoped:
  "prefix_upper_bound (group_key g (member_prefix key)) = Some (group_key g (member_upper key))"
  by (simp flip: member_prefix_group member_upper_group add: prefix_upper_bound_member)

lemma live_values_scope [simp]: "live_values C now (map (scope_entry g) es) = live_values C now es"
  by (induction es) (auto simp: scope_entry_def)

lemma scoped_scan:
  assumes "rocksdb_ok R cts"
    and "scan_with_overlay R db cf ov snapshot (Some (group_key g lo)) (Some (group_key g up)) visit s = Inr s'"
  shows "scan_list visit (map (scope_entry g) (range_entries (merged_view cts db snapshot ov g cf) (Some lo) (Some up))) s
    = Inr s'"
proof -
  have "Some (group_key g lo) = Some (scoped_lo g (Some lo))" and "Some (group_key g up) = scoped_up g (Some up)"
    by (simp_all add: scoped_lo_def scoped_up_def)
  with scan_with_overlay_scan_list[OF assms] show ?thesis
    by (simp add: group_range_entries merged_view_def)
qed

lemma prefix_scope_entries:
  assumes "\<And>k b. (k, b) \<in> set es \<Longrightarrow> prefix pre k"
  shows "\<forall>(k, b) \<in> set (map (scope_entry g) es). prefix (group_key g pre) k"
  using assms by (fastforce simp: scope_entry_def group_key_def)

lemma prefix_set_entries:
  "\<forall>(k, b) \<in> set (map (scope_entry g) (set_entries key m)). prefix (group_key g (member_prefix key)) k"
  by (rule prefix_scope_entries) (rule set_entries_prefix)

lemma smembers_limited_impl_view:
  assumes R: "rocksdb_ok R cts"
    and scan: "smembers_limited_impl R C db cf ov snapshot (group_key g key) limit now = Inr ms"
  shows "ms = live_values C now (set_entries key (merged_view cts db snapshot ov g cf))"
    and "length ms \<le> limit"
proof -
  let ?pre = "group_key g (member_prefix key)"
  obtain raw where "scan_with_overlay R db cf ov snapshot (Some ?pre) (Some (group_key g (member_upper key)))
    (smembers_limited_visit C ?pre limit now) ([], 0, False) = Inr (ms, raw, False)"
    using scan by (auto simp: smembers_limited_impl_def Let_def prefix_upper_bound_scoped
        member_prefix_group split: sum.splits if_splits prod.splits)
  then have "ms = [] @ live_values C now (map (scope_entry g) (set_entries key (merged_view cts db snapshot ov g cf)))
    \<and> length ms \<le> limit"
    by (rule scan_smembers_limited[OF scoped_scan[OF R] prefix_set_entries]) simp
  then show "ms = live_values C now (set_entries key (merged_view cts db snapshot ov g cf))"
    and "length ms \<le> limit" unfolding append_Nil live_values_scope by blast+
qed

lemma has_live_member_impl_view:
  assumes R: "rocksdb_ok R cts"
    and scan: "has_live_member_impl R C db cf ov snapshot (group_key g key) now = Inr r"
  shows "r \<longleftrightarrow> live_values C now (set_entries key (merged_view cts db snapshot ov g cf)) \<noteq> []"
proof -
  let ?pre = "group_key g (member_prefix key)"
  have "scan_with_overlay R db cf ov snapshot (Some ?pre) (Some (group_key g (member_upper key)))
    (has_live_member_visit C ?pre now) False = Inr r"
    using scan by (simp add: has_live_member_impl_def Let_def prefix_upper_bound_scoped
        member_prefix_group)
  from scan_has_live_member[OF scoped_scan[OF R this]] prefix_set_entries
  show ?thesis by (simp del: set_map)
qed

lemma range_entries_split:
  assumes "range_entries m (Some lo) (Some up) = seen @ (k, b) # rest"
  shows "seen = range_entries m (Some lo) (Some k)" and "k < up" and "lo \<le> k"
    and "om_lookup m k = Some b"
proof -
  let ?es = "range_entries m (Some lo) (Some up)"
  have "(k, b) \<in> set ?es" using assms by simp
  then show up: "k < up" and "lo \<le> k" and "om_lookup m k = Some b"
    by (auto simp: range_entries_def in_bounds_def om_entries_iff)
  have "sorted_wrt (<) (map fst (seen @ (k, b) # rest))"
    using range_entries_sorted[of m "Some lo" "Some up"] by (simp only: assms)
  then have "\<forall>e \<in> set seen. fst e < k" and "\<forall>e \<in> set rest. \<not> fst e < k"
    by (auto simp: sorted_wrt_append dest: less_asym)
  then have "filter (\<lambda>e. fst e < k) seen = seen" and "filter (\<lambda>e. fst e < k) rest = []"
    by (simp_all add: filter_id_conv filter_empty_conv)
  then have "filter (\<lambda>(x, _). x < k) (seen @ (k, b) # rest) = seen"
    by (simp add: case_prod_unfold)
  then have "seen = filter (\<lambda>(x, _). x < k) ?es" by (simp only: assms)
  also have "\<dots> = range_entries m (Some lo) (Some k)"
    using up by (auto simp: range_entries_def in_bounds_def intro!: filter_cong)
  finally show "seen = range_entries m (Some lo) (Some k)" .
qed

lemma in_page_values:
  assumes "member_prefix key \<le> lo" and "up \<le> member_upper key"
  shows "v \<in> set (live_values C now (range_entries m (Some lo) (Some up))) \<longleftrightarrow>
    (\<exists>k. prefix (member_prefix key) k \<and> lo \<le> k \<and> k < up \<and> live now (str_record C (om_lookup m k)) = Some v)"
proof -
  have pre: "lo \<le> k \<Longrightarrow> k < up \<Longrightarrow> prefix (member_prefix key) k" for k
    using assms member_range[of key k] by (auto simp: in_bounds_def)
  have "v \<in> set (live_values C now (range_entries m (Some lo) (Some up))) \<longleftrightarrow>
    (\<exists>k b. (k, b) \<in> set (range_entries m (Some lo) (Some up)) \<and> live now (str_record C (Some b)) = Some v)"
    by (force simp: live_values_def split: option.splits)
  also have "\<dots> \<longleftrightarrow> (\<exists>k. lo \<le> k \<and> k < up \<and> live now (str_record C (om_lookup m k)) = Some v)"
  proof -
    have "(\<exists>b. (k, b) \<in> set (range_entries m (Some lo) (Some up)) \<and> live now (str_record C (Some b)) = Some v)
      \<longleftrightarrow> lo \<le> k \<and> k < up \<and> live now (str_record C (om_lookup m k)) = Some v" for k
      by (cases "om_lookup m k") (auto simp: range_entries_def in_bounds_def om_entries_iff)
    then show ?thesis by blast
  qed
  finally show ?thesis using pre by blast
qed

lemma smembers_page_impl_view:
  assumes R: "rocksdb_ok R cts"
    and lo: "member_prefix key \<le> page_start key cursor"
    and scan: "smembers_page_impl R C db cf ov snapshot (group_key g key)
      (map_option (group_key g) cursor) page now = Inr (ms, next)"
  defines "m \<equiv> merged_view cts db snapshot ov g cf"
  shows "\<exists>up. ms = live_values C now (range_entries m (Some (page_start key cursor)) (Some up)) \<and>
    (next = None \<and> up = member_upper key \<or>
     next = Some (group_key g up) \<and> up < member_upper key \<and> page_start key cursor \<le> up \<and>
       om_lookup m up \<noteq> None \<and>
       (0 < page \<longrightarrow> range_entries m (Some (page_start key cursor)) (Some up) \<noteq> []))"
proof -
  let ?pre = "group_key g (member_prefix key)" and ?lo = "page_start key cursor"
  let ?es = "range_entries m (Some ?lo) (Some (member_upper key))"
  have start: "(case cursor of None \<Rightarrow> ?pre | Some x \<Rightarrow> ((\<lambda>c. c) \<circ> group_key g) x) = group_key g ?lo"
    by (simp add: page_start_def split: option.split)
  obtain raw where "scan_with_overlay R db cf ov snapshot (Some (group_key g ?lo))
    (Some (group_key g (member_upper key))) (smembers_page_visit C ?pre page now) ([], 0, None)
      = Inr (ms, raw, next)"
    using scan by (auto simp: smembers_page_impl_def Let_def prefix_upper_bound_scoped
        member_prefix_group start split: sum.splits prod.splits)
  note es = scoped_scan[OF R this, folded m_def]
  have "\<forall>(k, b) \<in> set (map (scope_entry g) ?es). prefix ?pre k"
  proof (rule prefix_scope_entries)
    fix k b assume "(k, b) \<in> set ?es"
    with lo show "prefix (member_prefix key) k"
      using member_range[of key k] by (auto simp: range_entries_def in_bounds_def)
  qed
  from scan_smembers_page[OF es this] consider
    "next = None" "ms = live_values C now ?es"
    | seen k b rest where "next = Some k" "map (scope_entry g) ?es = seen @ (k, b) # rest"
      "ms = live_values C now seen" "0 < page \<longrightarrow> seen \<noteq> []" by auto
  then show ?thesis
  proof cases
    case 1
    then show ?thesis by blast
  next
    case 2
    from 2(2) obtain seen' kb rest' where split: "?es = seen' @ kb # rest'"
      and seen: "seen = map (scope_entry g) seen'" and kb: "(k, b) = scope_entry g kb"
      by (auto simp: map_eq_append_conv)
    obtain k' b' where kb': "kb = (k', b')" by (cases kb)
    note facts = range_entries_split[OF split[unfolded kb']]
    have "k = group_key g k'" using kb kb' by (simp add: scope_entry_def)
    with facts 2 seen show ?thesis by (intro exI[of _ k']) (auto simp: facts(1))
  qed
qed

section \<open>What a view of the database shows\<close>

definition view_state :: "'c codec_scheme \<Rightarrow> u64 \<Rightarrow> (cf \<Rightarrow> (bytes, bytes) omap) \<Rightarrow> store_state" where
  "view_state C now m =
     \<lparr> s_now = now, s_view = str_view C m,
       s_raw = (\<lambda>cf. if cf = CF_EXPIRY then {} else dom (om_lookup (m cf))) \<rparr>"

lemma finite_om_dom [simp]: "finite (dom (om_lookup m))"
  by (simp add: om_lookup_def finite_dom_map_of)

lemma view_state_now [simp]: "s_now (view_state C now m) = now"
  by (simp add: view_state_def)

lemma view_state_raw:
  "finite (s_raw (view_state C now m) cf)"
  "s_view (view_state C now m) cf k \<noteq> None \<Longrightarrow> k \<in> s_raw (view_state C now m) cf"
  by (auto simp: view_state_def str_view_def str_record_def split: if_splits option.splits)

lemma view_state_live:
  "cf \<noteq> CF_EXPIRY \<Longrightarrow> live_st (view_state C now m) cf k = live now (str_record C (om_lookup (m cf) k))"
  by (simp add: live_st_def view_state_def str_view_def)

lemma set_members_state:
  "cf \<noteq> CF_EXPIRY \<Longrightarrow>
   set (live_values C now (set_entries k (m cf))) = live_members (view_state C now m) cf k"
  by (auto simp: live_members_def in_live_values view_state_live)

lemma smembers_limited_impl_state:
  assumes "rocksdb_ok R cts" and "cf \<noteq> CF_EXPIRY"
    and "smembers_limited_impl R C db cf ov snapshot (group_key g k) limit now = Inr ms"
    and "m cf = merged_view cts db snapshot ov g cf"
  shows "set ms = live_members (view_state C now m) cf k \<and> length ms \<le> limit"
  using smembers_limited_impl_view[OF assms(1,3)] set_members_state[OF assms(2)] assms(4) by metis

lemma has_live_member_impl_state:
  assumes "rocksdb_ok R cts" and "cf \<noteq> CF_EXPIRY"
    and "has_live_member_impl R C db cf ov snapshot (group_key g k) now = Inr b"
    and "m cf = merged_view cts db snapshot ov g cf"
  shows "b \<longleftrightarrow> live_members (view_state C now m) cf k \<noteq> {}"
  using has_live_member_impl_view[OF assms(1,3)] set_members_state[OF assms(2)] assms(4)
  by (metis set_empty)

lemma smembers_page_impl_state:
  assumes R: "rocksdb_ok R cts" and cf: "cf \<noteq> CF_EXPIRY"
    and lo: "member_prefix k \<le> page_start k cursor"
    and impl: "smembers_page_impl R C db cf ov snapshot (group_key g k)
      (map_option (group_key g) cursor) page now = Inr (ms, next')"
    and m: "m cf = merged_view cts db snapshot ov g cf"
    and nx: "next = map_option (drop GROUP_PREFIX_LEN) next'"
  shows "set ms = page_members (view_state C now m) cf k (page_start k cursor) next \<and>
    (\<forall>n. next = Some n \<longrightarrow> prefix (member_prefix k) n \<and>
       (0 < page \<longrightarrow> (\<exists>x \<in> s_raw (view_state C now m) cf. in_key_range (page_start k cursor) next x)))"
proof -
  let ?lo = "page_start k cursor" and ?m = "m cf"
  obtain up where ms: "ms = live_values C now (range_entries ?m (Some ?lo) (Some up))"
    and up: "next' = None \<and> up = member_upper k \<or>
      next' = Some (group_key g up) \<and> up < member_upper k \<and> ?lo \<le> up \<and> om_lookup ?m up \<noteq> None \<and>
      (0 < page \<longrightarrow> range_entries ?m (Some ?lo) (Some up) \<noteq> [])"
    using smembers_page_impl_view[OF R lo impl] unfolding m by blast
  have drop: "drop GROUP_PREFIX_LEN (group_key g x) = x" for g x
    by (simp add: GROUP_PREFIX_LEN_def group_key_def)
  have le: "up \<le> member_upper k" using up by auto
  have in_up: "prefix (member_prefix k) x \<Longrightarrow> x < up \<longleftrightarrow> (case next of None \<Rightarrow> True | Some n \<Rightarrow> x < n)" for x
    using up nx member_range[of k x] by (auto simp: drop in_bounds_def)
  have "set ms = page_members (view_state C now m) cf k ?lo next"
    unfolding ms page_members_def view_state_live[OF cf] in_key_range_def
    using in_page_values[OF lo le, where C = C and now = now and m = ?m] in_up by blast
  moreover have "prefix (member_prefix k) n \<and>
      (0 < page \<longrightarrow> (\<exists>x \<in> s_raw (view_state C now m) cf. in_key_range ?lo next x))" if n: "next = Some n" for n
  proof -
    have "n = up" and up': "up < member_upper k" "?lo \<le> up"
      "0 < page \<longrightarrow> range_entries ?m (Some ?lo) (Some up) \<noteq> []"
      using up nx n by (auto simp: drop)
    moreover have "prefix (member_prefix k) up"
      using up' lo member_range[of k up] by (auto simp: in_bounds_def)
    moreover have "\<exists>x \<in> s_raw (view_state C now m) cf. in_key_range ?lo next x" if pg: "0 < page"
    proof -
      obtain x b where "(x, b) \<in> set (range_entries ?m (Some ?lo) (Some up))"
        using up'(3) pg by (cases "range_entries ?m (Some ?lo) (Some up)") auto
      then have "om_lookup ?m x = Some b" and "in_key_range ?lo (Some up) x"
        by (auto simp: range_entries_def om_entries_iff in_bounds_def in_key_range_def)
      then show ?thesis
        using cf n \<open>n = up\<close> by (intro bexI[of _ x]) (auto simp: view_state_def)
    qed
    ultimately show ?thesis by simp
  qed
  ultimately show ?thesis by blast
qed

section \<open>WriteTxn implements the interface\<close>

definition write_state :: "'c codec_scheme \<Rightarrow> ('db \<Rightarrow> cf \<Rightarrow> (bytes, bytes) omap) \<Rightarrow> 'db write_txn \<Rightarrow> store_state" where
  "write_state C cts t =
     view_state C (wt_now_ms t) (txn_view cts t)"

definition write_ok :: "'db rocksdb \<Rightarrow> 'c codec_scheme \<Rightarrow> ('db \<Rightarrow> cf \<Rightarrow> (bytes, bytes) omap) \<Rightarrow> 'db write_txn \<Rightarrow> bool" where
  "write_ok R C cts t \<longleftrightarrow> codec_ok C \<and> txn_ok R cts t"

lemma write_state_eqI:
  "same_txn t t' \<Longrightarrow> txn_view cts t' = txn_view cts t \<Longrightarrow> write_state C cts t' = write_state C cts t"
  by (simp add: write_state_def same_txn_def)

lemma write_state_live:
  "cf \<noteq> CF_EXPIRY \<Longrightarrow> live_st (write_state C cts t) cf k = live (wt_now_ms t) (str_record C (om_lookup (txn_view cts t cf) k))"
  by (simp add: write_state_def view_state_live)

lemma txn_view_merged: "txn_view cts t cf = merged_view cts (wt_db t) None (wt_overlay t cf) (wt_group t) cf"
  by (simp add: txn_view_def merged_view_def overlay_of_def)

text \<open>A record put under a key, with or without its entry in the expiry index.\<close>

lemma write_expiry_state:
  assumes "write_ok R C cts t" and "write_expiry R C exp cf k t = Inr (u, t')"
  shows "write_ok R C cts t' \<and> same_txn t t' \<and> (\<forall>cf'. cf' \<noteq> CF_EXPIRY \<longrightarrow> txn_view cts t' cf' = txn_view cts t cf')"
  using assms put_raw_view[of R cts t]
  by (auto simp: write_expiry_def write_ok_def Let_def bnd_Inr_iff)

lemma put_record_state:
  assumes ok: "write_ok R C cts t" and cf: "cf \<noteq> CF_EXPIRY"
    and prog: "bnd (lift_res (encode_record C (Str v exp))) (\<lambda>record.
      bnd (put_raw R cf k record) (\<lambda>_. if 0 < ttl then write_expiry R C exp cf k else ret ())) t = Inr (u, t')"
    and exp: "exp = expiry_at (wt_now_ms t) ttl"
  shows "write_ok R C cts t' \<and> write_state C cts t' = put_st cf k v ttl (write_state C cts t)"
proof -
  obtain b t1 where b: "encode_record C (Str v exp) = Inr b" and t1: "put_raw R cf k b t = Inr ((), t1)"
    and rest: "(if 0 < ttl then write_expiry R C exp cf k else ret ()) t1 = Inr (u, t')"
    using prog by (auto simp: bnd_Inr_iff)
  from ok have "txn_ok R cts t" and C: "codec_ok C" by (simp_all add: write_ok_def)
  note put = put_raw_view[OF \<open>txn_ok R cts t\<close> t1]
  have t': "write_ok R C cts t' \<and> same_txn t1 t' \<and> (\<forall>cf'. cf' \<noteq> CF_EXPIRY \<longrightarrow> txn_view cts t' cf' = txn_view cts t1 cf')"
    using rest write_expiry_state[of R C cts t1 exp cf k u t'] put(1) C
    by (auto simp: write_ok_def split: if_splits)
  have "str_record C (Some b) = Some (v, exp)"
    using codec_okD[OF C b] by (simp add: str_record_def)
  then have "write_state C cts t' = put_st cf k v ttl (write_state C cts t)"
    using t' put(2,3) cf exp
    by (auto simp: write_state_def view_state_def put_st_def same_txn_def str_view_def fun_eq_iff)
  with t' show ?thesis by blast
qed

lemma delete_record_state:
  assumes ok: "write_ok R C cts t" and cf: "cf \<noteq> CF_EXPIRY" and del: "delete_raw R cf k t = Inr (u, t')"
  shows "write_ok R C cts t' \<and> write_state C cts t' = del_st cf k (write_state C cts t)"
proof -
  from ok have "txn_ok R cts t" by (simp add: write_ok_def)
  note d = delete_raw_view[OF this del]
  have "write_state C cts t' = del_st cf k (write_state C cts t)"
    using d(2,3) cf by (auto simp: write_state_def view_state_def del_st_def same_txn_def str_view_def fun_eq_iff)
  with d(1) ok show ?thesis by (simp add: write_ok_def)
qed

lemma get_str_state:
  assumes ok: "write_ok R C cts t" and cf: "cf \<noteq> CF_EXPIRY" and get: "write_get_str R C cf k t = Inr (r, t')"
  shows "write_ok R C cts t' \<and> write_state C cts t' = write_state C cts t \<and> r = live_st (write_state C cts t) cf k"
proof -
  obtain v t1 where v: "get_raw R cf k t = Inr (v, t1)" and r: "str_of_value C (wt_now_ms t1) v = Inr r" and "t' = t1"
    using get by (auto simp: write_get_str_def bnd_Inr_iff)
  from ok have "txn_ok R cts t" by (simp add: write_ok_def)
  note g = get_raw_view[OF this v]
  with \<open>t' = t1\<close> ok cf str_of_value_live[OF r] show ?thesis
    by (auto simp: write_ok_def write_state_live same_txn_def intro!: write_state_eqI)
qed

lemma smembers_limited_state:
  assumes cf: "cf \<noteq> CF_EXPIRY" and ok: "write_ok R C cts t"
    and scan: "write_smembers_limited R C cf k limit t = Inr (ms, t')"
  shows "t' = t \<and> set ms = live_members (write_state C cts t) cf k \<and> length ms \<le> limit"
proof -
  from ok have R: "rocksdb_ok R cts" by (simp add: write_ok_def txn_ok_def)
  have t': "t' = t" and impl: "smembers_limited_impl R C (wt_db t) cf (wt_overlay t cf) None
      (group_key (wt_group t) k) limit (wt_now_ms t) = Inr ms"
    using scan by (simp_all add: write_smembers_limited_def scoped_def)
  note members = smembers_limited_impl_state[where m = "txn_view cts t", OF R cf impl]
  show ?thesis unfolding write_state_def using members txn_view_merged t' by blast
qed

lemma has_live_member_state:
  assumes cf: "cf \<noteq> CF_EXPIRY" and ok: "write_ok R C cts t"
    and scan: "write_has_live_member R C cf k t = Inr (b, t')"
  shows "t' = t \<and> (b \<longleftrightarrow> live_members (write_state C cts t) cf k \<noteq> {})"
proof -
  from ok have R: "rocksdb_ok R cts" by (simp add: write_ok_def txn_ok_def)
  have t': "t' = t" and impl: "has_live_member_impl R C (wt_db t) cf (wt_overlay t cf) None
      (group_key (wt_group t) k) (wt_now_ms t) = Inr b"
    using scan by (simp_all add: write_has_live_member_def scoped_def)
  note members = has_live_member_impl_state[where m = "txn_view cts t", OF R cf impl]
  show ?thesis unfolding write_state_def using members txn_view_merged t' by blast
qed

lemma sismember_state:
  assumes cf: "cf \<noteq> CF_EXPIRY" and ok: "write_ok R C cts t"
    and get: "write_sismember R C cf k m t = Inr (b, t')"
  shows "write_ok R C cts t' \<and> write_state C cts t' = write_state C cts t \<and>
    (b \<longleftrightarrow> live_st (write_state C cts t) cf (member_key k m) \<noteq> None)"
proof -
  obtain v t1 where v: "get_raw R cf (member_key k m) t = Inr (v, t1)"
    and r: "is_member_value C (wt_now_ms t1) v = Inr b" and "t' = t1"
    using get by (auto simp: write_sismember_def bnd_Inr_iff)
  from ok have "txn_ok R cts t" by (simp add: write_ok_def)
  note g = get_raw_view[OF this v]
  with \<open>t' = t1\<close> ok cf is_member_value_live[OF r] show ?thesis
    by (auto simp: write_ok_def write_state_live same_txn_def intro!: write_state_eqI)
qed

lemma page_state:
  assumes cf: "cf \<noteq> CF_EXPIRY" and ok: "write_ok R C cts t" and lo: "member_prefix k \<le> page_start k cursor"
    and page: "write_smembers_page R C cf k cursor page t = Inr ((ms, next), t')"
  shows "t' = t \<and> set ms = page_members (write_state C cts t) cf k (page_start k cursor) next \<and>
    (\<forall>n. next = Some n \<longrightarrow> prefix (member_prefix k) n \<and>
       (0 < page \<longrightarrow> (\<exists>x \<in> s_raw (write_state C cts t) cf. in_key_range (page_start k cursor) next x)))"
proof -
  from ok have R: "rocksdb_ok R cts" by (simp add: write_ok_def txn_ok_def)
  obtain next' where impl: "smembers_page_impl R C (wt_db t) cf (wt_overlay t cf) None (group_key (wt_group t) k)
      (map_option (group_key (wt_group t)) cursor) page (wt_now_ms t) = Inr (ms, next')"
    and nx: "next = map_option (drop GROUP_PREFIX_LEN) next'" and t': "t' = t"
    using page by (auto simp: write_smembers_page_def scoped_def map_sum_def split: sum.splits)
  note members = smembers_page_impl_state[where m = "txn_view cts t", OF R cf lo impl _ nx]
  show ?thesis unfolding write_state_def using members txn_view_merged t' by blast
qed

lemma write_store_simps [simp]:
  "now_ms (write_store R C) = wt_now_ms"
  "get_str (write_store R C) = write_get_str R C"
  "set_str (write_store R C) = write_set_str R C"
  "pexpire_str (write_store R C) = write_pexpire_str R C"
  "del (write_store R C) = write_del R"
  "sadd (write_store R C) = write_sadd R C"
  "srem (write_store R C) = write_srem R"
  "smembers_limited (write_store R C) = write_smembers_limited R C"
  "smembers_page (write_store R C) = write_smembers_page R C"
  "sismember (write_store R C) = write_sismember R C"
  "has_live_member (write_store R C) = write_has_live_member R C"
  by (simp_all add: write_store_def)

interpretation wt: store_reads "write_store R C" "write_ok R C cts" "write_state C cts" for R C cts
proof (unfold_locales, unfold write_store_simps)
  show "wt_now_ms t = s_now (write_state C cts t)" for t
    by (simp add: write_state_def)
  show "finite (s_raw (write_state C cts t) cf)" for t cf
    unfolding write_state_def by (rule view_state_raw)
  show "s_view (write_state C cts t) cf k \<noteq> None \<Longrightarrow> k \<in> s_raw (write_state C cts t) cf" for t cf k
    unfolding write_state_def by (rule view_state_raw)
  fix t t' :: "'a write_txn" and cf
  assume ok: "write_ok R C cts t" and cf: "cf \<noteq> CF_EXPIRY"
  show "write_get_str R C cf k t = Inr (r, t') \<Longrightarrow>
    write_ok R C cts t' \<and> write_state C cts t' = write_state C cts t \<and> r = live_st (write_state C cts t) cf k" for k r
    by (rule get_str_state[OF ok cf])
  show "write_smembers_limited R C cf k limit t = Inr (ms, t') \<Longrightarrow>
    write_ok R C cts t' \<and> write_state C cts t' = write_state C cts t \<and>
    set ms = live_members (write_state C cts t) cf k \<and> length ms \<le> limit" for k limit ms
    using smembers_limited_state[OF cf ok, of k limit ms t'] ok by simp
  show "member_prefix k \<le> page_start k cursor \<Longrightarrow>
    write_smembers_page R C cf k cursor page t = Inr ((ms, next), t') \<Longrightarrow>
    write_ok R C cts t' \<and> write_state C cts t' = write_state C cts t \<and>
    set ms = page_members (write_state C cts t) cf k (page_start k cursor) next \<and>
    (\<forall>n. next = Some n \<longrightarrow> prefix (member_prefix k) n \<and>
       (0 < page \<longrightarrow> (\<exists>x\<in>s_raw (write_state C cts t) cf. in_key_range (page_start k cursor) next x)))"
    for k cursor page ms "next"
    using page_state[OF cf ok, of k cursor page ms "next" t'] ok by simp
  show "write_sismember R C cf k m t = Inr (b, t') \<Longrightarrow>
    write_ok R C cts t' \<and> write_state C cts t' = write_state C cts t \<and>
    (b \<longleftrightarrow> live_st (write_state C cts t) cf (member_key k m) \<noteq> None)" for k m b
    by (rule sismember_state[OF cf ok])
  show "write_has_live_member R C cf k t = Inr (b, t') \<Longrightarrow>
    write_ok R C cts t' \<and> write_state C cts t' = write_state C cts t \<and>
    (b \<longleftrightarrow> live_members (write_state C cts t) cf k \<noteq> {})" for k b
    using has_live_member_state[OF cf ok, of k b t'] ok by simp
qed

interpretation wt: store_writes "write_store R C" "write_ok R C cts" "write_state C cts" for R C cts
proof
  fix t t' :: "'a write_txn" and cf k v ttl u m
  assume ok: "write_ok R C cts t" and cf: "cf \<noteq> CF_EXPIRY"
  have set: "write_set_str R C cf k v ttl t = Inr (u, t') \<Longrightarrow>
    write_ok R C cts t' \<and> write_state C cts t' = put_st cf k v ttl (write_state C cts t)"
    if "write_ok R C cts t" for t v
    using put_record_state[OF that cf] by (simp add: write_set_str_def Let_def)
  then show "set_str (write_store R C) cf k v ttl t = Inr (u, t') \<Longrightarrow>
    write_ok R C cts t' \<and> write_state C cts t' = put_st cf k v ttl (write_state C cts t)"
    using ok by simp
  show "pexpire_str (write_store R C) cf k ttl t = Inr (u, t') \<Longrightarrow>
    write_ok R C cts t' \<and> write_state C cts t' =
      (case live_st (write_state C cts t) cf k of
         Some v \<Rightarrow> put_st cf k v ttl (write_state C cts t) | None \<Rightarrow> write_state C cts t)"
  proof -
    assume "pexpire_str (write_store R C) cf k ttl t = Inr (u, t')"
    then obtain r t1 where r: "write_get_str R C cf k t = Inr (r, t1)"
      and rest: "(case r of Some v \<Rightarrow> write_set_str R C cf k v ttl | None \<Rightarrow> ret ()) t1 = Inr (u, t')"
      by (auto simp: write_pexpire_str_def bnd_Inr_iff)
    from get_str_state[OF ok cf r] rest set[of t1] show ?thesis by (auto split: option.splits)
  qed
  show "sadd (write_store R C) cf k m ttl t = Inr (u, t') \<Longrightarrow>
    write_ok R C cts t' \<and> write_state C cts t' = put_st cf (member_key k m) m ttl (write_state C cts t)"
    using put_record_state[OF ok cf] by (simp add: write_sadd_def Let_def)
qed (use delete_record_state in \<open>unfold write_store_simps write_del_def write_srem_def, blast+\<close>)

section \<open>RocksDbTxn and SnapshotTxn implement the read-only interface\<close>

text \<open>Both read committed state only: the view of a group of the database, or of the snapshot.\<close>

definition committed_view :: "('db \<Rightarrow> cf \<Rightarrow> (bytes, bytes) omap) \<Rightarrow> 'db \<Rightarrow> group_id \<Rightarrow> cf \<Rightarrow> (bytes, bytes) omap" where
  "committed_view cts d g cf = group_view g (cts d cf)"

definition rocks_state :: "'c codec_scheme \<Rightarrow> ('db \<Rightarrow> cf \<Rightarrow> (bytes, bytes) omap) \<Rightarrow> 'db rocks_txn \<Rightarrow> store_state" where
  "rocks_state C cts t = view_state C (rt_now_ms t) (committed_view cts (rt_db t) (rt_group t))"

definition snapshot_state :: "'c codec_scheme \<Rightarrow> ('db \<Rightarrow> cf \<Rightarrow> (bytes, bytes) omap) \<Rightarrow> 'db snapshot_txn \<Rightarrow> store_state" where
  "snapshot_state C cts t = view_state C (sn_now_ms t) (committed_view cts (sn_snapshot t) (sn_group t))"

lemma committed_merged:
  "committed_view cts d g cf = merged_view cts d None None g cf"
  "committed_view cts d g cf = merged_view cts db (Some d) None g cf"
  by (simp_all add: committed_view_def merged_view_def)

lemma committed_get:
  assumes "rocksdb_ok R cts" and "cf \<noteq> CF_EXPIRY" and "get_cf R d cf (group_key g k) = Inr v"
  shows "live_st (view_state C now (committed_view cts d g)) cf k = live now (str_record C v)"
  using rocksdb_okD(1)[OF assms(1,3)] by (simp add: view_state_live[OF assms(2)] committed_view_def)

lemma rocks_store_simps [simp]:
  "now_ms (rocks_store R C) = rt_now_ms"
  "get_str (rocks_store R C) = rocks_get_str R C"
  "smembers_limited (rocks_store R C) = rocks_smembers_limited R C"
  "smembers_page (rocks_store R C) = rocks_smembers_page R C"
  "sismember (rocks_store R C) = rocks_sismember R C"
  "has_live_member (rocks_store R C) = rocks_has_live_member R C"
  by (simp_all add: rocks_store_def)

lemma snapshot_store_simps [simp]:
  "now_ms (snapshot_store R C) = sn_now_ms"
  "get_str (snapshot_store R C) = snap_get_str R C"
  "smembers_limited (snapshot_store R C) = snap_smembers_limited R C"
  "smembers_page (snapshot_store R C) = snap_smembers_page R C"
  "sismember (snapshot_store R C) = snap_sismember R C"
  "has_live_member (snapshot_store R C) = snap_has_live_member R C"
  by (simp_all add: snapshot_store_def)

interpretation rt: store_read_only "rocks_store R C" "\<lambda>t. rocksdb_ok R cts" "rocks_state C cts" for R C cts
proof (unfold_locales, unfold rocks_store_simps)
  show "rt_now_ms t = s_now (rocks_state C cts t)" for t
    by (simp add: rocks_state_def)
  show "finite (s_raw (rocks_state C cts t) cf)" for t cf
    unfolding rocks_state_def by (rule view_state_raw)
  show "s_view (rocks_state C cts t) cf k \<noteq> None \<Longrightarrow> k \<in> s_raw (rocks_state C cts t) cf" for t cf k
    unfolding rocks_state_def by (rule view_state_raw)
  fix t t' :: "'a rocks_txn" and cf
  assume R: "rocksdb_ok R cts" and cf: "cf \<noteq> CF_EXPIRY"
  let ?m = "committed_view cts (rt_db t) (rt_group t)"
  note st = rocks_state_def[of C cts t] and get = committed_get[OF R cf, of "rt_db t" "rt_group t"]
  show "rocks_get_str R C cf k t = Inr (r, t') \<Longrightarrow>
    rocksdb_ok R cts \<and> rocks_state C cts t' = rocks_state C cts t \<and> r = live_st (rocks_state C cts t) cf k" for k r
    using R by (auto simp: rocks_get_str_def st dest!: str_of_value_live split: if_splits sum.splits) (metis get)
  show "rocks_sismember R C cf k m t = Inr (b, t') \<Longrightarrow>
    rocksdb_ok R cts \<and> rocks_state C cts t' = rocks_state C cts t \<and>
    (b \<longleftrightarrow> live_st (rocks_state C cts t) cf (member_key k m) \<noteq> None)" for k m b
    using R by (simp add: rocks_sismember_def st split: if_splits sum.splits)
      (metis get is_member_value_live option.exhaust option.distinct(1))
  show "rocks_smembers_limited R C cf k limit t = Inr (ms, t') \<Longrightarrow>
    rocksdb_ok R cts \<and> rocks_state C cts t' = rocks_state C cts t \<and>
    set ms = live_members (rocks_state C cts t) cf k \<and> length ms \<le> limit" for k limit ms
    using R smembers_limited_impl_state[where m = ?m, OF R cf _ committed_merged(1)]
    by (simp add: rocks_smembers_limited_def st) blast
  show "rocks_has_live_member R C cf k t = Inr (b, t') \<Longrightarrow>
    rocksdb_ok R cts \<and> rocks_state C cts t' = rocks_state C cts t \<and>
    (b \<longleftrightarrow> live_members (rocks_state C cts t) cf k \<noteq> {})" for k b
    using R has_live_member_impl_state[where m = ?m, OF R cf _ committed_merged(1)]
    by (simp add: rocks_has_live_member_def st) blast
  show "member_prefix k \<le> page_start k cursor \<Longrightarrow>
    rocks_smembers_page R C cf k cursor page t = Inr ((ms, next), t') \<Longrightarrow>
    rocksdb_ok R cts \<and> rocks_state C cts t' = rocks_state C cts t \<and>
    set ms = page_members (rocks_state C cts t) cf k (page_start k cursor) next \<and>
    (\<forall>n. next = Some n \<longrightarrow> prefix (member_prefix k) n \<and>
       (0 < page \<longrightarrow> (\<exists>x\<in>s_raw (rocks_state C cts t) cf. in_key_range (page_start k cursor) next x)))"
    for k cursor page ms "next"
  proof -
    assume lo: "member_prefix k \<le> page_start k cursor"
      and page: "rocks_smembers_page R C cf k cursor page t = Inr ((ms, next), t')"
    obtain next' where impl: "smembers_page_impl R C (rt_db t) cf None None (group_key (rt_group t) k)
        (map_option (group_key (rt_group t)) cursor) page (rt_now_ms t) = Inr (ms, next')"
      and nx: "next = map_option (drop GROUP_PREFIX_LEN) next'" and t': "t' = t"
      using page by (auto simp: rocks_smembers_page_def map_sum_def split: sum.splits)
    show ?thesis
      unfolding st t' using smembers_page_impl_state[where m = ?m, OF R cf lo impl committed_merged(1) nx] R by simp
  qed
qed (simp_all add: rocks_store_def ret_def fail_def)

interpretation sn: store_read_only "snapshot_store R C" "\<lambda>t. rocksdb_ok R cts" "snapshot_state C cts" for R C cts
proof (unfold_locales, unfold snapshot_store_simps)
  show "sn_now_ms t = s_now (snapshot_state C cts t)" for t
    by (simp add: snapshot_state_def)
  show "finite (s_raw (snapshot_state C cts t) cf)" for t cf
    unfolding snapshot_state_def by (rule view_state_raw)
  show "s_view (snapshot_state C cts t) cf k \<noteq> None \<Longrightarrow> k \<in> s_raw (snapshot_state C cts t) cf" for t cf k
    unfolding snapshot_state_def by (rule view_state_raw)
  fix t t' :: "'a snapshot_txn" and cf
  assume R: "rocksdb_ok R cts" and cf: "cf \<noteq> CF_EXPIRY"
  let ?m = "committed_view cts (sn_snapshot t) (sn_group t)"
  note st = snapshot_state_def[of C cts t] and get = committed_get[OF R cf, of "sn_snapshot t" "sn_group t"]
    and view = committed_merged(2)[of cts "sn_snapshot t" "sn_group t" cf "sn_db t"]
  show "snap_get_str R C cf k t = Inr (r, t') \<Longrightarrow>
    rocksdb_ok R cts \<and> snapshot_state C cts t' = snapshot_state C cts t \<and> r = live_st (snapshot_state C cts t) cf k" for k r
    using R by (auto simp: snap_get_str_def st dest!: str_of_value_live split: if_splits sum.splits) (metis get)
  show "snap_sismember R C cf k m t = Inr (b, t') \<Longrightarrow>
    rocksdb_ok R cts \<and> snapshot_state C cts t' = snapshot_state C cts t \<and>
    (b \<longleftrightarrow> live_st (snapshot_state C cts t) cf (member_key k m) \<noteq> None)" for k m b
    using R by (simp add: snap_sismember_def st split: if_splits sum.splits)
      (metis get is_member_value_live option.exhaust option.distinct(1))
  show "snap_smembers_limited R C cf k limit t = Inr (ms, t') \<Longrightarrow>
    rocksdb_ok R cts \<and> snapshot_state C cts t' = snapshot_state C cts t \<and>
    set ms = live_members (snapshot_state C cts t) cf k \<and> length ms \<le> limit" for k limit ms
    using R smembers_limited_impl_state[where m = ?m, OF R cf _ view]
    by (simp add: snap_smembers_limited_def st) blast
  show "snap_has_live_member R C cf k t = Inr (b, t') \<Longrightarrow>
    rocksdb_ok R cts \<and> snapshot_state C cts t' = snapshot_state C cts t \<and>
    (b \<longleftrightarrow> live_members (snapshot_state C cts t) cf k \<noteq> {})" for k b
    using R has_live_member_impl_state[where m = ?m, OF R cf _ view]
    by (simp add: snap_has_live_member_def st) blast
  show "member_prefix k \<le> page_start k cursor \<Longrightarrow>
    snap_smembers_page R C cf k cursor page t = Inr ((ms, next), t') \<Longrightarrow>
    rocksdb_ok R cts \<and> snapshot_state C cts t' = snapshot_state C cts t \<and>
    set ms = page_members (snapshot_state C cts t) cf k (page_start k cursor) next \<and>
    (\<forall>n. next = Some n \<longrightarrow> prefix (member_prefix k) n \<and>
       (0 < page \<longrightarrow> (\<exists>x\<in>s_raw (snapshot_state C cts t) cf. in_key_range (page_start k cursor) next x)))"
    for k cursor page ms "next"
  proof -
    assume lo: "member_prefix k \<le> page_start k cursor"
      and page: "snap_smembers_page R C cf k cursor page t = Inr ((ms, next), t')"
    obtain next' where impl: "smembers_page_impl R C (sn_db t) cf None (Some (sn_snapshot t)) (group_key (sn_group t) k)
        (map_option (group_key (sn_group t)) cursor) page (sn_now_ms t) = Inr (ms, next')"
      and nx: "next = map_option (drop GROUP_PREFIX_LEN) next'" and t': "t' = t"
      using page by (auto simp: snap_smembers_page_def map_sum_def split: sum.splits)
    show ?thesis
      unfolding st t' using smembers_page_impl_state[where m = ?m, OF R cf lo impl view nx] R by simp
  qed
qed (simp_all add: snapshot_store_def ret_def fail_def)

end
