(* ===== verification/Lock_Table.thy ===== *)
theory Lock_Table
  imports Engine Store_Interface
begin

text \<open>
  The lock table behind the store: the write, read and semaphore holders of every path, the
  descendant indexes, the hold sets, algorithms, capacities and fences, read off the records of a
  transaction. For every access the engine makes to the store there is one lemma that says what it
  returns and how it changes the table; the proofs about the engine use nothing else of the store.
\<close>

section \<open>The table\<close>

text \<open>
  Paths and owners of requests contain no NUL byte (the service refuses them), and only then are
  the keys of different paths and owners apart; the table is empty elsewhere.
\<close>

abbreviation nul_free :: "string \<Rightarrow> bool" where
  "nul_free x \<equiv> NUL \<notin> set x"

record lock_table =
  l_wr :: "string \<Rightarrow> string option"
  l_rd :: "string \<Rightarrow> string set"
  l_sem :: "string \<Rightarrow> string set"
  l_wrd :: "string \<Rightarrow> string set"
  l_rdd :: "string \<Rightarrow> string set"
  l_own :: "string \<Rightarrow> string set"
  l_alg :: "string \<Rightarrow> mode \<Rightarrow> string \<Rightarrow> string option"
  l_cap :: "string \<Rightarrow> string option"
  l_fence :: "string \<Rightarrow> string option"
  l_alive :: "string \<Rightarrow> bool"
  l_hold_keys :: "bytes set"
  l_now :: u64

definition record_of :: "store_state \<Rightarrow> cf \<Rightarrow> bytes \<Rightarrow> string option" where
  "record_of s cf k = map_option fst (s_view s cf k)"

definition members_of :: "store_state \<Rightarrow> cf \<Rightarrow> string \<Rightarrow> string set" where
  "members_of s cf q = (if nul_free q then {m. s_view s cf (member_key (q @ [NUL]) m) \<noteq> None} else {})"

definition table :: "store_state \<Rightarrow> lock_table" where
  "table s =
     \<lparr> l_wr = (\<lambda>q. if nul_free q then record_of s CF_WRITE_LOCKS (wr_key q) else None),
       l_rd = members_of s CF_READ_LOCKS,
       l_sem = members_of s CF_SEMAPHORE,
       l_wrd = members_of s CF_DESC_WRITE,
       l_rdd = members_of s CF_DESC_READ,
       l_own = members_of s CF_OWNER_HOLDS,
       l_alg = (\<lambda>o' m q. if nul_free o' \<and> nul_free q
                 then record_of s CF_META (hold_algorithm_key o' (mode_str m) q) else None),
       l_cap = (\<lambda>q. if nul_free q then record_of s CF_META (semaphore_permits_key q) else None),
       l_fence = (\<lambda>q. if nul_free q then record_of s CF_FENCES (fence_key q) else None),
       l_alive = (\<lambda>o'. nul_free o' \<and> live_st s CF_OWNER_ALIVE (alive_key o') \<noteq> None),
       l_hold_keys = s_raw s CF_OWNER_HOLDS,
       l_now = s_now s \<rparr>"

text \<open>
  The records behind the table never expire, a set member is stored under its own name, and the
  holders named by records are NUL-free.
\<close>

definition set_coherent :: "(string \<Rightarrow> bool) \<Rightarrow> store_state \<Rightarrow> cf \<Rightarrow> bool" where
  "set_coherent P s cf \<longleftrightarrow>
     (\<forall>q m v e. nul_free q \<longrightarrow> s_view s cf (member_key (q @ [NUL]) m) = Some (v, e) \<longrightarrow> v = m \<and> e = 0 \<and> P m)"

definition never_expires :: "(string \<Rightarrow> bool) \<Rightarrow> store_state \<Rightarrow> cf \<Rightarrow> (bytes \<Rightarrow> bool) \<Rightarrow> bool" where
  "never_expires P s cf K \<longleftrightarrow> (\<forall>k v e. K k \<longrightarrow> s_view s cf k = Some (v, e) \<longrightarrow> e = 0 \<and> P v)"

definition lock_meta_key :: "bytes \<Rightarrow> bool" where
  "lock_meta_key k \<longleftrightarrow> prefix ''hold_alg:'' k \<or> prefix ''sem_permits:'' k"

definition member_ok :: "string \<Rightarrow> bool" where
  "member_ok m \<longleftrightarrow> (\<forall>h. parse_member m = Some h \<longrightarrow> nul_free (held_key_path h) \<and> nul_free (hl_path h))"

definition own_keyed :: "store_state \<Rightarrow> bool" where
  "own_keyed s \<longleftrightarrow>
     (\<forall>k v e. s_view s CF_OWNER_HOLDS k = Some (v, e) \<longrightarrow> (\<exists>q. nul_free q \<and> k = member_key (q @ [NUL]) v))"

definition coherent :: "store_state \<Rightarrow> bool" where
  "coherent s \<longleftrightarrow>
     (\<forall>cf \<in> {CF_READ_LOCKS, CF_SEMAPHORE, CF_DESC_WRITE, CF_DESC_READ}. set_coherent nul_free s cf) \<and>
     set_coherent member_ok s CF_OWNER_HOLDS \<and> own_keyed s \<and>
     never_expires nul_free s CF_WRITE_LOCKS nul_free \<and>
     never_expires (\<lambda>_. True) s CF_FENCES nul_free \<and>
     never_expires (\<lambda>_. True) s CF_META lock_meta_key"

section \<open>Keys of the table are apart\<close>

lemma nul_append_eq:
  "nul_free q \<Longrightarrow> nul_free q' \<Longrightarrow> q @ NUL # x = q' @ NUL # x' \<longleftrightarrow> q = q' \<and> x = x'"
proof (induction q arbitrary: q')
  case Nil
  then show ?case by (cases q') auto
next
  case (Cons c q)
  then show ?case by (cases q') auto
qed

lemma member_key_eq [simp]:
  "nul_free q \<Longrightarrow> nul_free q' \<Longrightarrow>
     member_key (q @ [NUL]) m = member_key (q' @ [NUL]) m' \<longleftrightarrow> q = q' \<and> m = m'"
  by (simp add: member_key_def member_prefix_def nul_append_eq)

lemma hold_algorithm_key_eq [simp]:
  "nul_free o' \<Longrightarrow> nul_free o'' \<Longrightarrow>
     hold_algorithm_key o' (mode_str m) q = hold_algorithm_key o'' (mode_str m') q' \<longleftrightarrow> o' = o'' \<and> m = m' \<and> q = q'"
  using mode_str_no_nul[of m] mode_str_no_nul[of m']
  by (auto simp: hold_algorithm_key_def nul_append_eq mode_str_inj)

lemma meta_keys_apart [simp]:
  "hold_algorithm_key o' m q \<noteq> semaphore_permits_key q'"
  "semaphore_permits_key q' \<noteq> hold_algorithm_key o' m q"
  by (simp_all add: hold_algorithm_key_def semaphore_permits_key_def)

lemma semaphore_permits_key_eq [simp]: "semaphore_permits_key q = semaphore_permits_key q' \<longleftrightarrow> q = q'"
  by (simp add: semaphore_permits_key_def)

lemma alive_revoke_apart [simp]: "nul_free o' \<Longrightarrow> alive_key o' \<noteq> revoke_key o''"
  by (auto simp: alive_key_def revoke_key_def)

lemma alive_revokeD: "alive_key o' = revoke_key o'' \<Longrightarrow> NUL \<in> set o'"
  by (auto simp: alive_key_def revoke_key_def)

lemma plain_keys_eq [simp]:
  "wr_key q = wr_key q' \<longleftrightarrow> q = q'"
  "fence_key q = fence_key q' \<longleftrightarrow> q = q'"
  "alive_key q = alive_key q' \<longleftrightarrow> q = q'"
  by (simp_all add: wr_key_def fence_key_def alive_key_def)

lemma set_prefixes:
  "rd_prefix q = q @ [NUL]" "sem_prefix q = q @ [NUL]" "wrdesc_key q = q @ [NUL]"
  "rddesc_prefix q = q @ [NUL]" "own_prefix q = q @ [NUL]"
  by (simp_all add: rd_prefix_def sem_prefix_def wrdesc_key_def rddesc_prefix_def own_prefix_def)

section \<open>Reading the table\<close>

lemma never_expires_live: "never_expires P s cf K \<Longrightarrow> K k \<Longrightarrow> live_st s cf k = record_of s cf k"
  by (auto simp: never_expires_def record_of_def live_st_def live_def expired_def split: option.splits prod.splits)

lemma lock_meta_keys [simp]: "lock_meta_key (hold_algorithm_key o' m q)" "lock_meta_key (semaphore_permits_key q)"
  by (simp_all add: lock_meta_key_def hold_algorithm_key_def semaphore_permits_key_def)

lemma coherent_never_expires:
  assumes "coherent s"
  shows "nul_free q \<Longrightarrow> live_st s CF_WRITE_LOCKS (wr_key q) = l_wr (table s) q"
    and "nul_free q \<Longrightarrow> live_st s CF_FENCES (fence_key q) = l_fence (table s) q"
    and "nul_free q \<Longrightarrow> live_st s CF_META (semaphore_permits_key q) = l_cap (table s) q"
    and "nul_free o' \<Longrightarrow> nul_free q \<Longrightarrow>
      live_st s CF_META (hold_algorithm_key o' (mode_str m) q) = l_alg (table s) o' m q"
  using assms
  by (auto simp: coherent_def table_def wr_key_def fence_key_def intro!: never_expires_live)

lemma set_coherent_live:
  assumes "set_coherent P s cf" and "nul_free q"
  shows "live_st s cf (member_key (q @ [NUL]) m) = (if m \<in> members_of s cf q then Some m else None)"
    and "live_members s cf (q @ [NUL]) = members_of s cf q"
proof -
  show live: "live_st s cf (member_key (q @ [NUL]) m) = (if m \<in> members_of s cf q then Some m else None)" for m
    using assms by (fastforce simp: set_coherent_def members_of_def live_st_def live_def expired_def
        split: option.splits prod.splits)
  show "live_members s cf (q @ [NUL]) = members_of s cf q"
    by (auto simp: live_members_def live split: if_splits)
qed

lemma coherent_sets:
  assumes "coherent s"
  shows "cf \<in> {CF_READ_LOCKS, CF_SEMAPHORE, CF_DESC_WRITE, CF_DESC_READ} \<Longrightarrow> set_coherent nul_free s cf"
    and "set_coherent member_ok s CF_OWNER_HOLDS"
  using assms by (auto simp: coherent_def)

lemma members_of_nul_free:
  "set_coherent P s cf \<Longrightarrow> m \<in> members_of s cf q \<Longrightarrow> nul_free q \<and> P m"
  by (fastforce simp: set_coherent_def members_of_def split: if_splits)

lemma table_sets [simp]:
  "l_rd (table s) = members_of s CF_READ_LOCKS"
  "l_sem (table s) = members_of s CF_SEMAPHORE"
  "l_wrd (table s) = members_of s CF_DESC_WRITE"
  "l_rdd (table s) = members_of s CF_DESC_READ"
  "l_own (table s) = members_of s CF_OWNER_HOLDS"
  by (simp_all add: table_def)

lemma coherent_nul_free:
  assumes "coherent s"
  shows "l_wr (table s) q = Some o' \<Longrightarrow> nul_free q \<and> nul_free o'"
    and "o' \<in> l_rd (table s) q \<Longrightarrow> nul_free q \<and> nul_free o'"
    and "o' \<in> l_sem (table s) q \<Longrightarrow> nul_free q \<and> nul_free o'"
    and "d \<in> l_wrd (table s) q \<Longrightarrow> nul_free q \<and> nul_free d"
    and "d \<in> l_rdd (table s) q \<Longrightarrow> nul_free q \<and> nul_free d"
    and "x \<in> l_own (table s) q \<Longrightarrow> nul_free q \<and> member_ok x"
proof -
  show "l_wr (table s) q = Some o' \<Longrightarrow> nul_free q \<and> nul_free o'"
    using assms by (auto simp: coherent_def table_def record_of_def never_expires_def wr_key_def split: if_splits)
  note sets = coherent_sets[OF assms]
  show "o' \<in> l_rd (table s) q \<Longrightarrow> nul_free q \<and> nul_free o'"
    and "o' \<in> l_sem (table s) q \<Longrightarrow> nul_free q \<and> nul_free o'"
    and "d \<in> l_wrd (table s) q \<Longrightarrow> nul_free q \<and> nul_free d"
    and "d \<in> l_rdd (table s) q \<Longrightarrow> nul_free q \<and> nul_free d"
    unfolding table_sets by (rule members_of_nul_free[OF sets(1)]; simp)+
  show "x \<in> l_own (table s) q \<Longrightarrow> nul_free q \<and> member_ok x"
    unfolding table_sets using members_of_nul_free[OF sets(2)] by blast
qed

section \<open>Writing the table\<close>

lemma members_of_put [simp]:
  "nul_free q \<Longrightarrow> members_of (put_st cf (member_key (q @ [NUL]) m) v ttl s) cf' =
     (if cf' = cf then (members_of s cf)(q := insert m (members_of s cf q)) else members_of s cf')"
  by (auto simp: members_of_def fun_eq_iff)

lemma members_of_del [simp]:
  "nul_free q \<Longrightarrow> members_of (del_st cf (member_key (q @ [NUL]) m) s) cf' =
     (if cf' = cf then (members_of s cf)(q := members_of s cf q - {m}) else members_of s cf')"
  by (auto simp: members_of_def fun_eq_iff)

lemma members_of_other [simp]:
  "cf' \<noteq> cf \<Longrightarrow> members_of (put_st cf k v ttl s) cf' = members_of s cf'"
  "cf' \<noteq> cf \<Longrightarrow> members_of (del_st cf k s) cf' = members_of s cf'"
  by (auto simp: members_of_def fun_eq_iff)

lemma record_of_upd [simp]:
  "record_of (put_st cf k v ttl s) cf' k' = (if cf' = cf \<and> k' = k then Some v else record_of s cf' k')"
  "record_of (del_st cf k s) cf' k' = (if cf' = cf \<and> k' = k then None else record_of s cf' k')"
  by (auto simp: record_of_def)

lemma live_st_upd [simp]:
  "live_st (put_st cf k v ttl s) cf' k' =
     (if cf' = cf \<and> k' = k then live (s_now s) (Some (v, expiry_at (s_now s) ttl)) else live_st s cf' k')"
  "live_st (del_st cf k s) cf' k' = (if cf' = cf \<and> k' = k then None else live_st s cf' k')"
  by (auto simp: live_st_def)

definition used_cfs :: "cf list" where
  "used_cfs =
     [CF_META, CF_WRITE_LOCKS, CF_READ_LOCKS, CF_SEMAPHORE, CF_FENCES, CF_DESC_WRITE, CF_DESC_READ,
      CF_OWNER_ALIVE, CF_OWNER_HOLDS, CF_WAIT_EDGES, CF_NAMESPACE_SETTINGS, CF_EXPIRY, CF_DEDUPE, CF_QUEUE]"

lemma distinct_used_cfs: "distinct used_cfs" "distinct (rev used_cfs)"
  unfolding used_cfs_def by (simp_all add: cf_defs)

lemmas cf_neq [simp] =
  distinct_used_cfs(1)[unfolded used_cfs_def distinct.simps list.set insert_iff empty_iff de_Morgan_disj simp_thms]
  distinct_used_cfs(2)[unfolded used_cfs_def rev.simps append.simps distinct.simps list.set insert_iff empty_iff
    de_Morgan_disj simp_thms]

text \<open>Coherence is kept by every write of the engine.\<close>

lemma set_coherent_other [simp]:
  "cf' \<noteq> cf \<Longrightarrow> set_coherent P (put_st cf k v ttl s) cf' \<longleftrightarrow> set_coherent P s cf'"
  by (simp add: set_coherent_def)

lemma set_coherent_del: "set_coherent P s cf' \<Longrightarrow> set_coherent P (del_st cf k s) cf'"
  by (auto simp: set_coherent_def)

lemma set_coherent_put:
  "set_coherent P s cf \<Longrightarrow> nul_free q \<Longrightarrow> P m \<Longrightarrow>
     set_coherent P (put_st cf (member_key (q @ [NUL]) m) m 0 s) cf"
  by (auto simp: set_coherent_def expiry_at_def)

lemma never_expires_other [simp]:
  "cf' \<noteq> cf \<Longrightarrow> never_expires P (put_st cf k v ttl s) cf' K \<longleftrightarrow> never_expires P s cf' K"
  by (simp add: never_expires_def)

lemma never_expires_del: "never_expires P s cf' K \<Longrightarrow> never_expires P (del_st cf k s) cf' K"
  by (auto simp: never_expires_def)

lemma never_expires_put: "never_expires P s cf K \<Longrightarrow> P v \<Longrightarrow> never_expires P (put_st cf k v 0 s) cf K"
  by (auto simp: never_expires_def expiry_at_def)

lemma own_keyed_simps [simp]:
  "cf \<noteq> CF_OWNER_HOLDS \<Longrightarrow> own_keyed (put_st cf k v ttl s) \<longleftrightarrow> own_keyed s"
  by (simp add: own_keyed_def)

lemma own_keyed_del: "own_keyed s \<Longrightarrow> own_keyed (del_st cf k s)"
  by (auto simp: own_keyed_def)

lemma own_keyed_put: "own_keyed s \<Longrightarrow> nul_free q \<Longrightarrow> own_keyed (put_st CF_OWNER_HOLDS (member_key (q @ [NUL]) m) m ttl s)"
  by (auto simp: own_keyed_def)

lemma coherent_del: "coherent s \<Longrightarrow> coherent (del_st cf k s)"
  unfolding coherent_def by (simp add: set_coherent_del never_expires_del own_keyed_del)

lemma coherent_put_set:
  assumes "coherent s" and "nul_free q" and "nul_free m"
    and cf: "cf \<in> {CF_READ_LOCKS, CF_SEMAPHORE, CF_DESC_WRITE, CF_DESC_READ}"
  shows "coherent (put_st cf (member_key (q @ [NUL]) m) m 0 s)"
proof -
  have "set_coherent nul_free (put_st cf (member_key (q @ [NUL]) m) m 0 s) cf'"
    if "cf' \<in> {CF_READ_LOCKS, CF_SEMAPHORE, CF_DESC_WRITE, CF_DESC_READ}" for cf'
    using coherent_sets(1)[OF assms(1) that] set_coherent_put[OF _ assms(2), of nul_free s cf m] assms(3)
    by (cases "cf' = cf") simp_all
  moreover from cf have "cf \<noteq> CF_OWNER_HOLDS" "cf \<noteq> CF_WRITE_LOCKS" "cf \<noteq> CF_FENCES" "cf \<noteq> CF_META" by auto
  ultimately show ?thesis using assms(1) unfolding coherent_def by auto
qed

lemma coherent_put_own:
  assumes "coherent s" and "nul_free q" and "member_ok m"
  shows "coherent (put_st CF_OWNER_HOLDS (member_key (q @ [NUL]) m) m 0 s)"
  using assms set_coherent_put[of member_ok s CF_OWNER_HOLDS q m] by (simp add: coherent_def own_keyed_put)

lemma coherent_put_record:
  assumes "coherent s"
  shows "nul_free o' \<Longrightarrow> coherent (put_st CF_WRITE_LOCKS k o' 0 s)"
    and "coherent (put_st CF_FENCES k v 0 s)"
    and "coherent (put_st CF_META k v 0 s)"
    and "cf \<in> {CF_OWNER_ALIVE, CF_WAIT_EDGES, CF_NAMESPACE_SETTINGS} \<Longrightarrow> coherent (put_st cf k v ttl s)"
  using assms by (auto simp: coherent_def never_expires_put)

text \<open>The table after a write.\<close>

lemma table_put_set:
  assumes "nul_free q"
  shows "table (put_st CF_READ_LOCKS (member_key (q @ [NUL]) m) v ttl s) =
      (table s)\<lparr>l_rd := (l_rd (table s))(q := insert m (l_rd (table s) q))\<rparr>"
    and "table (put_st CF_SEMAPHORE (member_key (q @ [NUL]) m) v ttl s) =
      (table s)\<lparr>l_sem := (l_sem (table s))(q := insert m (l_sem (table s) q))\<rparr>"
    and "table (put_st CF_DESC_WRITE (member_key (q @ [NUL]) m) v ttl s) =
      (table s)\<lparr>l_wrd := (l_wrd (table s))(q := insert m (l_wrd (table s) q))\<rparr>"
    and "table (put_st CF_DESC_READ (member_key (q @ [NUL]) m) v ttl s) =
      (table s)\<lparr>l_rdd := (l_rdd (table s))(q := insert m (l_rdd (table s) q))\<rparr>"
    and "table (put_st CF_OWNER_HOLDS (member_key (q @ [NUL]) m) v ttl s) =
      (table s)\<lparr>l_own := (l_own (table s))(q := insert m (l_own (table s) q)),
        l_hold_keys := insert (member_key (q @ [NUL]) m) (l_hold_keys (table s))\<rparr>"
  using assms by (simp_all add: table_def cong: if_cong)

lemma table_del_set:
  assumes "nul_free q"
  shows "table (del_st CF_READ_LOCKS (member_key (q @ [NUL]) m) s) =
      (table s)\<lparr>l_rd := (l_rd (table s))(q := l_rd (table s) q - {m})\<rparr>"
    and "table (del_st CF_SEMAPHORE (member_key (q @ [NUL]) m) s) =
      (table s)\<lparr>l_sem := (l_sem (table s))(q := l_sem (table s) q - {m})\<rparr>"
    and "table (del_st CF_DESC_WRITE (member_key (q @ [NUL]) m) s) =
      (table s)\<lparr>l_wrd := (l_wrd (table s))(q := l_wrd (table s) q - {m})\<rparr>"
    and "table (del_st CF_DESC_READ (member_key (q @ [NUL]) m) s) =
      (table s)\<lparr>l_rdd := (l_rdd (table s))(q := l_rdd (table s) q - {m})\<rparr>"
    and "table (del_st CF_OWNER_HOLDS (member_key (q @ [NUL]) m) s) =
      (table s)\<lparr>l_own := (l_own (table s))(q := l_own (table s) q - {m}),
        l_hold_keys := l_hold_keys (table s) - {member_key (q @ [NUL]) m}\<rparr>"
  using assms by (simp_all add: table_def cong: if_cong)

definition alg_upd ::
    "string \<Rightarrow> mode \<Rightarrow> string \<Rightarrow> string option \<Rightarrow> (string \<Rightarrow> mode \<Rightarrow> string \<Rightarrow> string option) \<Rightarrow>
     string \<Rightarrow> mode \<Rightarrow> string \<Rightarrow> string option" where
  "alg_upd o' m q v f = (\<lambda>x n p. if x = o' \<and> n = m \<and> p = q then v else f x n p)"

lemma table_put_record:
  shows "nul_free q \<Longrightarrow> table (put_st CF_WRITE_LOCKS (wr_key q) v ttl s) =
      (table s)\<lparr>l_wr := (l_wr (table s))(q \<mapsto> v)\<rparr>"
    and "nul_free q \<Longrightarrow> table (put_st CF_FENCES (fence_key q) v ttl s) =
      (table s)\<lparr>l_fence := (l_fence (table s))(q \<mapsto> v)\<rparr>"
    and "nul_free q \<Longrightarrow> table (put_st CF_META (semaphore_permits_key q) v ttl s) =
      (table s)\<lparr>l_cap := (l_cap (table s))(q \<mapsto> v)\<rparr>"
    and "nul_free o' \<Longrightarrow> nul_free q \<Longrightarrow> table (put_st CF_META (hold_algorithm_key o' (mode_str m) q) v ttl s) =
      (table s)\<lparr>l_alg := alg_upd o' m q (Some v) (l_alg (table s))\<rparr>"
    and "nul_free o' \<Longrightarrow> table (put_st CF_OWNER_ALIVE (alive_key o') v ttl s) =
      (table s)\<lparr>l_alive := (l_alive (table s))(o' := \<not> expired (expiry_at (l_now (table s)) ttl) (l_now (table s)))\<rparr>"
    and "table (put_st CF_OWNER_ALIVE (revoke_key x) v ttl s) = table s"
    and "cf \<in> {CF_WAIT_EDGES, CF_NAMESPACE_SETTINGS} \<Longrightarrow> table (put_st cf k v ttl s) = table s"
  by (auto simp: table_def alg_upd_def live_def fun_eq_iff dest: alive_revokeD)

lemma table_del_record:
  shows "nul_free q \<Longrightarrow> table (del_st CF_WRITE_LOCKS (wr_key q) s) =
      (table s)\<lparr>l_wr := (l_wr (table s))(q := None)\<rparr>"
    and "nul_free o' \<Longrightarrow> nul_free q \<Longrightarrow> table (del_st CF_META (hold_algorithm_key o' (mode_str m) q) s) =
      (table s)\<lparr>l_alg := alg_upd o' m q None (l_alg (table s))\<rparr>"
    and "nul_free o' \<Longrightarrow> table (del_st CF_OWNER_ALIVE (alive_key o') s) =
      (table s)\<lparr>l_alive := (l_alive (table s))(o' := False)\<rparr>"
    and "table (del_st CF_OWNER_ALIVE (revoke_key x) s) = table s"
    and "cf \<in> {CF_WAIT_EDGES, CF_NAMESPACE_SETTINGS} \<Longrightarrow> table (del_st cf k s) = table s"
  by (auto simp: table_def alg_upd_def fun_eq_iff dest: alive_revokeD)

end
