(* ===== verification/Table_Logic.thy ===== *)
theory Table_Logic
  imports Lock_Table
begin

text \<open>
  A program logic for code that runs on a store transaction, stated over the lock table:
  \<open>lspec ok st m L Q\<close> says that whenever \<open>m\<close> runs on a well-formed transaction whose table is \<open>L\<close> and
  returns \<open>a\<close>, the transaction is still well-formed and \<open>Q a L'\<close> holds of the new table. There is a
  rule per construct of the monad and, for any store that meets \<open>store_writes\<close>, one per access of
  the engine.
\<close>

definition lspec ::
    "('t \<Rightarrow> bool) \<Rightarrow> ('t \<Rightarrow> store_state) \<Rightarrow> ('t, 'a) txm \<Rightarrow> lock_table \<Rightarrow> ('a \<Rightarrow> lock_table \<Rightarrow> bool) \<Rightarrow> bool" where
  "lspec ok st m L Q \<longleftrightarrow>
     (\<forall>t a t'. ok t \<longrightarrow> coherent (st t) \<longrightarrow> table (st t) = L \<longrightarrow> m t = Inr (a, t') \<longrightarrow>
        ok t' \<and> coherent (st t') \<and> Q a (table (st t')))"

text \<open>What holds of every table: holders and indexed paths are NUL-free, the hold keys are finite.\<close>

definition table_ok :: "lock_table \<Rightarrow> bool" where
  "table_ok L \<longleftrightarrow>
     (\<forall>q o'. l_wr L q = Some o' \<longrightarrow> nul_free q \<and> nul_free o') \<and>
     (\<forall>q. \<forall>o' \<in> l_rd L q \<union> l_sem L q \<union> l_wrd L q \<union> l_rdd L q. nul_free q \<and> nul_free o') \<and>
     (\<forall>o' x. x \<in> l_own L o' \<longrightarrow> nul_free o' \<and> member_ok x \<and> member_key (o' @ [NUL]) x \<in> l_hold_keys L) \<and>
     finite (l_hold_keys L)"

section \<open>Rules of the monad\<close>

lemma lspecD:
  "lspec ok st m L Q \<Longrightarrow> m t = Inr (a, t') \<Longrightarrow> ok t \<Longrightarrow> coherent (st t) \<Longrightarrow> L = table (st t) \<Longrightarrow>
     ok t' \<and> coherent (st t') \<and> Q a (table (st t'))"
  unfolding lspec_def by blast

lemma lspec_conseq: "lspec ok st m L Q \<Longrightarrow> (\<And>a L'. Q a L' \<Longrightarrow> Q' a L') \<Longrightarrow> lspec ok st m L Q'"
  unfolding lspec_def by blast

lemma lspec_conj: "lspec ok st m L Q \<Longrightarrow> lspec ok st m L Q' \<Longrightarrow> lspec ok st m L (\<lambda>a L'. Q a L' \<and> Q' a L')"
  unfolding lspec_def by blast

named_theorems lspec_rules \<open>rules of the program logic\<close>

lemma lspec_ret [lspec_rules]: "Q a L \<Longrightarrow> lspec ok st (ret a) L Q"
  by (simp add: lspec_def)

lemma lspec_fail [lspec_rules]: "lspec ok st (fail e) L Q"
  by (simp add: lspec_def)

lemma lspec_bnd [lspec_rules]:
  "lspec ok st m L (\<lambda>a L'. lspec ok st (f a) L' Q) \<Longrightarrow> lspec ok st (bnd m f) L Q"
  unfolding lspec_def bnd_Inr_iff by blast

lemma lspec_lift [lspec_rules]: "(\<And>a. r = Inr a \<Longrightarrow> Q a L) \<Longrightarrow> lspec ok st (lift_res r) L Q"
  by (simp add: lspec_def)

lemma lspec_if [lspec_rules]:
  "(b \<Longrightarrow> lspec ok st m L Q) \<Longrightarrow> (\<not> b \<Longrightarrow> lspec ok st m' L Q) \<Longrightarrow> lspec ok st (if b then m else m') L Q"
  by simp

lemma lspec_option [lspec_rules]:
  "(x = None \<Longrightarrow> lspec ok st m L Q) \<Longrightarrow> (\<And>y. x = Some y \<Longrightarrow> lspec ok st (f y) L Q) \<Longrightarrow>
     lspec ok st (case x of None \<Rightarrow> m | Some y \<Rightarrow> f y) L Q"
  by (cases x) simp_all

lemma lspec_pair [lspec_rules]:
  "(\<And>a b. x = (a, b) \<Longrightarrow> lspec ok st (f a b) L Q) \<Longrightarrow> lspec ok st (case x of (a, b) \<Rightarrow> f a b) L Q"
  by (cases x) simp

lemma lspec_for_each_inv:
  assumes "I L" and "\<And>x L. x \<in> set xs \<Longrightarrow> I L \<Longrightarrow> lspec ok st (f x) L (\<lambda>_. I)"
  shows "lspec ok st (for_each f xs) L (\<lambda>_. I)"
  using assms
proof (induction xs arbitrary: L)
  case (Cons x xs)
  from Cons.prems(2)[of x L] Cons.prems(1) have "lspec ok st (f x) L (\<lambda>_. I)" by simp
  then have "lspec ok st (f x) L (\<lambda>_ L'. lspec ok st (for_each f xs) L' (\<lambda>_. I))"
    by (rule lspec_conseq) (rule Cons.IH, use Cons.prems(2) in auto)
  then show ?case by (simp add: lspec_bnd)
qed (simp add: lspec_ret)

text \<open>A loop whose body acts on the table as a function folds that function.\<close>

lemma lspec_for_each_fold:
  assumes "\<And>x L. x \<in> set xs \<Longrightarrow> lspec ok st (f x) L (\<lambda>_ L'. L' = g x L)"
    and "Q () (fold g xs L)"
  shows "lspec ok st (for_each f xs) L Q"
  using assms
proof (induction xs arbitrary: L)
  case (Cons x xs)
  have "lspec ok st (f x) L (\<lambda>_ L'. lspec ok st (for_each f xs) L' Q)"
    using lspec_conseq[OF Cons.prems(1)[of x L]] Cons.IH[of "g x L"] Cons.prems by simp
  then show ?case by (simp add: lspec_bnd)
qed (simp add: lspec_ret)

text \<open>
  \<open>first_some\<close> keeps an invariant \<open>I\<close> as long as the body returns \<open>None\<close>, collecting the facts
  \<open>F x\<close> established for the elements passed; what it ends with satisfies \<open>I\<close>, and all of \<open>F\<close> unless some element stopped it.
\<close>

lemma lspec_first_some:
  assumes I: "I L"
    and body: "\<And>x L. x \<in> set xs \<Longrightarrow> I L \<Longrightarrow> lspec ok st (f x) L (\<lambda>r L'. I L' \<and> R L L' \<and> (r = None \<longrightarrow> F x L'))"
    and stable: "\<And>x L L'. x \<in> set xs \<Longrightarrow> F x L \<Longrightarrow> I L \<Longrightarrow> R L L' \<Longrightarrow> F x L'"
  shows "lspec ok st (first_some (f :: 'a \<Rightarrow> ('t, 'b option) txm) xs) L (\<lambda>r L'. I L' \<and> (r = None \<longrightarrow> (\<forall>x \<in> set xs. F x L')))"
proof -
  have "lspec ok st (first_some f ys) L (\<lambda>r L'. I L' \<and> (r = None \<longrightarrow> (\<forall>x \<in> set zs \<union> set ys. F x L')))"
    if "I L" "\<forall>x \<in> set zs. F x L" "set zs \<union> set ys \<subseteq> set xs" for ys zs L
    using that
  proof (induction ys arbitrary: L zs)
    case Nil
    then show ?case by (simp add: lspec_ret)
  next
    case (Cons y ys)
    then have "lspec ok st (f y) L (\<lambda>r L'. I L' \<and> R L L' \<and> (r = None \<longrightarrow> F y L'))" using body by simp
    then have "lspec ok st (f y) L (\<lambda>r L'. lspec ok st (case r of Some b \<Rightarrow> ret (Some b) | None \<Rightarrow> first_some f ys) L'
        (\<lambda>r L'. I L' \<and> (r = None \<longrightarrow> (\<forall>x \<in> set zs \<union> set (y # ys). F x L'))))"
    proof (rule lspec_conseq)
      fix r :: "'b option" and L' assume post: "I L' \<and> R L L' \<and> (r = None \<longrightarrow> F y L')"
      have zs: "\<forall>x \<in> set zs. F x L'" using Cons.prems post stable by blast
      show "lspec ok st (case r of Some b \<Rightarrow> ret (Some b) | None \<Rightarrow> first_some f ys) L'
        (\<lambda>r L'. I L' \<and> (r = None \<longrightarrow> (\<forall>x \<in> set zs \<union> set (y # ys). F x L')))"
      proof (cases r)
        case None
        with Cons.IH[of L' "y # zs"] post zs Cons.prems(3) show ?thesis by simp
      next
        case (Some b)
        with post show ?thesis by (simp add: lspec_ret)
      qed
    qed
    then show ?case by (simp add: lspec_bnd)
  qed
  from this[of L "[]" xs] I show ?thesis by simp
qed

lemma lspec_filter_each:
  assumes body: "\<And>x L. x \<in> set xs \<Longrightarrow> lspec ok st (f x) L (\<lambda>b L'. b = p x L \<and> L' = g x L)"
    and stable: "\<And>x y L. p x (g y L) = p x L"
    and post: "Q (filter (\<lambda>x. p x L) xs) (fold g xs L)"
  shows "lspec ok st (filter_each f xs) L Q"
  using body post
proof (induction xs arbitrary: L Q)
  case (Cons x xs)
  have "lspec ok st (filter_each f xs) (g x L) (\<lambda>ys L'. Q (if p x L then x # ys else ys) L')"
    by (rule Cons.IH) (use Cons.prems stable in \<open>auto split: if_splits\<close>)
  then have "lspec ok st (filter_each f xs) (g x L)
      (\<lambda>ys L'. lspec ok st (ret (if p x L then x # ys else ys)) L' Q)"
    by (rule lspec_conseq) (rule lspec_ret)
  then have "lspec ok st (f x) L (\<lambda>b L'. lspec ok st
      (bnd (filter_each f xs) (\<lambda>ys. ret (if b then x # ys else ys))) L' Q)"
    using lspec_conseq[OF Cons.prems(1)[of x L]] by (simp add: lspec_bnd)
  then show ?case by (simp add: lspec_bnd)
qed (simp add: lspec_ret)

text \<open>Loops: an invariant of the cursor and the table; and a measure shows that the loop ends.\<close>

definition loop_step :: "('c \<Rightarrow> ('t, 'c option) txm) \<Rightarrow> 'c option \<times> (error + 't) \<Rightarrow> 'c option \<times> (error + 't)" where
  "loop_step body = (\<lambda>(k, r). case (k, r) of
     (Some c', Inr t') \<Rightarrow> (case body c' t' of Inl e \<Rightarrow> (None, Inl e) | Inr (k', t'') \<Rightarrow> (k', Inr t''))
   | _ \<Rightarrow> (k, r))"

lemma lspec_loop_while:
  fixes body :: "'c \<Rightarrow> ('t, 'c option) txm"
  assumes init: "I c L"
    and body: "\<And>c L. I c L \<Longrightarrow>
      lspec ok st (body c) L (\<lambda>k L'. case k of None \<Rightarrow> Q () L' | Some c' \<Rightarrow> I c' L')"
  shows "lspec ok st (loop_while body c) L Q"
  unfolding lspec_def
proof (intro allI impI)
  fix t u t' assume t: "ok t" "coherent (st t)" "table (st t) = L" and m: "loop_while body c t = Inr (u, t')"
  define P :: "'c option \<times> (error + 't) \<Rightarrow> bool" where "P = (\<lambda>(k, r). case r of Inl _ \<Rightarrow> True
    | Inr t \<Rightarrow> ok t \<and> coherent (st t) \<and> (case k of None \<Rightarrow> Q () (table (st t)) | Some c \<Rightarrow> I c (table (st t))))"
  from m obtain k where
    run: "while_option (\<lambda>(k, r). k \<noteq> None \<and> \<not> isl r) (loop_step body) (Some c, Inr t) = Some (k, Inr t')"
    unfolding loop_while_def loop_step_def by (auto split: option.splits sum.splits)
  have "P (k, Inr t')"
  proof (rule while_option_rule[OF _ run])
    show "P (loop_step body x)" if px: "P x" and bx: "case x of (k, r) \<Rightarrow> k \<noteq> None \<and> \<not> isl r" for x
    proof -
      obtain c' s where x: "x = (Some c', Inr s)" using bx by (cases x; cases "snd x") auto
      with px have s: "ok s" "coherent (st s)" "I c' (table (st s))" by (auto simp: P_def)
      show ?thesis
      proof (cases "body c' s")
        case (Inr kt)
        then obtain k' s' where b: "body c' s = Inr (k', s')" by (cases kt) auto
        from lspecD[OF body[OF s(3)] b s(1,2)] b x show ?thesis by (auto simp: P_def loop_step_def split: option.splits)
      qed (simp add: x loop_step_def P_def)
    qed
    show "P (Some c, Inr t)" using t init by (simp add: P_def)
  qed
  moreover from while_option_stop[OF run] have "k = None" by simp
  ultimately show "ok t' \<and> coherent (st t') \<and> Q u (table (st t'))" by (simp add: P_def)
qed

definition loop_ends :: "('c \<Rightarrow> ('t, 'c option) txm) \<Rightarrow> 'c \<Rightarrow> 't \<Rightarrow> bool" where
  "loop_ends body c t \<longleftrightarrow>
     while_option (\<lambda>(k, r). k \<noteq> None \<and> \<not> isl r) (loop_step body) (Some c, Inr t) \<noteq> None"

lemma loop_endsI:
  fixes body :: "'c \<Rightarrow> ('t, 'c option) txm"
  assumes init: "I c t"
    and step: "\<And>c t c' t'. I c t \<Longrightarrow> body c t = Inr (Some c', t') \<Longrightarrow> I c' t' \<and> f c' t' < (f c t :: nat)"
  shows "loop_ends body c t"
proof -
  define P :: "'c option \<times> (error + 't) \<Rightarrow> bool" where "P = (\<lambda>(k, r). case r of Inl e \<Rightarrow> True
    | Inr t \<Rightarrow> (case k of None \<Rightarrow> True | Some c \<Rightarrow> I c t))"
  define g :: "'c option \<times> (error + 't) \<Rightarrow> nat" where
    "g = (\<lambda>(k, r). case r of Inl e \<Rightarrow> 0 | Inr t \<Rightarrow> (case k of None \<Rightarrow> 0 | Some c \<Rightarrow> Suc (f c t)))"
  let ?b = "\<lambda>(k, r). k \<noteq> None \<and> \<not> isl r"
  have P: "P (loop_step body x) \<and> g (loop_step body x) < g x" if px: "P x" and bx: "?b x" for x
  proof -
    obtain c' s where x: "x = (Some c', Inr s)" using bx by (cases x; cases "snd x") auto
    with px have I: "I c' s" by (simp add: P_def)
    show ?thesis
    proof (cases "body c' s")
      case (Inr kt)
      with step[OF I] show ?thesis
        by (cases kt) (auto simp: x loop_step_def P_def g_def split: option.splits)
    qed (simp add: x loop_step_def P_def g_def)
  qed
  have "P (Some c, Inr t)" by (simp add: P_def init)
  from measure_while_option_Some[where P = P and b = ?b and c = "loop_step body" and f = g, OF P this]
  show ?thesis unfolding loop_ends_def by blast
qed

lemma lspec_for_each:
  assumes I: "I L"
    and body: "\<And>x L. x \<in> set xs \<Longrightarrow> I L \<Longrightarrow> lspec ok st (f x) L (\<lambda>_ L'. I L' \<and> R L L' \<and> F x L')"
    and stable: "\<And>x L L'. x \<in> set xs \<Longrightarrow> F x L \<Longrightarrow> I L \<Longrightarrow> R L L' \<Longrightarrow> F x L'"
  shows "lspec ok st (for_each f xs) L (\<lambda>_ L'. I L' \<and> (\<forall>x \<in> set xs. F x L'))"
proof -
  have "lspec ok st (for_each f ys) L (\<lambda>_ L'. I L' \<and> (\<forall>x \<in> set zs \<union> set ys. F x L'))"
    if "I L" "\<forall>x \<in> set zs. F x L" "set zs \<union> set ys \<subseteq> set xs" for ys zs L
    using that
  proof (induction ys arbitrary: L zs)
    case Nil
    then show ?case by (simp add: lspec_ret)
  next
    case (Cons y ys)
    then have "lspec ok st (f y) L (\<lambda>_ L'. I L' \<and> R L L' \<and> F y L')" using body by simp
    then have "lspec ok st (f y) L (\<lambda>_ L'. lspec ok st (for_each f ys) L'
        (\<lambda>_ L'. I L' \<and> (\<forall>x \<in> set zs \<union> set (y # ys). F x L')))"
    proof (rule lspec_conseq)
      fix L' assume post: "I L' \<and> R L L' \<and> F y L'"
      have "\<forall>x \<in> set zs. F x L'" using Cons.prems post stable by blast
      then have "\<forall>x \<in> set (y # zs). F x L'" using post by simp
      with Cons.IH[of L' "y # zs"] post Cons.prems(3)
      show "lspec ok st (for_each f ys) L' (\<lambda>_ L'. I L' \<and> (\<forall>x \<in> set zs \<union> set (y # ys). F x L'))" by simp
    qed
    then show ?case by (simp add: lspec_bnd)
  qed
  from this[of L "[]" xs] I show ?thesis by simp
qed

section \<open>Rules of the store accesses\<close>

lemma coherent_table_ok:
  assumes "coherent s" and "\<And>cf. finite (s_raw s cf)" and "\<And>cf k. s_view s cf k \<noteq> None \<Longrightarrow> k \<in> s_raw s cf"
  shows "table_ok (table s)"
proof -
  have "x \<in> members_of s CF_OWNER_HOLDS o' \<Longrightarrow> member_key (o' @ [NUL]) x \<in> l_hold_keys (table s)" for o' x
    using assms(3) by (auto simp: members_of_def table_def split: if_splits)
  moreover have "finite (l_hold_keys (table s))" using assms(2) by (simp add: table_def)
  ultimately show ?thesis
    unfolding table_ok_def using coherent_nul_free[OF assms(1)] by (auto simp only: table_sets)
qed

context store_writes
begin

lemma lspec_table_ok:
  assumes "table_ok L \<Longrightarrow> lspec ok st m L Q"
  shows "lspec ok st m L Q"
proof (cases "table_ok L")
  case False
  have "table (st t) \<noteq> L" if "ok t" "coherent (st t)" for t
    using coherent_table_ok[OF that(2)] raw_finite[OF that(1)] raw_view[OF that(1)] False by blast
  then show ?thesis unfolding lspec_def by blast
qed (rule assms)

lemma read_spec:
  assumes law: "\<And>t a t'. ok t \<Longrightarrow> m t = Inr (a, t') \<Longrightarrow> ok t' \<and> st t' = st t \<and> P a (st t)"
    and post: "\<And>a s. coherent s \<Longrightarrow> table s = L \<Longrightarrow> P a s \<Longrightarrow> Q a L"
  shows "lspec ok st m L Q"
  unfolding lspec_def
proof (intro allI impI)
  fix t a t' assume t: "ok t" "coherent (st t)" "table (st t) = L" and m: "m t = Inr (a, t')"
  from law[OF t(1) m] have "ok t'" and "st t' = st t" and "P a (st t)" by simp_all
  with t post[OF t(2,3)] show "ok t' \<and> coherent (st t') \<and> Q a (table (st t'))" by simp
qed

lemma write_spec:
  assumes law: "\<And>t u t'. ok t \<Longrightarrow> m t = Inr (u, t') \<Longrightarrow> ok t' \<and> st t' = g (st t)"
    and post: "\<And>s. coherent s \<Longrightarrow> table s = L \<Longrightarrow> coherent (g s) \<and> Q () (table (g s))"
  shows "lspec ok st m L (Q :: unit \<Rightarrow> lock_table \<Rightarrow> bool)"
  unfolding lspec_def
proof (intro allI impI)
  fix t u t' assume t: "ok t" "coherent (st t)" "table (st t) = L" and m: "m t = Inr (u :: unit, t')"
  from law[OF t(1) m] have "ok t'" and "st t' = g (st t)" by simp_all
  with post[OF t(2,3)] show "ok t' \<and> coherent (st t') \<and> Q u (table (st t'))" by simp
qed

lemma lspec_get_wr [lspec_rules]:
  "nul_free q \<Longrightarrow> Q (l_wr L q) L \<Longrightarrow> lspec ok st (get_str T CF_WRITE_LOCKS (wr_key q)) L Q"
  by (rule read_spec[OF get_str_law]) (auto simp: coherent_never_expires)

lemma lspec_get_fence [lspec_rules]:
  "nul_free q \<Longrightarrow> Q (l_fence L q) L \<Longrightarrow> lspec ok st (get_str T CF_FENCES (fence_key q)) L Q"
  by (rule read_spec[OF get_str_law]) (auto simp: coherent_never_expires)

lemma lspec_get_cap [lspec_rules]:
  "nul_free q \<Longrightarrow> Q (l_cap L q) L \<Longrightarrow> lspec ok st (get_str T CF_META (semaphore_permits_key q)) L Q"
  by (rule read_spec[OF get_str_law]) (auto simp: coherent_never_expires)

lemma lspec_get_alg [lspec_rules]:
  "nul_free o' \<Longrightarrow> nul_free q \<Longrightarrow> Q (l_alg L o' m q) L \<Longrightarrow>
     lspec ok st (get_str T CF_META (hold_algorithm_key o' (mode_str m) q)) L Q"
  by (rule read_spec[OF get_str_law]) (auto simp: coherent_never_expires)

lemma lspec_get_alive [lspec_rules]:
  assumes "nul_free o'" and "\<And>v. (v \<noteq> None) = l_alive L o' \<Longrightarrow> Q v L"
  shows "lspec ok st (get_str T CF_OWNER_ALIVE (alive_key o')) L Q"
  by (rule read_spec[OF get_str_law]) (use assms in \<open>auto simp: table_def\<close>)

lemma lspec_get_other:
  assumes "cf \<noteq> CF_EXPIRY" and "\<And>v. Q v L"
  shows "lspec ok st (get_str T cf k) L Q"
  by (rule read_spec[OF get_str_law]) (use assms in auto)

lemma lspec_smembers:
  assumes "nul_free q" and "cf \<noteq> CF_EXPIRY"
    and "\<And>s. coherent s \<Longrightarrow> set_coherent P s cf" and "\<And>s. members_of s cf = fld (table s)"
    and "\<And>ms. set ms = fld L q \<Longrightarrow> length ms \<le> limit \<Longrightarrow> Q ms L"
  shows "lspec ok st (smembers_limited T cf (q @ [NUL]) limit) L Q"
  by (rule read_spec[OF smembers_limited_law]) (use assms in \<open>auto simp: set_coherent_live(2)[where P = P]\<close>)

lemma lspec_sismember:
  assumes "nul_free q" and "cf \<noteq> CF_EXPIRY"
    and "\<And>s. coherent s \<Longrightarrow> set_coherent P s cf" and "\<And>s. members_of s cf = fld (table s)"
    and "Q (m \<in> fld L q) L"
  shows "lspec ok st (sismember T cf (q @ [NUL]) m) L Q"
  by (rule read_spec[OF sismember_law]) (use assms in \<open>auto simp: set_coherent_live(1)[where P = P] split: if_splits\<close>)

lemma lspec_has_live_member:
  assumes "nul_free q" and "cf \<noteq> CF_EXPIRY"
    and "\<And>s. coherent s \<Longrightarrow> set_coherent P s cf" and "\<And>s. members_of s cf = fld (table s)"
    and "Q (fld L q \<noteq> {}) L"
  shows "lspec ok st (has_live_member T cf (q @ [NUL])) L Q"
  by (rule read_spec[OF has_live_member_law]) (use assms in \<open>auto simp: set_coherent_live(2)[where P = P]\<close>)

lemma lspec_smembers_sets [lspec_rules]:
  assumes "nul_free q"
  shows "(\<And>ms. set ms = l_rd L q \<Longrightarrow> length ms \<le> limit \<Longrightarrow> Q ms L) \<Longrightarrow> lspec ok st (smembers_limited T CF_READ_LOCKS (rd_prefix q) limit) L Q"
    and "(\<And>ms. set ms = l_sem L q \<Longrightarrow> length ms \<le> limit \<Longrightarrow> Q ms L) \<Longrightarrow> lspec ok st (smembers_limited T CF_SEMAPHORE (sem_prefix q) limit) L Q"
    and "(\<And>ms. set ms = l_wrd L q \<Longrightarrow> length ms \<le> limit \<Longrightarrow> Q ms L) \<Longrightarrow> lspec ok st (smembers_limited T CF_DESC_WRITE (wrdesc_key q) limit) L Q"
    and "(\<And>ms. set ms = l_rdd L q \<Longrightarrow> length ms \<le> limit \<Longrightarrow> Q ms L) \<Longrightarrow> lspec ok st (smembers_limited T CF_DESC_READ (rddesc_prefix q) limit) L Q"
    and "(\<And>ms. set ms = l_own L q \<Longrightarrow> length ms \<le> limit \<Longrightarrow> Q ms L) \<Longrightarrow> lspec ok st (smembers_limited T CF_OWNER_HOLDS (own_prefix q) limit) L Q"
proof -
  show "(\<And>ms. set ms = l_rd L q \<Longrightarrow> length ms \<le> limit \<Longrightarrow> Q ms L) \<Longrightarrow> lspec ok st (smembers_limited T CF_READ_LOCKS (rd_prefix q) limit) L Q"
    unfolding set_prefixes by (rule lspec_smembers[OF assms, where P = nul_free and fld = l_rd]) (simp_all add: coherent_sets)
  show "(\<And>ms. set ms = l_sem L q \<Longrightarrow> length ms \<le> limit \<Longrightarrow> Q ms L) \<Longrightarrow> lspec ok st (smembers_limited T CF_SEMAPHORE (sem_prefix q) limit) L Q"
    unfolding set_prefixes by (rule lspec_smembers[OF assms, where P = nul_free and fld = l_sem]) (simp_all add: coherent_sets)
  show "(\<And>ms. set ms = l_wrd L q \<Longrightarrow> length ms \<le> limit \<Longrightarrow> Q ms L) \<Longrightarrow> lspec ok st (smembers_limited T CF_DESC_WRITE (wrdesc_key q) limit) L Q"
    unfolding set_prefixes by (rule lspec_smembers[OF assms, where P = nul_free and fld = l_wrd]) (simp_all add: coherent_sets)
  show "(\<And>ms. set ms = l_rdd L q \<Longrightarrow> length ms \<le> limit \<Longrightarrow> Q ms L) \<Longrightarrow> lspec ok st (smembers_limited T CF_DESC_READ (rddesc_prefix q) limit) L Q"
    unfolding set_prefixes by (rule lspec_smembers[OF assms, where P = nul_free and fld = l_rdd]) (simp_all add: coherent_sets)
  show "(\<And>ms. set ms = l_own L q \<Longrightarrow> length ms \<le> limit \<Longrightarrow> Q ms L) \<Longrightarrow> lspec ok st (smembers_limited T CF_OWNER_HOLDS (own_prefix q) limit) L Q"
    unfolding set_prefixes by (rule lspec_smembers[OF assms, where P = member_ok and fld = l_own]) (simp_all add: coherent_sets)
qed

lemma lspec_sismember_sets [lspec_rules]:
  assumes "nul_free q"
  shows "Q (m \<in> l_rd L q) L \<Longrightarrow> lspec ok st (sismember T CF_READ_LOCKS (rd_prefix q) m) L Q"
    and "Q (m \<in> l_sem L q) L \<Longrightarrow> lspec ok st (sismember T CF_SEMAPHORE (sem_prefix q) m) L Q"
proof -
  show "Q (m \<in> l_rd L q) L \<Longrightarrow> lspec ok st (sismember T CF_READ_LOCKS (rd_prefix q) m) L Q"
    unfolding set_prefixes by (rule lspec_sismember[OF assms, where P = nul_free and fld = l_rd]) (simp_all add: coherent_sets)
  show "Q (m \<in> l_sem L q) L \<Longrightarrow> lspec ok st (sismember T CF_SEMAPHORE (sem_prefix q) m) L Q"
    unfolding set_prefixes by (rule lspec_sismember[OF assms, where P = nul_free and fld = l_sem]) (simp_all add: coherent_sets)
qed

lemma lspec_has_live_member_sets [lspec_rules]:
  assumes "nul_free q"
  shows "Q (l_rd L q \<noteq> {}) L \<Longrightarrow> lspec ok st (has_live_member T CF_READ_LOCKS (rd_prefix q)) L Q"
    and "Q (l_own L q \<noteq> {}) L \<Longrightarrow> lspec ok st (has_live_member T CF_OWNER_HOLDS (own_prefix q)) L Q"
proof -
  show "Q (l_rd L q \<noteq> {}) L \<Longrightarrow> lspec ok st (has_live_member T CF_READ_LOCKS (rd_prefix q)) L Q"
    unfolding set_prefixes by (rule lspec_has_live_member[OF assms, where P = nul_free and fld = l_rd]) (simp_all add: coherent_sets)
  show "Q (l_own L q \<noteq> {}) L \<Longrightarrow> lspec ok st (has_live_member T CF_OWNER_HOLDS (own_prefix q)) L Q"
    unfolding set_prefixes by (rule lspec_has_live_member[OF assms, where P = member_ok and fld = l_own]) (simp_all add: coherent_sets)
qed

lemma sadd_spec:
  assumes "cf \<noteq> CF_EXPIRY"
    and "\<And>s. coherent s \<Longrightarrow> table s = L \<Longrightarrow> coherent (put_st cf (member_key k m) m ttl s) \<and> Q () (table (put_st cf (member_key k m) m ttl s))"
  shows "lspec ok st (sadd T cf k m ttl) L Q"
  using sadd_law[OF _ assms(1)] assms(2) by (rule write_spec[where g = "put_st cf (member_key k m) m ttl"])

lemma srem_spec:
  assumes "cf \<noteq> CF_EXPIRY"
    and "\<And>s. coherent s \<Longrightarrow> table s = L \<Longrightarrow> coherent (del_st cf (member_key k m) s) \<and> Q () (table (del_st cf (member_key k m) s))"
  shows "lspec ok st (srem T cf k m) L Q"
  using srem_law[OF _ assms(1)] assms(2) by (rule write_spec[where g = "del_st cf (member_key k m)"])

lemma set_str_spec:
  assumes "cf \<noteq> CF_EXPIRY"
    and "\<And>s. coherent s \<Longrightarrow> table s = L \<Longrightarrow> coherent (put_st cf k v ttl s) \<and> Q () (table (put_st cf k v ttl s))"
  shows "lspec ok st (set_str T cf k v ttl) L Q"
  using set_str_law[OF _ assms(1)] assms(2) by (rule write_spec[where g = "put_st cf k v ttl"])

lemma del_spec:
  assumes "cf \<noteq> CF_EXPIRY"
    and "\<And>s. coherent s \<Longrightarrow> table s = L \<Longrightarrow> coherent (del_st cf k s) \<and> Q () (table (del_st cf k s))"
  shows "lspec ok st (del T cf k) L Q"
  using del_law[OF _ assms(1)] assms(2) by (rule write_spec[where g = "del_st cf k"])

lemma lspec_sadd [lspec_rules]:
  assumes "nul_free q" and "nul_free m"
  shows "Q () (L\<lparr>l_rd := (l_rd L)(q := insert m (l_rd L q))\<rparr>) \<Longrightarrow> lspec ok st (sadd T CF_READ_LOCKS (rd_prefix q) m 0) L Q"
    and "Q () (L\<lparr>l_sem := (l_sem L)(q := insert m (l_sem L q))\<rparr>) \<Longrightarrow> lspec ok st (sadd T CF_SEMAPHORE (sem_prefix q) m 0) L Q"
    and "Q () (L\<lparr>l_wrd := (l_wrd L)(q := insert m (l_wrd L q))\<rparr>) \<Longrightarrow> lspec ok st (sadd T CF_DESC_WRITE (wrdesc_key q) m 0) L Q"
    and "Q () (L\<lparr>l_rdd := (l_rdd L)(q := insert m (l_rdd L q))\<rparr>) \<Longrightarrow> lspec ok st (sadd T CF_DESC_READ (rddesc_prefix q) m 0) L Q"
proof -
  show "Q () (L\<lparr>l_rd := (l_rd L)(q := insert m (l_rd L q))\<rparr>) \<Longrightarrow> lspec ok st (sadd T CF_READ_LOCKS (rd_prefix q) m 0) L Q"
    unfolding set_prefixes
    by (rule sadd_spec) (use assms in \<open>auto simp: table_put_set coherent_put_set\<close>)
  show "Q () (L\<lparr>l_sem := (l_sem L)(q := insert m (l_sem L q))\<rparr>) \<Longrightarrow> lspec ok st (sadd T CF_SEMAPHORE (sem_prefix q) m 0) L Q"
    unfolding set_prefixes
    by (rule sadd_spec) (use assms in \<open>auto simp: table_put_set coherent_put_set\<close>)
  show "Q () (L\<lparr>l_wrd := (l_wrd L)(q := insert m (l_wrd L q))\<rparr>) \<Longrightarrow> lspec ok st (sadd T CF_DESC_WRITE (wrdesc_key q) m 0) L Q"
    unfolding set_prefixes
    by (rule sadd_spec) (use assms in \<open>auto simp: table_put_set coherent_put_set\<close>)
  show "Q () (L\<lparr>l_rdd := (l_rdd L)(q := insert m (l_rdd L q))\<rparr>) \<Longrightarrow> lspec ok st (sadd T CF_DESC_READ (rddesc_prefix q) m 0) L Q"
    unfolding set_prefixes
    by (rule sadd_spec) (use assms in \<open>auto simp: table_put_set coherent_put_set\<close>)
qed

lemma lspec_sadd_own [lspec_rules]:
  assumes "nul_free q" and "member_ok m" and "Q () (L\<lparr>l_own := (l_own L)(q := insert m (l_own L q)),
    l_hold_keys := insert (member_key (q @ [NUL]) m) (l_hold_keys L)\<rparr>)"
  shows "lspec ok st (sadd T CF_OWNER_HOLDS (own_prefix q) m 0) L Q"
  unfolding set_prefixes
  by (rule sadd_spec) (use assms in \<open>auto simp: table_put_set coherent_put_own\<close>)

lemma lspec_srem [lspec_rules]:
  assumes "nul_free q"
  shows "Q () (L\<lparr>l_rd := (l_rd L)(q := l_rd L q - {m})\<rparr>) \<Longrightarrow> lspec ok st (srem T CF_READ_LOCKS (rd_prefix q) m) L Q"
    and "Q () (L\<lparr>l_sem := (l_sem L)(q := l_sem L q - {m})\<rparr>) \<Longrightarrow> lspec ok st (srem T CF_SEMAPHORE (sem_prefix q) m) L Q"
    and "Q () (L\<lparr>l_wrd := (l_wrd L)(q := l_wrd L q - {m})\<rparr>) \<Longrightarrow> lspec ok st (srem T CF_DESC_WRITE (wrdesc_key q) m) L Q"
    and "Q () (L\<lparr>l_rdd := (l_rdd L)(q := l_rdd L q - {m})\<rparr>) \<Longrightarrow> lspec ok st (srem T CF_DESC_READ (rddesc_prefix q) m) L Q"
proof -
  show "Q () (L\<lparr>l_rd := (l_rd L)(q := l_rd L q - {m})\<rparr>) \<Longrightarrow> lspec ok st (srem T CF_READ_LOCKS (rd_prefix q) m) L Q"
    unfolding set_prefixes
    by (rule srem_spec) (use assms in \<open>auto simp: table_del_set coherent_del\<close>)
  show "Q () (L\<lparr>l_sem := (l_sem L)(q := l_sem L q - {m})\<rparr>) \<Longrightarrow> lspec ok st (srem T CF_SEMAPHORE (sem_prefix q) m) L Q"
    unfolding set_prefixes
    by (rule srem_spec) (use assms in \<open>auto simp: table_del_set coherent_del\<close>)
  show "Q () (L\<lparr>l_wrd := (l_wrd L)(q := l_wrd L q - {m})\<rparr>) \<Longrightarrow> lspec ok st (srem T CF_DESC_WRITE (wrdesc_key q) m) L Q"
    unfolding set_prefixes
    by (rule srem_spec) (use assms in \<open>auto simp: table_del_set coherent_del\<close>)
  show "Q () (L\<lparr>l_rdd := (l_rdd L)(q := l_rdd L q - {m})\<rparr>) \<Longrightarrow> lspec ok st (srem T CF_DESC_READ (rddesc_prefix q) m) L Q"
    unfolding set_prefixes
    by (rule srem_spec) (use assms in \<open>auto simp: table_del_set coherent_del\<close>)
qed

lemma lspec_srem_own [lspec_rules]:
  assumes "nul_free q" and "Q () (L\<lparr>l_own := (l_own L)(q := l_own L q - {m}),
    l_hold_keys := l_hold_keys L - {member_key (q @ [NUL]) m}\<rparr>)"
  shows "lspec ok st (srem T CF_OWNER_HOLDS (own_prefix q) m) L Q"
  unfolding set_prefixes
  by (rule srem_spec) (use assms in \<open>auto simp: table_del_set coherent_del\<close>)

lemma lspec_set_str [lspec_rules]:
  shows "nul_free q \<Longrightarrow> nul_free v \<Longrightarrow> Q () (L\<lparr>l_wr := (l_wr L)(q \<mapsto> v)\<rparr>) \<Longrightarrow>
      lspec ok st (set_str T CF_WRITE_LOCKS (wr_key q) v 0) L Q"
    and "nul_free q \<Longrightarrow> Q () (L\<lparr>l_fence := (l_fence L)(q \<mapsto> v)\<rparr>) \<Longrightarrow>
      lspec ok st (set_str T CF_FENCES (fence_key q) v 0) L Q"
    and "nul_free q \<Longrightarrow> Q () (L\<lparr>l_cap := (l_cap L)(q \<mapsto> v)\<rparr>) \<Longrightarrow>
      lspec ok st (set_str T CF_META (semaphore_permits_key q) v 0) L Q"
    and "nul_free o' \<Longrightarrow> nul_free q \<Longrightarrow> Q () (L\<lparr>l_alg := alg_upd o' m q (Some v) (l_alg L)\<rparr>) \<Longrightarrow>
      lspec ok st (set_str T CF_META (hold_algorithm_key o' (mode_str m) q) v 0) L Q"
    and "nul_free o' \<Longrightarrow>
      Q () (L\<lparr>l_alive := (l_alive L)(o' := \<not> expired (expiry_at (l_now L) ttl) (l_now L))\<rparr>) \<Longrightarrow>
      lspec ok st (set_str T CF_OWNER_ALIVE (alive_key o') v ttl) L Q"
    and "Q () L \<Longrightarrow> lspec ok st (set_str T CF_OWNER_ALIVE (revoke_key o') v ttl) L Q"
    and "Q () L \<Longrightarrow> lspec ok st (set_str T CF_WAIT_EDGES k v ttl) L Q"
    and "Q () L \<Longrightarrow> lspec ok st (set_str T CF_NAMESPACE_SETTINGS k v ttl) L Q"
  by (rule set_str_spec; auto simp: table_put_record coherent_put_record)+

lemma lspec_del [lspec_rules]:
  shows "nul_free q \<Longrightarrow> Q () (L\<lparr>l_wr := (l_wr L)(q := None)\<rparr>) \<Longrightarrow>
      lspec ok st (del T CF_WRITE_LOCKS (wr_key q)) L Q"
    and "nul_free o' \<Longrightarrow> nul_free q \<Longrightarrow> Q () (L\<lparr>l_alg := alg_upd o' m q None (l_alg L)\<rparr>) \<Longrightarrow>
      lspec ok st (del T CF_META (hold_algorithm_key o' (mode_str m) q)) L Q"
    and "nul_free o' \<Longrightarrow> Q () (L\<lparr>l_alive := (l_alive L)(o' := False)\<rparr>) \<Longrightarrow>
      lspec ok st (del T CF_OWNER_ALIVE (alive_key o')) L Q"
    and "Q () L \<Longrightarrow> lspec ok st (del T CF_OWNER_ALIVE (revoke_key o')) L Q"
    and "Q () L \<Longrightarrow> lspec ok st (del T CF_WAIT_EDGES k) L Q"
    and "Q () L \<Longrightarrow> lspec ok st (del T CF_NAMESPACE_SETTINGS k) L Q"
  by (rule del_spec; auto simp: table_del_record coherent_del)+

lemma lspec_pexpire_alive [lspec_rules]:
  assumes "nul_free o'"
    and "Q () (L\<lparr>l_alive := (l_alive L)(o' := l_alive L o' \<and> \<not> expired (expiry_at (l_now L) ttl) (l_now L))\<rparr>)"
  shows "lspec ok st (pexpire_str T CF_OWNER_ALIVE (alive_key o') ttl) L Q"
proof (rule write_spec[where g = "\<lambda>s. case live_st s CF_OWNER_ALIVE (alive_key o') of
    Some v \<Rightarrow> put_st CF_OWNER_ALIVE (alive_key o') v ttl s | None \<Rightarrow> s"])
  show "ok t \<Longrightarrow> pexpire_str T CF_OWNER_ALIVE (alive_key o') ttl t = Inr (u, t') \<Longrightarrow> ok t' \<and> st t' =
    (case live_st (st t) CF_OWNER_ALIVE (alive_key o') of
       Some v \<Rightarrow> put_st CF_OWNER_ALIVE (alive_key o') v ttl (st t) | None \<Rightarrow> st t)" for t u t'
    by (rule pexpire_str_law) simp_all
next
  fix s assume s: "coherent s" "table s = L"
  show "coherent (case live_st s CF_OWNER_ALIVE (alive_key o') of
      Some v \<Rightarrow> put_st CF_OWNER_ALIVE (alive_key o') v ttl s | None \<Rightarrow> s) \<and>
    Q () (table (case live_st s CF_OWNER_ALIVE (alive_key o') of
      Some v \<Rightarrow> put_st CF_OWNER_ALIVE (alive_key o') v ttl s | None \<Rightarrow> s))"
  proof (cases "live_st s CF_OWNER_ALIVE (alive_key o')")
    case None
    with s(2) have "\<not> l_alive L o'" by (auto simp: table_def)
    then have "L\<lparr>l_alive := (l_alive L)(o' := False)\<rparr> = L" by (simp add: fun_upd_idem)
    with assms(2) s None \<open>\<not> l_alive L o'\<close> show ?thesis by simp
  next
    case (Some v)
    with s(2) assms(1) have "l_alive L o'" by (auto simp: table_def)
    with assms s Some show ?thesis by (simp add: table_put_record coherent_put_record)
  qed
qed

lemma lspec_hold_page [lspec_rules]:
  assumes "nul_free o'" and "member_prefix (own_prefix o') \<le> page_start (own_prefix o') cursor"
    and post: "\<And>ms nx. set ms = {m \<in> l_own L o'. in_key_range (page_start (own_prefix o') cursor) nx (member_key (own_prefix o') m)} \<Longrightarrow>
      (\<And>n. nx = Some n \<Longrightarrow> prefix (member_prefix (own_prefix o')) n \<and>
        (0 < page \<longrightarrow> (\<exists>x \<in> l_hold_keys L. in_key_range (page_start (own_prefix o') cursor) nx x))) \<Longrightarrow>
      Q (ms, nx) L"
  shows "lspec ok st (smembers_page T CF_OWNER_HOLDS (own_prefix o') cursor page) L Q"
proof (rule read_spec)
  show "ok t \<Longrightarrow> smembers_page T CF_OWNER_HOLDS (own_prefix o') cursor page t = Inr (a, t') \<Longrightarrow> ok t' \<and> st t' = st t \<and>
    (set (fst a) = page_members (st t) CF_OWNER_HOLDS (own_prefix o') (page_start (own_prefix o') cursor) (snd a) \<and>
    (\<forall>n. snd a = Some n \<longrightarrow> prefix (member_prefix (own_prefix o')) n \<and>
      (0 < page \<longrightarrow> (\<exists>x \<in> s_raw (st t) CF_OWNER_HOLDS. in_key_range (page_start (own_prefix o') cursor) (snd a) x))))" for t a t'
    using smembers_page_law[OF _ _ assms(2), of t CF_OWNER_HOLDS page "fst a" "snd a" t'] by simp
next
  fix a s assume s: "coherent s" "table s = L"
    and p: "set (fst a) = page_members s CF_OWNER_HOLDS (own_prefix o') (page_start (own_prefix o') cursor) (snd a) \<and>
    (\<forall>n. snd a = Some n \<longrightarrow> prefix (member_prefix (own_prefix o')) n \<and>
      (0 < page \<longrightarrow> (\<exists>x \<in> s_raw s CF_OWNER_HOLDS. in_key_range (page_start (own_prefix o') cursor) (snd a) x)))"
  note live = set_coherent_live(1)[OF coherent_sets(2)[OF s(1)] assms(1)]
  have own: "l_own L o' = members_of s CF_OWNER_HOLDS o'" and keys: "l_hold_keys L = s_raw s CF_OWNER_HOLDS"
    using s(2) by (auto simp: table_def)
  have "page_members s CF_OWNER_HOLDS (own_prefix o') lo up =
      {m \<in> l_own L o'. in_key_range lo up (member_key (own_prefix o') m)}" for lo up
    unfolding page_members_def own prefix_def member_key_def[symmetric] own_prefix_def
    by (auto simp: live member_key_def[symmetric] split: if_splits)
  with post[of "fst a" "snd a"] p keys show "Q a L" by simp
qed

end

end
