(* ===== verification/Lock_Invariant.thy ===== *)
theory Lock_Invariant
  imports Table_Logic
begin

text \<open>
  The invariant of the lock table, and the two ways the engine changes a table: it drops records of
  owners it may drop (the dead ones during validation, the releasing owner's on release), and it
  takes a lock that validation allowed. Both keep the invariant, and the invariant excludes two
  owners from holding conflicting locks. Everything here is about tables; the engine's programs are
  connected to it in the theory that follows.
\<close>

section \<open>The invariant\<close>

definition alg_of :: "lock_table \<Rightarrow> string \<Rightarrow> mode \<Rightarrow> string \<Rightarrow> lock_algorithm" where
  "alg_of L o' m q =
     (case l_alg L o' m q of
        None \<Rightarrow> default_lock_algorithm
      | Some raw \<Rightarrow> (case algorithm_from_str raw of Inr a \<Rightarrow> a | Inl _ \<Rightarrow> default_lock_algorithm))"

text \<open>Every hold is in the descendant indexes of all ancestors of its path.\<close>

definition indexed :: "lock_table \<Rightarrow> bool" where
  "indexed L \<longleftrightarrow>
     (\<forall>q a. l_wr L q \<noteq> None \<longrightarrow> a \<in> set (get_ancestors q) \<longrightarrow> q \<in> l_wrd L a) \<and>
     (\<forall>q a. l_rd L q \<noteq> {} \<longrightarrow> a \<in> set (get_ancestors q) \<longrightarrow> q \<in> l_rdd L a)"

text \<open>Semaphore permits and write locks live on different paths, told apart by \<open>sp\<close>.\<close>

definition separated :: "(string \<Rightarrow> bool) \<Rightarrow> lock_table \<Rightarrow> bool" where
  "separated sp L \<longleftrightarrow> (\<forall>q. (l_wr L q \<noteq> None \<longrightarrow> \<not> sp q) \<and> (l_sem L q \<noteq> {} \<longrightarrow> sp q))"

text \<open>A writer excludes other readers of its path, a recursive one everybody else below it.\<close>

definition exclusive :: "lock_table \<Rightarrow> bool" where
  "exclusive L \<longleftrightarrow>
     (\<forall>q o'. l_wr L q = Some o' \<longrightarrow> l_rd L q \<subseteq> {o'}) \<and>
     (\<forall>a o' q. l_wr L a = Some o' \<longrightarrow> recursive (alg_of L o' Write a) \<longrightarrow> a \<in> set (get_ancestors q) \<longrightarrow>
        (\<forall>o''. l_wr L q = Some o'' \<longrightarrow> o'' = o') \<and> l_rd L q \<subseteq> {o'})"

text \<open>The algorithm recorded for a hold tells semaphore holders from the others.\<close>

definition marked :: "lock_table \<Rightarrow> bool" where
  "marked L \<longleftrightarrow>
     (\<forall>q o'. l_wr L q = Some o' \<longrightarrow> \<not> is_semaphore (alg_of L o' Write q)) \<and>
     (\<forall>q. \<forall>o' \<in> l_sem L q. is_semaphore (alg_of L o' Write q)) \<and>
     (\<forall>o' q. \<not> is_semaphore (alg_of L o' Read q))"

text \<open>A semaphore in use has a capacity, and never more holders than that.\<close>

definition cap_of :: "lock_table \<Rightarrow> string \<Rightarrow> u32 option" where
  "cap_of L q = Option.bind (l_cap L q) parse_u32"

definition within_capacity :: "lock_table \<Rightarrow> bool" where
  "within_capacity L \<longleftrightarrow>
     (\<forall>q. l_sem L q \<noteq> {} \<longrightarrow>
        finite (l_sem L q) \<and> (\<exists>c. cap_of L q = Some c \<and> card (l_sem L q) \<le> unat c))"

definition lock_inv :: "(string \<Rightarrow> bool) \<Rightarrow> lock_table \<Rightarrow> bool" where
  "lock_inv sp L \<longleftrightarrow> indexed L \<and> separated sp L \<and> exclusive L \<and> marked L \<and> within_capacity L"

text \<open>The hold set of an owner names every hold of the owner.\<close>

definition named :: "lock_table \<Rightarrow> string \<Rightarrow> mode \<Rightarrow> string \<Rightarrow> bool" where
  "named L o' m q \<longleftrightarrow> (\<exists>ns p. nul_free ns \<and> scoped_path ns p = q \<and> hold_member ns m p \<in> l_own L o')"

definition holds :: "lock_table \<Rightarrow> string \<Rightarrow> mode \<Rightarrow> string \<Rightarrow> bool" where
  "holds L o' m q \<longleftrightarrow> (case m of Write \<Rightarrow> l_wr L q = Some o' \<or> o' \<in> l_sem L q | Read \<Rightarrow> o' \<in> l_rd L q)"

definition own_complete :: "lock_table \<Rightarrow> bool" where
  "own_complete L \<longleftrightarrow> (\<forall>o' m q. holds L o' m q \<longrightarrow> named L o' m q)"

section \<open>Dropping records\<close>

text \<open>
  From \<open>L\<close> to \<open>L'\<close> only records of owners in \<open>D\<close> were dropped: an index entry goes only when nobody
  holds its path any more, and the algorithm of a hold goes only with the hold.
\<close>

definition drops :: "(string \<Rightarrow> bool) \<Rightarrow> lock_table \<Rightarrow> lock_table \<Rightarrow> bool" where
  "drops D L L' \<longleftrightarrow>
     (\<forall>q. l_wr L' q \<noteq> l_wr L q \<longrightarrow> l_wr L' q = None \<and> (\<exists>o'. l_wr L q = Some o' \<and> D o')) \<and>
     (\<forall>q. l_rd L' q \<subseteq> l_rd L q \<and> (\<forall>o' \<in> l_rd L q - l_rd L' q. D o')) \<and>
     (\<forall>q. l_sem L' q \<subseteq> l_sem L q \<and> (\<forall>o' \<in> l_sem L q - l_sem L' q. D o')) \<and>
     (\<forall>a. l_wrd L' a \<subseteq> l_wrd L a \<and> (\<forall>q \<in> l_wrd L a - l_wrd L' a. l_wr L' q = None)) \<and>
     (\<forall>a. l_rdd L' a \<subseteq> l_rdd L a \<and> (\<forall>q \<in> l_rdd L a - l_rdd L' a. l_rd L' q = {})) \<and>
     (\<forall>o' q. l_alg L' o' Write q \<noteq> l_alg L o' Write q \<longrightarrow> D o' \<and> l_wr L' q \<noteq> Some o' \<and> o' \<notin> l_sem L' q) \<and>
     (\<forall>o' q. l_alg L' o' Read q \<noteq> l_alg L o' Read q \<longrightarrow> l_alg L' o' Read q = None) \<and>
     l_cap L' = l_cap L \<and> l_fence L' = l_fence L \<and> l_now L' = l_now L"

lemma drops_refl [simp]: "drops D L L"
  by (simp add: drops_def)

lemma drops_wr: "drops D L L' \<Longrightarrow> l_wr L' q = l_wr L q \<or> l_wr L' q = None \<and> (\<exists>o'. l_wr L q = Some o' \<and> D o')"
  by (auto simp: drops_def)

lemma drops_wrD: "drops D L L' \<Longrightarrow> l_wr L' q = Some o' \<Longrightarrow> l_wr L q = Some o'"
  using drops_wr[of D L L' q] by auto

lemma drops_sub:
  assumes "drops D L L'"
  shows "l_rd L' q \<subseteq> l_rd L q" "l_sem L' q \<subseteq> l_sem L q" "l_wrd L' q \<subseteq> l_wrd L q" "l_rdd L' q \<subseteq> l_rdd L q"
  using assms by (auto simp: drops_def)

lemma drops_gone:
  assumes "drops D L L'"
  shows "o' \<in> l_rd L q \<Longrightarrow> \<not> D o' \<Longrightarrow> o' \<in> l_rd L' q"
    and "o' \<in> l_sem L q \<Longrightarrow> \<not> D o' \<Longrightarrow> o' \<in> l_sem L' q"
    and "l_wr L q = Some o' \<Longrightarrow> \<not> D o' \<Longrightarrow> l_wr L' q = Some o'"
    and "q \<in> l_wrd L a \<Longrightarrow> l_wr L' q \<noteq> None \<Longrightarrow> q \<in> l_wrd L' a"
    and "q \<in> l_rdd L a \<Longrightarrow> l_rd L' q \<noteq> {} \<Longrightarrow> q \<in> l_rdd L' a"
proof -
  show "l_wr L q = Some o' \<Longrightarrow> \<not> D o' \<Longrightarrow> l_wr L' q = Some o'" using drops_wr[OF assms, of q] by auto
  show "q \<in> l_wrd L a \<Longrightarrow> l_wr L' q \<noteq> None \<Longrightarrow> q \<in> l_wrd L' a"
    and "q \<in> l_rdd L a \<Longrightarrow> l_rd L' q \<noteq> {} \<Longrightarrow> q \<in> l_rdd L' a"
    using assms unfolding drops_def by (metis DiffI)+
qed (use assms in \<open>auto simp: drops_def\<close>)

lemma drops_alg:
  "drops D L L' \<Longrightarrow> l_wr L' q = Some o' \<or> o' \<in> l_sem L' q \<or> \<not> D o' \<Longrightarrow> l_alg L' o' Write q = l_alg L o' Write q"
  by (auto simp: drops_def)

lemma drops_alg_read: "drops D L L' \<Longrightarrow> l_alg L' o' Read q = l_alg L o' Read q \<or> l_alg L' o' Read q = None"
  unfolding drops_def by metis

lemma drops_same: "drops D L L' \<Longrightarrow> l_cap L' = l_cap L \<and> l_fence L' = l_fence L \<and> l_now L' = l_now L"
  by (simp add: drops_def)

lemma drops_alg_of:
  "drops D L L' \<Longrightarrow> l_wr L' q = Some o' \<or> o' \<in> l_sem L' q \<or> \<not> D o' \<Longrightarrow> alg_of L' o' Write q = alg_of L o' Write q"
  by (simp add: alg_of_def drops_alg)

lemma drops_trans:
  assumes 1: "drops D L L1" and 2: "drops D L1 L2"
  shows "drops D L L2"
  unfolding drops_def
proof (intro conjI allI ballI impI)
  show "l_wr L2 q = None" "\<exists>o'. l_wr L q = Some o' \<and> D o'" if "l_wr L2 q \<noteq> l_wr L q" for q
    using drops_wr[OF 1, of q] drops_wr[OF 2, of q] that by (elim disjE conjE exE; simp)+
  show "l_rd L2 q \<subseteq> l_rd L q" "l_sem L2 q \<subseteq> l_sem L q" "l_wrd L2 q \<subseteq> l_wrd L q" "l_rdd L2 q \<subseteq> l_rdd L q" for q
    using drops_sub[OF 1] drops_sub[OF 2] by blast+
  show "D o'" if "o' \<in> l_rd L q - l_rd L2 q" for o' q
    using drops_gone(1)[OF 1] drops_gone(1)[OF 2] that by blast
  show "D o'" if "o' \<in> l_sem L q - l_sem L2 q" for o' q
    using drops_gone(2)[OF 1] drops_gone(2)[OF 2] that by blast
  show "l_wr L2 q = None" if "q \<in> l_wrd L a - l_wrd L2 a" for q a
    using drops_gone(4)[OF 1, of q a] drops_gone(4)[OF 2, of q a] drops_wr[OF 2, of q] that
    by (cases "l_wr L1 q") auto
  show "l_rd L2 q = {}" if "q \<in> l_rdd L a - l_rdd L2 a" for q a
    using drops_gone(5)[OF 1, of q a] drops_gone(5)[OF 2, of q a] drops_sub(1)[OF 2, of q] that by auto
  fix o' q assume changed: "l_alg L2 o' Write q \<noteq> l_alg L o' Write q"
  show "D o'" using changed drops_alg[OF 1, of q o'] drops_alg[OF 2, of q o'] by (cases "D o'") simp_all
  show "l_wr L2 q \<noteq> Some o'" "o' \<notin> l_sem L2 q"
    using changed drops_alg[OF 1, of q o'] drops_alg[OF 2, of q o'] drops_wrD[OF 2, of q o'] drops_sub(2)[OF 2, of q]
    by (metis subsetD)+
next
  show "l_alg L2 o' Read q = None" if "l_alg L2 o' Read q \<noteq> l_alg L o' Read q" for o' q
    using that drops_alg_read[OF 1, of o' q] drops_alg_read[OF 2, of o' q] by auto
qed (use drops_same[OF 1] drops_same[OF 2] in simp_all)

lemma drops_mono: "drops D L L' \<Longrightarrow> (\<And>x. D x \<Longrightarrow> E x) \<Longrightarrow> drops E L L'"
  unfolding drops_def by blast

lemma drops_indexed: "drops D L L' \<Longrightarrow> indexed L \<Longrightarrow> indexed L'"
  unfolding indexed_def
proof (intro conjI allI impI)
  fix q a assume d: "drops D L L'" and i: "(\<forall>q a. l_wr L q \<noteq> None \<longrightarrow> a \<in> set (get_ancestors q) \<longrightarrow> q \<in> l_wrd L a) \<and>
    (\<forall>q a. l_rd L q \<noteq> {} \<longrightarrow> a \<in> set (get_ancestors q) \<longrightarrow> q \<in> l_rdd L a)" and a: "a \<in> set (get_ancestors q)"
  show "q \<in> l_wrd L' a" if "l_wr L' q \<noteq> None"
    using i a that drops_wr[OF d, of q] by (intro drops_gone(4)[OF d]) auto
  show "q \<in> l_rdd L' a" if "l_rd L' q \<noteq> {}"
  proof (rule drops_gone(5)[OF d _ that])
    from that drops_sub(1)[OF d, of q] have "l_rd L q \<noteq> {}" by auto
    with i a show "q \<in> l_rdd L a" by simp
  qed
qed

lemma drops_separated: "drops D L L' \<Longrightarrow> separated sp L \<Longrightarrow> separated sp L'"
  unfolding separated_def by (metis drops_wr drops_sub(2) subset_empty)

lemma drops_exclusive: "drops D L L' \<Longrightarrow> exclusive L \<Longrightarrow> exclusive L'"
  unfolding exclusive_def
proof (intro conjI allI impI)
  assume d: "drops D L L'" and e: "(\<forall>q o'. l_wr L q = Some o' \<longrightarrow> l_rd L q \<subseteq> {o'}) \<and>
    (\<forall>a o' q. l_wr L a = Some o' \<longrightarrow> recursive (alg_of L o' Write a) \<longrightarrow> a \<in> set (get_ancestors q) \<longrightarrow>
       (\<forall>o''. l_wr L q = Some o'' \<longrightarrow> o'' = o') \<and> l_rd L q \<subseteq> {o'})"
  show "l_rd L' q \<subseteq> {o'}" if "l_wr L' q = Some o'" for q o'
    using e drops_wrD[OF d that] drops_sub(1)[OF d, of q] by blast
  fix a o' q assume a: "l_wr L' a = Some o'" "recursive (alg_of L' o' Write a)" "a \<in> set (get_ancestors q)"
  then have "l_wr L a = Some o'" "recursive (alg_of L o' Write a)"
    using drops_wrD[OF d] drops_alg_of[OF d, of a o'] by simp_all
  with e a(3) have "(\<forall>o''. l_wr L q = Some o'' \<longrightarrow> o'' = o') \<and> l_rd L q \<subseteq> {o'}" by blast
  then show "\<And>o''. l_wr L' q = Some o'' \<Longrightarrow> o'' = o'" "l_rd L' q \<subseteq> {o'}"
    using drops_wrD[OF d, of q] drops_sub(1)[OF d, of q] by blast+
qed

lemma drops_marked: "drops D L L' \<Longrightarrow> marked L \<Longrightarrow> marked L'"
  unfolding marked_def
proof (intro conjI allI impI ballI)
  assume d: "drops D L L'" and m: "(\<forall>q o'. l_wr L q = Some o' \<longrightarrow> \<not> is_semaphore (alg_of L o' Write q)) \<and>
     (\<forall>q. \<forall>o' \<in> l_sem L q. is_semaphore (alg_of L o' Write q)) \<and> (\<forall>o' q. \<not> is_semaphore (alg_of L o' Read q))"
  show "\<not> is_semaphore (alg_of L' o' Write q)" if "l_wr L' q = Some o'" for q o'
    using m drops_wrD[OF d that] drops_alg_of[OF d, of q o'] that by simp
  show "is_semaphore (alg_of L' o' Write q)" if "o' \<in> l_sem L' q" for q o'
    using m drops_sub(2)[OF d, of q] drops_alg_of[OF d, of q o'] that by auto
  show "\<not> is_semaphore (alg_of L' o' Read q)" for o' q
    using m drops_alg_read[OF d, of o' q] by (auto simp: alg_of_def default_lock_algorithm_def)
qed

lemma drops_within_capacity: "drops D L L' \<Longrightarrow> within_capacity L \<Longrightarrow> within_capacity L'"
  unfolding within_capacity_def
proof (intro allI impI conjI)
  fix q assume d: "drops D L L'" and w: "\<forall>q. l_sem L q \<noteq> {} \<longrightarrow> finite (l_sem L q) \<and>
    (\<exists>c. cap_of L q = Some c \<and> card (l_sem L q) \<le> unat c)" and ne: "l_sem L' q \<noteq> {}"
  from ne drops_sub(2)[OF d, of q] w have fin: "finite (l_sem L q)"
    and cap: "\<exists>c. cap_of L q = Some c \<and> card (l_sem L q) \<le> unat c" by auto
  show "finite (l_sem L' q)" using fin drops_sub(2)[OF d] by (rule rev_finite_subset)
  show "\<exists>c. cap_of L' q = Some c \<and> card (l_sem L' q) \<le> unat c"
    using cap card_mono[OF fin drops_sub(2)[OF d]] drops_same[OF d] unfolding cap_of_def by (metis order_trans)
qed

lemma drops_inv: "drops D L L' \<Longrightarrow> lock_inv sp L \<Longrightarrow> lock_inv sp L'"
  by (simp add: lock_inv_def drops_indexed drops_separated drops_exclusive drops_marked drops_within_capacity)

lemma drops_holds: "drops D L L' \<Longrightarrow> holds L' o' m q \<Longrightarrow> holds L o' m q"
  using drops_wrD[of D L L' q o'] drops_sub[of D L L' q] by (auto simp: holds_def split: mode.splits)

lemma drops_own_complete: "drops D L L' \<Longrightarrow> l_own L' = l_own L \<Longrightarrow> own_complete L \<Longrightarrow> own_complete L'"
  using drops_holds by (fastforce simp: own_complete_def named_def)

section \<open>Mutual exclusion\<close>

text \<open>The lock, write or read, that an owner holds on a path, with the algorithm it was taken under.\<close>

definition rw_hold :: "lock_table \<Rightarrow> string \<Rightarrow> mode \<Rightarrow> string \<Rightarrow> bool" where
  "rw_hold L o' m q \<longleftrightarrow> (case m of Write \<Rightarrow> l_wr L q = Some o' | Read \<Rightarrow> o' \<in> l_rd L q)"

lemma exclusive_covers:
  assumes "exclusive L" and "rw_hold L o1 m1 q1" and "rw_hold L o2 m2 q2"
    and "lock_covers (alg_of L o1 m1 q1) m1 q1 q2"
  shows "o1 = o2"
proof -
  from assms(4) have m1: "m1 = Write" and c: "q2 = q1 \<or> recursive (alg_of L o1 Write q1) \<and> q1 \<in> set (get_ancestors q2)"
    by (auto simp: lock_covers_def is_strict_ancestor_iff)
  with assms(2) have w: "l_wr L q1 = Some o1" by (simp add: rw_hold_def)
  from c show ?thesis
  proof
    assume "q2 = q1"
    with assms(1,3) w show ?thesis by (cases m2) (fastforce simp: rw_hold_def exclusive_def)+
  next
    assume "recursive (alg_of L o1 Write q1) \<and> q1 \<in> set (get_ancestors q2)"
    with assms(1) w have "(\<forall>o''. l_wr L q2 = Some o'' \<longrightarrow> o'' = o1) \<and> l_rd L q2 \<subseteq> {o1}"
      unfolding exclusive_def by blast
    with assms(3) show ?thesis by (cases m2) (auto simp: rw_hold_def)
  qed
qed

lemma inv_mutual_exclusion:
  assumes "lock_inv sp L" and "rw_hold L o1 m1 q1" and "rw_hold L o2 m2 q2" and "o1 \<noteq> o2"
  shows "\<not> locks_conflict (alg_of L o1 m1 q1) q1 m1 (alg_of L o2 m2 q2) q2 m2"
  using exclusive_covers[of L o1 m1 q1 o2 m2 q2] exclusive_covers[of L o2 m2 q2 o1 m1 q1] assms
  by (auto simp: lock_inv_def locks_conflict_covers)

section \<open>Taking locks\<close>

text \<open>What validation establishes before a lock is taken by \<open>o'\<close> on \<open>q\<close>.\<close>

definition free_above :: "string \<Rightarrow> string \<Rightarrow> lock_table \<Rightarrow> bool" where
  "free_above o' q L \<longleftrightarrow>
     (\<forall>a \<in> set (get_ancestors q). \<forall>x. l_wr L a = Some x \<longrightarrow> x \<noteq> o' \<longrightarrow> \<not> recursive (alg_of L x Write a))"

definition may_read :: "string \<Rightarrow> string \<Rightarrow> lock_table \<Rightarrow> bool" where
  "may_read o' q L \<longleftrightarrow> (\<forall>x. l_wr L q = Some x \<longrightarrow> x = o') \<and> free_above o' q L"

definition may_write :: "string \<Rightarrow> lock_algorithm \<Rightarrow> string \<Rightarrow> lock_table \<Rightarrow> bool" where
  "may_write o' alg q L \<longleftrightarrow> may_read o' q L \<and> l_rd L q \<subseteq> {o'} \<and>
     (recursive alg \<longrightarrow> (\<forall>d. q \<in> set (get_ancestors d) \<longrightarrow>
        (\<forall>x. l_wr L d = Some x \<longrightarrow> x = o') \<and> l_rd L d \<subseteq> {o'}))"

definition may_enter :: "string \<Rightarrow> u32 \<Rightarrow> string \<Rightarrow> lock_table \<Rightarrow> bool" where
  "may_enter o' n q L \<longleftrightarrow> finite (l_sem L q) \<and> card (insert o' (l_sem L q)) \<le> unat n"

lemma drops_free_above: "drops D L L' \<Longrightarrow> free_above o' q L \<Longrightarrow> free_above o' q L'"
  unfolding free_above_def using drops_wrD drops_alg_of by metis

lemma drops_may:
  assumes d: "drops D L L'"
  shows "may_read o' q L \<Longrightarrow> may_read o' q L'"
    and "may_write o' alg q L \<Longrightarrow> may_write o' alg q L'"
    and "may_enter o' n q L \<Longrightarrow> may_enter o' n q L'"
proof -
  show read: "may_read o' q L \<Longrightarrow> may_read o' q L'"
    unfolding may_read_def using drops_wrD[OF d] drops_free_above[OF d] by blast
  show "may_write o' alg q L \<Longrightarrow> may_write o' alg q L'"
    unfolding may_write_def using read drops_wrD[OF d] drops_sub(1)[OF d] by blast
  show "may_enter o' n q L \<Longrightarrow> may_enter o' n q L'"
    unfolding may_enter_def
    using finite_subset[OF drops_sub(2)[OF d, of q]]
      card_mono[OF _ insert_mono[OF drops_sub(2)[OF d, of q]], of o'] by force
qed

text \<open>From \<open>L\<close> to \<open>L'\<close> only records of \<open>o'\<close> were added.\<close>

definition adds :: "string \<Rightarrow> lock_table \<Rightarrow> lock_table \<Rightarrow> bool" where
  "adds o' L L' \<longleftrightarrow>
     (\<forall>q. l_wr L' q = l_wr L q \<or> l_wr L' q = Some o') \<and>
     (\<forall>q x. l_wr L q = Some x \<longrightarrow> l_wr L' q = Some x) \<and>
     (\<forall>q. l_rd L q \<subseteq> l_rd L' q \<and> l_rd L' q \<subseteq> insert o' (l_rd L q)) \<and>
     (\<forall>q. l_sem L q \<subseteq> l_sem L' q \<and> l_sem L' q \<subseteq> insert o' (l_sem L q)) \<and>
     (\<forall>x m q. x \<noteq> o' \<longrightarrow> l_alg L' x m q = l_alg L x m q) \<and>
     (\<forall>x. x \<noteq> o' \<longrightarrow> l_own L' x = l_own L x) \<and> l_own L o' \<subseteq> l_own L' o' \<and>
     l_alive L' = l_alive L \<and> l_now L' = l_now L"

lemma adds_refl [simp]: "adds o' L L"
  by (auto simp: adds_def)

lemma adds_alg_of: "adds o' L L' \<Longrightarrow> x \<noteq> o' \<Longrightarrow> alg_of L' x m q = alg_of L x m q"
  by (simp add: adds_def alg_of_def)

lemma addsD:
  assumes "adds o' L L'"
  shows "l_wr L' q = l_wr L q \<or> l_wr L' q = Some o'"
    and "l_rd L q \<subseteq> l_rd L' q" "l_rd L' q \<subseteq> insert o' (l_rd L q)"
    and "l_sem L q \<subseteq> l_sem L' q" "l_sem L' q \<subseteq> insert o' (l_sem L q)"
    and "l_wr L q = Some x \<Longrightarrow> l_wr L' q = Some x"
    and "l_alive L' = l_alive L" and "l_now L' = l_now L"
  using assms by (simp_all add: adds_def)

lemma adds_may:
  assumes d: "adds o' L L'"
  shows "may_read o' q L \<Longrightarrow> may_read o' q L'"
    and "may_write o' alg q L \<Longrightarrow> may_write o' alg q L'"
    and "may_enter o' n q L \<Longrightarrow> may_enter o' n q L'"
proof -
  have wr: "l_wr L' p = Some x \<Longrightarrow> x \<noteq> o' \<Longrightarrow> l_wr L p = Some x" for p x
    using addsD(1)[OF d, of p] by auto
  have rd: "l_rd L p \<subseteq> {o'} \<Longrightarrow> l_rd L' p \<subseteq> {o'}" for p
    using addsD(3)[OF d, of p] by auto
  have above: "free_above o' q L \<Longrightarrow> free_above o' q L'"
    unfolding free_above_def using wr adds_alg_of[OF d] by metis
  then show read: "may_read o' q L \<Longrightarrow> may_read o' q L'"
    unfolding may_read_def using wr by blast
  show "may_write o' alg q L \<Longrightarrow> may_write o' alg q L'"
    unfolding may_write_def using read wr rd by blast
  have sem: "insert o' (l_sem L' q) = insert o' (l_sem L q)" using addsD(4,5)[OF d, of q] by auto
  moreover have "finite (l_sem L' q) \<longleftrightarrow> finite (l_sem L q)" using sem by (metis finite_insert)
  ultimately show "may_enter o' n q L \<Longrightarrow> may_enter o' n q L'"
    by (simp add: may_enter_def)
qed

text \<open>A hold of the owner's own allows taking the same lock again.\<close>

lemma hold_may:
  assumes "lock_inv sp L"
  shows "l_wr L q = Some o' \<Longrightarrow> may_write o' (alg_of L o' Write q) q L"
    and "o' \<in> l_rd L q \<Longrightarrow> may_read o' q L"
    and "o' \<in> l_sem L q \<Longrightarrow> \<exists>c. cap_of L q = Some c \<and> may_enter o' c q L"
proof -
  have e: "exclusive L" and w: "within_capacity L" using assms by (simp_all add: lock_inv_def)
  have above: "free_above o' q L" if "l_wr L q = Some o' \<or> o' \<in> l_rd L q"
    using e that unfolding exclusive_def free_above_def by blast
  show "l_wr L q = Some o' \<Longrightarrow> may_write o' (alg_of L o' Write q) q L"
    using above e unfolding may_write_def may_read_def exclusive_def by auto
  show "o' \<in> l_rd L q \<Longrightarrow> may_read o' q L"
    using above e unfolding may_read_def exclusive_def by blast
  show "o' \<in> l_sem L q \<Longrightarrow> \<exists>c. cap_of L q = Some c \<and> may_enter o' c q L"
    using w unfolding within_capacity_def may_enter_def by (metis empty_iff insert_absorb)
qed

lemma alg_of_upd:
  "l_alg L' = alg_upd o' m q (Some (algorithm_str alg)) (l_alg L) \<Longrightarrow>
     alg_of L' x n p = (if x = o' \<and> n = m \<and> p = q then alg else alg_of L x n p)"
  by (simp add: alg_of_def alg_upd_def algorithm_from_str_algorithm_str)

definition add_index :: "mode \<Rightarrow> string \<Rightarrow> lock_table \<Rightarrow> lock_table" where
  "add_index m q L = (case m of
     Write \<Rightarrow> L\<lparr>l_wrd := (\<lambda>a. if a \<in> set (get_ancestors q) then insert q (l_wrd L a) else l_wrd L a)\<rparr>
   | Read \<Rightarrow> L\<lparr>l_rdd := (\<lambda>a. if a \<in> set (get_ancestors q) then insert q (l_rdd L a) else l_rdd L a)\<rparr>)"

definition rm_index :: "mode \<Rightarrow> string \<Rightarrow> lock_table \<Rightarrow> lock_table" where
  "rm_index m q L = (case m of
     Write \<Rightarrow> L\<lparr>l_wrd := (\<lambda>a. if a \<in> set (get_ancestors q) then l_wrd L a - {q} else l_wrd L a)\<rparr>
   | Read \<Rightarrow> L\<lparr>l_rdd := (\<lambda>a. if a \<in> set (get_ancestors q) then l_rdd L a - {q} else l_rdd L a)\<rparr>)"

text \<open>The hold set and the algorithm after a lock has been taken.\<close>

definition note_hold :: "string \<Rightarrow> string \<Rightarrow> mode \<Rightarrow> string \<Rightarrow> lock_algorithm \<Rightarrow> lock_table \<Rightarrow> lock_table" where
  "note_hold o' ns m p alg L =
     L\<lparr>l_own := (l_own L)(o' := insert (hold_member ns m p) (l_own L o')),
       l_hold_keys := insert (member_key (o' @ [NUL]) (hold_member ns m p)) (l_hold_keys L),
       l_alg := alg_upd o' m (scoped_path ns p) (Some (algorithm_str alg)) (l_alg L)\<rparr>"

definition take_write :: "string \<Rightarrow> string \<Rightarrow> string \<Rightarrow> lock_algorithm \<Rightarrow> i64 \<Rightarrow> lock_table \<Rightarrow> lock_table" where
  "take_write o' ns p alg token L =
     (let q = scoped_path ns p in
      note_hold o' ns Write p alg (add_index Write q
        (L\<lparr>l_wr := (l_wr L)(q \<mapsto> o'), l_fence := (l_fence L)(q \<mapsto> int_str token)\<rparr>)))"

definition take_read :: "string \<Rightarrow> string \<Rightarrow> string \<Rightarrow> lock_algorithm \<Rightarrow> lock_table \<Rightarrow> lock_table" where
  "take_read o' ns p alg L =
     (let q = scoped_path ns p in
      note_hold o' ns Read p alg (add_index Read q (L\<lparr>l_rd := (l_rd L)(q := insert o' (l_rd L q))\<rparr>)))"

definition take_permit :: "string \<Rightarrow> string \<Rightarrow> string \<Rightarrow> lock_algorithm \<Rightarrow> lock_table \<Rightarrow> lock_table" where
  "take_permit o' ns p alg L =
     (let q = scoped_path ns p in
      note_hold o' ns Write p alg (L\<lparr>l_sem := (l_sem L)(q := insert o' (l_sem L q))\<rparr>))"

lemmas take_defs = take_write_def take_read_def take_permit_def note_hold_def add_index_def Let_def

lemma take_alg_of [simp]:
  "alg_of (take_write o' ns p alg token L) x n r = (if x = o' \<and> n = Write \<and> r = scoped_path ns p then alg else alg_of L x n r)"
  "alg_of (take_read o' ns p alg L) x n r = (if x = o' \<and> n = Read \<and> r = scoped_path ns p then alg else alg_of L x n r)"
  "alg_of (take_permit o' ns p alg L) x n r = (if x = o' \<and> n = Write \<and> r = scoped_path ns p then alg else alg_of L x n r)"
  by (rule alg_of_upd; simp add: take_defs)+

lemma take_write_inv:
  assumes inv: "lock_inv sp L" and may: "may_write o' alg (scoped_path ns p) L"
    and "\<not> sp (scoped_path ns p)" and "\<not> is_semaphore alg"
  shows "lock_inv sp (take_write o' ns p alg token L)"
proof -
  let ?q = "scoped_path ns p" and ?L = "take_write o' ns p alg token L"
  have f: "l_wr ?L = (l_wr L)(?q \<mapsto> o')" "l_rd ?L = l_rd L" "l_sem ?L = l_sem L" "l_cap ?L = l_cap L"
    "l_rdd ?L = l_rdd L" "l_wrd ?L = (\<lambda>a. if a \<in> set (get_ancestors ?q) then insert ?q (l_wrd L a) else l_wrd L a)"
    by (simp_all add: take_defs cong: if_cong)
  have i: "indexed L" "separated sp L" "exclusive L" "marked L" "within_capacity L"
    using inv by (simp_all add: lock_inv_def)
  have sem: "l_sem L ?q = {}" using i(2) assms(3) by (auto simp: separated_def)
  have "indexed ?L" using i(1) by (auto simp: indexed_def f)
  moreover have "separated sp ?L" using i(2) assms(3) by (simp add: separated_def f)
  moreover have "marked ?L" using i(4) assms(4) sem by (auto simp: marked_def f)
  moreover have "within_capacity ?L" using i(5) by (simp add: within_capacity_def cap_of_def f)
  moreover have "exclusive ?L"
    unfolding exclusive_def f
  proof (intro conjI allI impI)
    show "l_rd L q \<subseteq> {x}" if "((l_wr L)(?q \<mapsto> o')) q = Some x" for q x
      using that i(3) may by (auto simp: exclusive_def may_write_def split: if_splits)
    fix a x q assume a: "((l_wr L)(?q \<mapsto> o')) a = Some x" "recursive (alg_of ?L x Write a)" "a \<in> set (get_ancestors q)"
    have "(\<forall>y. l_wr L q = Some y \<longrightarrow> y = x) \<and> l_rd L q \<subseteq> {x} \<and> (q = ?q \<longrightarrow> x = o')"
    proof (cases "a = ?q")
      case True
      with a may get_ancestors_shorter[of a q] show ?thesis by (auto simp: may_write_def)
    next
      case False
      with a have "l_wr L a = Some x" "recursive (alg_of L x Write a)" by simp_all
      with a(3) i(3) may show ?thesis
        unfolding exclusive_def may_write_def may_read_def free_above_def by blast
    qed
    then show "\<And>y. ((l_wr L)(?q \<mapsto> o')) q = Some y \<Longrightarrow> y = x" "l_rd L q \<subseteq> {x}" by (auto split: if_splits)
  qed
  ultimately show ?thesis by (simp add: lock_inv_def)
qed

lemma take_read_inv:
  assumes inv: "lock_inv sp L" and may: "may_read o' (scoped_path ns p) L" and "\<not> is_semaphore alg"
  shows "lock_inv sp (take_read o' ns p alg L)"
proof -
  let ?q = "scoped_path ns p" and ?L = "take_read o' ns p alg L"
  have f: "l_wr ?L = l_wr L" "l_rd ?L = (l_rd L)(?q := insert o' (l_rd L ?q))" "l_sem ?L = l_sem L" "l_cap ?L = l_cap L"
    "l_wrd ?L = l_wrd L" "l_rdd ?L = (\<lambda>a. if a \<in> set (get_ancestors ?q) then insert ?q (l_rdd L a) else l_rdd L a)"
    by (simp_all add: take_defs cong: if_cong)
  have i: "indexed L" "separated sp L" "exclusive L" "marked L" "within_capacity L"
    using inv by (simp_all add: lock_inv_def)
  have "indexed ?L" using i(1) by (auto simp: indexed_def f)
  moreover have "separated sp ?L" using i(2) by (simp add: separated_def f)
  moreover have "marked ?L" using i(4) assms(3) by (auto simp: marked_def f)
  moreover have "within_capacity ?L" using i(5) by (simp add: within_capacity_def cap_of_def f)
  moreover have "exclusive ?L"
    unfolding exclusive_def f
  proof (intro conjI allI impI)
    show "((l_rd L)(?q := insert o' (l_rd L ?q))) q \<subseteq> {x}" if "l_wr L q = Some x" for q x
      using that i(3) may by (auto simp: exclusive_def may_read_def)
    fix a x q assume a: "l_wr L a = Some x" "recursive (alg_of ?L x Write a)" "a \<in> set (get_ancestors q)"
    then have "(\<forall>y. l_wr L q = Some y \<longrightarrow> y = x) \<and> l_rd L q \<subseteq> {x} \<and> (q = ?q \<longrightarrow> x = o')"
      using i(3) may by (auto simp: exclusive_def may_read_def free_above_def)
    then show "\<And>y. l_wr L q = Some y \<Longrightarrow> y = x" "((l_rd L)(?q := insert o' (l_rd L ?q))) q \<subseteq> {x}" by auto
  qed
  ultimately show ?thesis by (simp add: lock_inv_def)
qed

lemma take_permit_inv:
  assumes inv: "lock_inv sp L" and may: "may_enter o' n (scoped_path ns p) L" and cap: "cap_of L (scoped_path ns p) = Some n"
    and "sp (scoped_path ns p)" and "is_semaphore alg"
  shows "lock_inv sp (take_permit o' ns p alg L)"
proof -
  let ?q = "scoped_path ns p" and ?L = "take_permit o' ns p alg L"
  have f: "l_wr ?L = l_wr L" "l_rd ?L = l_rd L" "l_sem ?L = (l_sem L)(?q := insert o' (l_sem L ?q))" "l_cap ?L = l_cap L"
    "l_wrd ?L = l_wrd L" "l_rdd ?L = l_rdd L"
    by (simp_all add: take_defs cong: if_cong)
  have i: "indexed L" "separated sp L" "exclusive L" "marked L" "within_capacity L"
    using inv by (simp_all add: lock_inv_def)
  have wr: "l_wr L ?q = None" using i(2) assms(4) by (auto simp: separated_def)
  have "indexed ?L" using i(1) by (simp add: indexed_def f)
  moreover have "separated sp ?L" using i(2) assms(4) by (simp add: separated_def f)
  moreover have "marked ?L" using i(4) assms(5) wr by (auto simp: marked_def f)
  moreover have "within_capacity ?L"
    using i(5) may cap by (simp add: within_capacity_def cap_of_def f may_enter_def)
  moreover have "exclusive ?L" using i(3) wr by (auto simp: exclusive_def f)
  ultimately show ?thesis by (simp add: lock_inv_def)
qed

lemma take_adds:
  "\<forall>x. l_wr L (scoped_path ns p) = Some x \<longrightarrow> x = o' \<Longrightarrow> adds o' L (take_write o' ns p alg token L)"
  "adds o' L (take_read o' ns p alg L)"
  "adds o' L (take_permit o' ns p alg L)"
  by (auto simp: adds_def take_defs alg_upd_def)

lemma take_holds:
  "holds (take_write o' ns p alg token L) x m q \<longleftrightarrow>
     (if m = Write \<and> q = scoped_path ns p then x = o' \<or> x \<in> l_sem L q else holds L x m q)"
  "holds (take_read o' ns p alg L) x m q \<longleftrightarrow> holds L x m q \<or> x = o' \<and> m = Read \<and> q = scoped_path ns p"
  "holds (take_permit o' ns p alg L) x m q \<longleftrightarrow> holds L x m q \<or> x = o' \<and> m = Write \<and> q = scoped_path ns p"
  by (auto simp: holds_def take_defs split: mode.splits)

lemma own_complete_take:
  assumes "own_complete L" and "nul_free ns"
  shows "own_complete (take_write o' ns p alg token L)"
    and "own_complete (take_read o' ns p alg L)"
    and "own_complete (take_permit o' ns p alg L)"
proof -
  have own: "l_own L' = (l_own L)(o' := insert (hold_member ns m p) (l_own L o')) \<Longrightarrow>
    named L x n q \<or> x = o' \<and> n = m \<and> q = scoped_path ns p \<Longrightarrow> named L' x n q" for L' x n q m
    using assms(2) by (auto simp: named_def)
  show "own_complete (take_write o' ns p alg token L)"
    using assms(1) own[of "take_write o' ns p alg token L" Write]
    by (auto simp: own_complete_def take_holds, auto simp: take_defs holds_def split: if_splits)
  show "own_complete (take_read o' ns p alg L)"
    using assms(1) own[of "take_read o' ns p alg L" Read]
    by (auto simp: own_complete_def take_holds, auto simp: take_defs)
  show "own_complete (take_permit o' ns p alg L)"
    using assms(1) own[of "take_permit o' ns p alg L" Write]
    by (auto simp: own_complete_def take_holds, auto simp: take_defs)
qed

section \<open>Giving locks up\<close>

definition drop_write :: "string \<Rightarrow> string \<Rightarrow> lock_table \<Rightarrow> lock_table" where
  "drop_write o' q L = rm_index Write q
     (L\<lparr>l_wr := (l_wr L)(q := None), l_alg := alg_upd o' Write q None (l_alg L)\<rparr>)"

definition drop_reader :: "string \<Rightarrow> string \<Rightarrow> lock_table \<Rightarrow> lock_table" where
  "drop_reader o' q L =
     L\<lparr>l_rd := (l_rd L)(q := l_rd L q - {o'}), l_alg := alg_upd o' Read q None (l_alg L)\<rparr>"

definition drop_permit :: "string \<Rightarrow> string \<Rightarrow> lock_table \<Rightarrow> lock_table" where
  "drop_permit o' q L =
     L\<lparr>l_sem := (l_sem L)(q := l_sem L q - {o'}), l_alg := alg_upd o' Write q None (l_alg L)\<rparr>"

lemma drops_drop_write:
  "l_wr L q = Some o' \<Longrightarrow> D o' \<Longrightarrow> o' \<notin> l_sem L q \<Longrightarrow> drops D L (drop_write o' q L)"
  by (auto simp: drops_def drop_write_def rm_index_def alg_upd_def)

lemma drops_drop_reader: "D o' \<Longrightarrow> drops D L (drop_reader o' q L)"
  by (auto simp: drops_def drop_reader_def alg_upd_def)

lemma drops_drop_permit: "D o' \<Longrightarrow> l_wr L q \<noteq> Some o' \<Longrightarrow> drops D L (drop_permit o' q L)"
  by (auto simp: drops_def drop_permit_def alg_upd_def)

lemma drops_rm_index:
  "l_wr L q = None \<Longrightarrow> drops D L (rm_index Write q L)"
  "l_rd L q = {} \<Longrightarrow> drops D L (rm_index Read q L)"
  by (auto simp: drops_def rm_index_def)

lemma drops_index_entry:
  "l_wr L q = None \<Longrightarrow> drops D L (L\<lparr>l_wrd := (l_wrd L)(a := l_wrd L a - {q})\<rparr>)"
  "l_rd L q = {} \<Longrightarrow> drops D L (L\<lparr>l_rdd := (l_rdd L)(a := l_rdd L a - {q})\<rparr>)"
  by (auto simp: drops_def)

lemma rm_index_simps [simp]:
  "l_wr (rm_index m q L) = l_wr L" "l_rd (rm_index m q L) = l_rd L" "l_sem (rm_index m q L) = l_sem L"
  "l_own (rm_index m q L) = l_own L" "l_alive (rm_index m q L) = l_alive L" "l_cap (rm_index m q L) = l_cap L"
  "l_fence (rm_index m q L) = l_fence L" "l_alg (rm_index m q L) = l_alg L" "l_now (rm_index m q L) = l_now L"
  "l_hold_keys (rm_index m q L) = l_hold_keys L"
  by (simp_all add: rm_index_def split: mode.splits)

lemma drop_simps [simp]:
  "l_own (drop_write o' q L) = l_own L" "l_alive (drop_write o' q L) = l_alive L"
  "l_own (drop_reader o' q L) = l_own L" "l_alive (drop_reader o' q L) = l_alive L"
  "l_own (drop_permit o' q L) = l_own L" "l_alive (drop_permit o' q L) = l_alive L"
  "l_wr (drop_write o' q L) = (l_wr L)(q := None)"
  "l_rd (drop_write o' q L) = l_rd L" "l_sem (drop_write o' q L) = l_sem L"
  "l_rd (drop_reader o' q L) = (l_rd L)(q := l_rd L q - {o'})"
  "l_wr (drop_reader o' q L) = l_wr L" "l_sem (drop_reader o' q L) = l_sem L"
  "l_sem (drop_permit o' q L) = (l_sem L)(q := l_sem L q - {o'})"
  "l_wr (drop_permit o' q L) = l_wr L" "l_rd (drop_permit o' q L) = l_rd L"
  "l_hold_keys (drop_write o' q L) = l_hold_keys L" "l_hold_keys (drop_reader o' q L) = l_hold_keys L"
  "l_hold_keys (drop_permit o' q L) = l_hold_keys L"
  by (simp_all add: drop_write_def drop_reader_def drop_permit_def)

end
