(* ===== verification/Lock_Validate.thy ===== *)
theory Lock_Validate
  imports Lock_Invariant
begin

text \<open>
  What the validation phase of \<open>src/src/engine.rs\<close> does to the lock table and what it establishes:
  it only drops records of dead owners, and a request it lets through may be taken. Proved over the
  lock table for any store that meets \<open>store_writes\<close>.
\<close>

section \<open>Helpers of the engine\<close>

definition prunes :: "lock_table \<Rightarrow> lock_table \<Rightarrow> bool" where
  "prunes L L' \<longleftrightarrow> drops (\<lambda>o'. \<not> l_alive L o') L L' \<and> l_own L' = l_own L \<and> l_alive L' = l_alive L"

lemma prunes_refl [simp]: "prunes L L"
  by (simp add: prunes_def)

lemma prunes_trans: "prunes L L1 \<Longrightarrow> prunes L1 L2 \<Longrightarrow> prunes L L2"
  by (auto simp: prunes_def intro: drops_trans)

lemma prunes_inv: "prunes L L' \<Longrightarrow> lock_inv sp L \<Longrightarrow> lock_inv sp L'"
  by (auto simp: prunes_def intro: drops_inv)

lemma prunes_unindex:
  "l_wr L d = None \<Longrightarrow> prunes L (rm_index Write d (L\<lparr>l_wrd := (l_wrd L)(q := l_wrd L q - {d})\<rparr>))"
  "l_rd L d = {} \<Longrightarrow> prunes L (rm_index Read d (L\<lparr>l_rdd := (l_rdd L)(q := l_rdd L q - {d})\<rparr>))"
  by (auto simp: prunes_def drops_def rm_index_def)

lemma indexed_descendants:
  assumes "indexed L" and "drops D L L'" and "q \<in> set (get_ancestors d)"
  shows "l_wr L' d \<noteq> None \<Longrightarrow> d \<in> l_wrd L q" and "l_rd L' d \<noteq> {} \<Longrightarrow> d \<in> l_rdd L q"
  using assms drops_wr[OF assms(2), of d] drops_sub(1)[OF assms(2), of d] unfolding indexed_def by fastforce+

lemma table_okD:
  assumes "table_ok L"
  shows "l_wr L q = Some o' \<Longrightarrow> nul_free q \<and> nul_free o'"
    and "o' \<in> l_rd L q \<Longrightarrow> nul_free q \<and> nul_free o'"
    and "o' \<in> l_sem L q \<Longrightarrow> nul_free q \<and> nul_free o'"
    and "d \<in> l_wrd L q \<Longrightarrow> nul_free q \<and> nul_free d"
    and "d \<in> l_rdd L q \<Longrightarrow> nul_free q \<and> nul_free d"
    and "finite (l_hold_keys L)"
    and "x \<in> l_own L o' \<Longrightarrow> member_ok x \<and> member_key (o' @ [NUL]) x \<in> l_hold_keys L"
  using assms by (auto simp: table_ok_def)

lemma ancestors_nul_free: "nul_free q \<Longrightarrow> a \<in> set (get_ancestors q) \<Longrightarrow> nul_free a"
  using get_ancestors_chars by blast

lemma fold_index:
  "fold (\<lambda>a L. L\<lparr>l_wrd := (l_wrd L)(a := l_wrd L a - {q})\<rparr>) as L =
     L\<lparr>l_wrd := (\<lambda>a. if a \<in> set as then l_wrd L a - {q} else l_wrd L a)\<rparr>"
  "fold (\<lambda>a L. L\<lparr>l_rdd := (l_rdd L)(a := l_rdd L a - {q})\<rparr>) as L =
     L\<lparr>l_rdd := (\<lambda>a. if a \<in> set as then l_rdd L a - {q} else l_rdd L a)\<rparr>"
  "fold (\<lambda>a L. L\<lparr>l_wrd := (l_wrd L)(a := insert q (l_wrd L a))\<rparr>) as L =
     L\<lparr>l_wrd := (\<lambda>a. if a \<in> set as then insert q (l_wrd L a) else l_wrd L a)\<rparr>"
  "fold (\<lambda>a L. L\<lparr>l_rdd := (l_rdd L)(a := insert q (l_rdd L a))\<rparr>) as L =
     L\<lparr>l_rdd := (\<lambda>a. if a \<in> set as then insert q (l_rdd L a) else l_rdd L a)\<rparr>"
  by (induction as arbitrary: L) (auto simp: fun_eq_iff intro!: lock_table.equality)

text \<open>
  What a request has passed when validation lets it through: \<open>L0\<close> is the table validation started
  from, \<open>L\<close> the one it has reached.
\<close>

definition fenced :: "string \<Rightarrow> i64 \<Rightarrow> string \<Rightarrow> lock_table \<Rightarrow> bool" where
  "fenced o' token q L0 \<longleftrightarrow>
     (\<forall>cur. parse_fence (l_fence L0 q) = Some cur \<longrightarrow> cur \<le> token \<and> (cur = token \<longrightarrow> l_wr L0 q = Some o'))"

definition new_allowed ::
    "string \<Rightarrow> i64 \<Rightarrow> lock_table \<Rightarrow> string \<Rightarrow> lock_algorithm \<Rightarrow> lock_req \<Rightarrow> lock_table \<Rightarrow> bool" where
  "new_allowed o' token L0 ns alg req L \<longleftrightarrow>
     (let q = scoped_path ns (lr_path req) in
      allows_mode alg (lr_mode req) \<and>
      (if is_semaphore alg then may_enter o' (lr_permits req) q L
       else if lr_mode req = Write then may_write o' alg q L \<and> fenced o' token q L0
       else may_read o' q L))"

definition still_held :: "string \<Rightarrow> i64 \<Rightarrow> lock_table \<Rightarrow> string \<Rightarrow> lock_req \<Rightarrow> lock_table \<Rightarrow> bool" where
  "still_held o' token L0 ns req L \<longleftrightarrow>
     (let q = scoped_path ns (lr_path req) in
      holds L o' (lr_mode req) q \<and>
      (lr_mode req = Write \<and> o' \<notin> l_sem L q \<longrightarrow> fenced o' token q L0))"

definition validated ::
    "string \<Rightarrow> i64 \<Rightarrow> lock_table \<Rightarrow> string \<Rightarrow> lock_algorithm \<Rightarrow> lock_req \<Rightarrow> lock_table \<Rightarrow> bool" where
  "validated o' token L0 ns alg req L =
     (case lr_state req of Held \<Rightarrow> still_held o' token L0 ns req L | New \<Rightarrow> new_allowed o' token L0 ns alg req L)"

lemma fenced_prunes: "prunes L0 L \<Longrightarrow> fenced o' token q L \<Longrightarrow> fenced o' token q L0"
  using drops_same drops_wrD unfolding fenced_def prunes_def by metis

lemma drops_new_allowed:
  "drops D L L' \<Longrightarrow> new_allowed o' token L0 ns alg req L \<Longrightarrow> new_allowed o' token L0 ns alg req L'"
  using drops_may[of D L L'] by (auto simp: new_allowed_def Let_def split: if_splits)

lemma drops_still_held:
  assumes d: "drops D L L'" and "\<not> D o'" and "still_held o' token L0 ns req L"
  shows "still_held o' token L0 ns req L'"
  using assms(3) drops_gone(1-3)[OF d _ assms(2)] by (auto simp: still_held_def holds_def Let_def split: mode.splits)

lemma prunes_validated:
  "prunes L L' \<Longrightarrow> (lr_state req = Held \<longrightarrow> l_alive L o') \<Longrightarrow>
     validated o' token L0 ns alg req L \<Longrightarrow> validated o' token L0 ns alg req L'"
  using drops_new_allowed drops_still_held by (auto simp: validated_def prunes_def split: lock_state.splits)

lemma adds_validated:
  assumes "adds o' L L'" and "validated o' token L0 ns alg req L"
  shows "validated o' token L0 ns alg req L'"
  using assms(2) adds_may[OF assms(1)] addsD(2,4,6)[OF assms(1)]
  by (fastforce simp: validated_def new_allowed_def still_held_def holds_def Let_def split: lock_state.splits mode.splits if_splits)

text \<open>Requests the service lets through: NUL-free, and semaphore requests only on semaphore paths.\<close>

definition requests_ok :: "(string \<Rightarrow> bool) \<Rightarrow> string \<Rightarrow> lock_algorithm \<Rightarrow> lock_req list \<Rightarrow> bool" where
  "requests_ok sp ns alg reqs \<longleftrightarrow>
     nul_free ns \<and> (\<forall>r \<in> set reqs. nul_free (lr_path r) \<and>
       (lr_state r = New \<longrightarrow> (is_semaphore alg \<longleftrightarrow> sp (scoped_path ns (lr_path r)))))"

text \<open>What a taken request leaves behind.\<close>

definition granted :: "string \<Rightarrow> i64 \<Rightarrow> string \<Rightarrow> lock_req \<Rightarrow> lock_table \<Rightarrow> bool" where
  "granted o' token ns req L \<longleftrightarrow>
     (let q = scoped_path ns (lr_path req) in
      holds L o' (lr_mode req) q \<and>
      (lr_mode req = Write \<and> o' \<notin> l_sem L q \<longrightarrow> l_fence L q = Some (int_str token)))"

definition taken :: "(string \<Rightarrow> bool) \<Rightarrow> i64 \<Rightarrow> string \<Rightarrow> lock_table \<Rightarrow> lock_table \<Rightarrow> bool" where
  "taken sp token o' L L' \<longleftrightarrow> lock_inv sp L' \<and> adds o' L L' \<and> (own_complete L \<longrightarrow> own_complete L') \<and>
     (\<forall>q. l_fence L' q = l_fence L q \<or> l_fence L' q = Some (int_str token))"

lemma take_fence:
  "l_fence (take_write o' ns p alg token L) = (l_fence L)(scoped_path ns p \<mapsto> int_str token)"
  "l_fence (take_read o' ns p alg L) = l_fence L"
  "l_fence (take_permit o' ns p alg L) = l_fence L"
  by (simp_all add: take_defs)

lemma taken_write:
  assumes "lock_inv sp L" and "may_write o' alg (scoped_path ns p) L" and "\<not> sp (scoped_path ns p)"
    and "\<not> is_semaphore alg" and "nul_free ns" and "lr_path req = p" and "lr_mode req = Write"
  shows "taken sp token o' L (take_write o' ns p alg token L) \<and> granted o' token ns req (take_write o' ns p alg token L)"
proof -
  have "\<forall>x. l_wr L (scoped_path ns p) = Some x \<longrightarrow> x = o'" using assms(2) by (simp add: may_write_def may_read_def)
  with assms show ?thesis
    unfolding taken_def granted_def Let_def assms(6,7)
    by (simp add: take_write_inv take_adds own_complete_take take_holds take_fence)
qed

lemma taken_read:
  assumes "lock_inv sp L" and "may_read o' (scoped_path ns p) L" and "\<not> is_semaphore alg" and "nul_free ns"
    and "lr_path req = p" and "lr_mode req = Read"
  shows "taken sp token o' L (take_read o' ns p alg L) \<and> granted o' token ns req (take_read o' ns p alg L)"
  using assms unfolding taken_def granted_def Let_def assms(5,6)
  by (simp add: take_read_inv take_adds own_complete_take take_holds take_fence)

lemma taken_permit:
  assumes "lock_inv sp L" and "may_enter o' n (scoped_path ns p) L" and "cap_of L (scoped_path ns p) = Some n"
    and "sp (scoped_path ns p)" and "is_semaphore alg" and "nul_free ns" and "lr_path req = p" and "lr_mode req = Write"
  shows "taken sp token o' L (take_permit o' ns p alg L) \<and> granted o' token ns req (take_permit o' ns p alg L)"
  using assms unfolding taken_def granted_def Let_def assms(7,8)
  by (simp add: take_permit_inv take_adds own_complete_take take_holds take_fence) (simp add: take_defs)

text \<open>Fixing the capacity of an unused semaphore.\<close>

lemma taken_capacity:
  assumes "lock_inv sp L" and "cap_of L q = None"
  shows "taken sp token o' L (L\<lparr>l_cap := (l_cap L)(q \<mapsto> v)\<rparr>)"
proof -
  let ?L = "L\<lparr>l_cap := (l_cap L)(q \<mapsto> v)\<rparr>"
  have "l_sem L q = {}" using assms by (auto simp: lock_inv_def within_capacity_def)
  then have "within_capacity ?L"
    using assms(1) by (auto simp: lock_inv_def within_capacity_def cap_of_def)
  moreover have "alg_of ?L = alg_of L" "holds ?L = holds L" "named ?L = named L"
    by (auto simp: alg_of_def holds_def named_def fun_eq_iff split: mode.splits)
  ultimately show ?thesis using assms(1)
    by (simp add: taken_def lock_inv_def indexed_def separated_def exclusive_def marked_def own_complete_def) (auto simp: adds_def)
qed

lemma parse_u32_nat_str [simp]: "parse_u32 (nat_str (unat w)) = Some w"
  using unat_lt[of w] by (simp add: parse_u32_def parse_unsigned_nat_str)

lemma taken_new_permit:
  fixes n :: u32
  assumes "lock_inv sp L" and "may_enter o' n (scoped_path ns p) L" and "cap_of L (scoped_path ns p) = None"
    and "sp (scoped_path ns p)" and "is_semaphore alg" and "nul_free ns" and "lr_path req = p" and "lr_mode req = Write"
  defines "L1 \<equiv> L\<lparr>l_cap := (l_cap L)(scoped_path ns p \<mapsto> nat_str (unat n))\<rparr>"
  shows "taken sp token o' L (take_permit o' ns p alg L1) \<and> granted o' token ns req (take_permit o' ns p alg L1)"
proof -
  have L1: "taken sp token o' L L1" unfolding L1_def using assms(1,3) by (rule taken_capacity)
  have "may_enter o' n (scoped_path ns p) L1" "cap_of L1 (scoped_path ns p) = Some n"
    using assms(2) by (simp_all add: L1_def may_enter_def cap_of_def)
  with L1 assms(4-8) have "taken sp token o' L1 (take_permit o' ns p alg L1) \<and> granted o' token ns req (take_permit o' ns p alg L1)"
    by (intro taken_permit) (auto simp: taken_def)
  moreover have "adds o' L (take_permit o' ns p alg L1)"
    by (auto simp: adds_def take_defs L1_def alg_upd_def)
  moreover have "l_fence (take_permit o' ns p alg L1) = l_fence L" by (simp add: take_fence L1_def)
  ultimately show ?thesis using L1 by (auto simp: taken_def)
qed

text \<open>What validation means for the algorithm the lock is taken under.\<close>

lemma validated_cases:
  fixes L L0 o' token ns alg req
  defines "q \<equiv> scoped_path ns (lr_path req)"
  defines "h \<equiv> if lr_state req = Held then alg_of L o' (lr_mode req) q else alg"
  assumes inv: "lock_inv sp L" and val: "validated o' token L0 ns alg req L"
    and kind: "lr_state req = New \<longrightarrow> (is_semaphore alg \<longleftrightarrow> sp q)"
  shows "is_semaphore h \<Longrightarrow> lr_mode req = Write \<and> sp q \<and>
      (lr_state req = New \<longrightarrow> may_enter o' (lr_permits req) q L) \<and> (lr_state req = Held \<longrightarrow> o' \<in> l_sem L q)"
    and "\<not> is_semaphore h \<Longrightarrow> lr_mode req = Write \<Longrightarrow> may_write o' h q L \<and> \<not> sp q"
    and "\<not> is_semaphore h \<Longrightarrow> lr_mode req = Read \<Longrightarrow> may_read o' q L"
proof -
  have m: "marked L" and sp: "separated sp L" using inv by (simp_all add: lock_inv_def)
  have held: "lr_state req = Held \<Longrightarrow> holds L o' (lr_mode req) q" and
    new: "lr_state req = New \<Longrightarrow> new_allowed o' token L0 ns alg req L"
    using val by (auto simp: validated_def still_held_def Let_def q_def)
  show "is_semaphore h \<Longrightarrow> lr_mode req = Write \<and> sp q \<and>
      (lr_state req = New \<longrightarrow> may_enter o' (lr_permits req) q L) \<and> (lr_state req = Held \<longrightarrow> o' \<in> l_sem L q)"
  proof (cases "lr_state req")
    case New
    assume "is_semaphore h"
    then have "alg = Semaphore" using New by (cases alg) (simp_all add: h_def)
    with new[OF New] New kind show ?thesis by (auto simp: new_allowed_def Let_def q_def allows_mode_def)
  next
    case Held
    assume "is_semaphore h"
    with Held m have "lr_mode req = Write" by (cases "lr_mode req") (auto simp: h_def marked_def)
    with held[OF Held] \<open>is_semaphore h\<close> m sp Held show ?thesis
      by (auto simp: h_def marked_def holds_def separated_def)
  qed
  show "may_write o' h q L \<and> \<not> sp q" if "\<not> is_semaphore h" "lr_mode req = Write"
  proof (cases "lr_state req")
    case New
    with new[OF New] kind that show ?thesis by (auto simp: new_allowed_def Let_def q_def h_def)
  next
    case Held
    with held that m have "l_wr L q = Some o'" by (auto simp: holds_def marked_def h_def)
    with hold_may(1)[OF inv this] Held that sp show ?thesis by (auto simp: h_def separated_def)
  qed
  show "may_read o' q L" if "\<not> is_semaphore h" "lr_mode req = Read"
  proof (cases "lr_state req")
    case New
    with new[OF New] that show ?thesis by (auto simp: new_allowed_def Let_def q_def h_def)
  next
    case Held
    with held that hold_may(2)[OF inv] show ?thesis by (auto simp: holds_def)
  qed
qed

lemma taken_granted:
  assumes "taken sp token o' L L'" and "granted o' token ns req L"
  shows "granted o' token ns req L'"
proof -
  have a: "adds o' L L'" and f: "\<And>q. l_fence L' q = l_fence L q \<or> l_fence L' q = Some (int_str token)"
    using assms(1) by (auto simp: taken_def)
  show ?thesis
    using assms(2) f[of "scoped_path ns (lr_path req)"] addsD(2,4,6)[OF a, where q = "scoped_path ns (lr_path req)"]
    by (auto simp: granted_def holds_def Let_def split: mode.splits)
qed

lemma relative_path_chars: "set (relative_path ns p) \<subseteq> set p \<union> {CHR ''/''}"
  by (auto simp: relative_path_def Let_def strip_prefix_Some split: if_splits option.splits dest: in_set_dropD)

lemma scoped_path_nul_free: "nul_free ns \<Longrightarrow> nul_free p \<Longrightarrow> nul_free (scoped_path ns p)"
  using relative_path_chars[of ns p] by (auto simp: scoped_path_def SCOPED_PATH_SEP_def)

lemma member_ok_hold: "nul_free ns \<Longrightarrow> nul_free p \<Longrightarrow> member_ok (hold_member ns m p)"
  by (simp add: member_ok_def scoped_path_nul_free held_lock_new_def held_key_path_def)

lemma word_of_nat_less_unat:
  fixes w :: u32
  assumes "word_of_nat n < w" and "n < 2 ^ 32"
  shows "n < unat w"
proof -
  have "unat (word_of_nat n :: u32) = n" using assms(2) by (simp add: unat_of_nat)
  with assms(1) show ?thesis by (simp add: word_less_nat_alt)
qed

lemma may_enter_list:
  fixes n :: u32
  assumes "set os = l_sem L q" and "length os \<le> MAX_SET_ENUM_MEMBERS" and "word_of_nat (length os) < n"
  shows "may_enter o' n q L"
proof -
  have fin: "finite (l_sem L q)" using assms(1) by (metis List.finite_set)
  have "length os < unat n"
    using assms(2,3) by (intro word_of_nat_less_unat) (simp_all add: MAX_SET_ENUM_MEMBERS_def)
  moreover have "card (l_sem L q) \<le> length os" using assms(1) by (metis card_length)
  moreover have "card (insert o' (l_sem L q)) \<le> Suc (card (l_sem L q))" using fin by (simp add: card_insert_if)
  ultimately show ?thesis using fin by (simp add: may_enter_def)
qed

context store_writes
begin

lemma owner_alive_spec [lspec_rules]:
  "nul_free o' \<Longrightarrow> Q (l_alive L o') L \<Longrightarrow> lspec ok st (owner_alive T o') L Q"
  unfolding owner_alive_def by (intro lspec_rules) simp_all

lemma hold_algorithm_spec [lspec_rules]:
  "nul_free o' \<Longrightarrow> nul_free q \<Longrightarrow> Q (alg_of L o' m q) L \<Longrightarrow> lspec ok st (hold_algorithm T o' m q) L Q"
  unfolding hold_algorithm_def by (intro lspec_rules) (simp_all add: alg_of_def)

lemma set_hold_algorithm_spec [lspec_rules]:
  "nul_free o' \<Longrightarrow> nul_free q \<Longrightarrow> Q () (L\<lparr>l_alg := alg_upd o' m q (Some (algorithm_str a)) (l_alg L)\<rparr>) \<Longrightarrow>
     lspec ok st (set_hold_algorithm T o' m q a 0) L Q"
  unfolding set_hold_algorithm_def by (intro lspec_rules)

lemma del_hold_algorithm_spec [lspec_rules]:
  "nul_free o' \<Longrightarrow> nul_free q \<Longrightarrow> Q () (L\<lparr>l_alg := alg_upd o' m q None (l_alg L)\<rparr>) \<Longrightarrow>
     lspec ok st (del_hold_algorithm T o' m q) L Q"
  unfolding del_hold_algorithm_def by (intro lspec_rules)

lemma semaphore_capacity_spec [lspec_rules]:
  "nul_free q \<Longrightarrow> Q (cap_of L q) L \<Longrightarrow> lspec ok st (semaphore_capacity T q) L Q"
  unfolding semaphore_capacity_def by (intro lspec_rules) (auto simp: cap_of_def)

lemma set_semaphore_capacity_spec [lspec_rules]:
  "nul_free q \<Longrightarrow> Q () (L\<lparr>l_cap := (l_cap L)(q \<mapsto> nat_str (unat n))\<rparr>) \<Longrightarrow>
     lspec ok st (set_semaphore_capacity T q n) L Q"
  unfolding set_semaphore_capacity_def by (intro lspec_rules)

lemma remove_descendant_indexes_spec [lspec_rules]:
  assumes "nul_free q" and "Q () (rm_index m q L)"
  shows "lspec ok st (remove_descendant_indexes T m q) L Q"
proof (cases m)
  case Read
  have "lspec ok st (srem T CF_DESC_READ (rddesc_prefix a) q) L (\<lambda>_ L'. L' = L\<lparr>l_rdd := (l_rdd L)(a := l_rdd L a - {q})\<rparr>)"
    if "a \<in> set (get_ancestors q)" for a L
    using ancestors_nul_free[OF assms(1) that] by (intro lspec_rules) simp_all
  then show ?thesis
    unfolding remove_descendant_indexes_def Read
    by (simp, rule lspec_for_each_fold) (use assms(2) Read in \<open>auto simp: fold_index rm_index_def\<close>)
next
  case Write
  have "lspec ok st (srem T CF_DESC_WRITE (wrdesc_key a) q) L (\<lambda>_ L'. L' = L\<lparr>l_wrd := (l_wrd L)(a := l_wrd L a - {q})\<rparr>)"
    if "a \<in> set (get_ancestors q)" for a L
    using ancestors_nul_free[OF assms(1) that] by (intro lspec_rules) simp_all
  then show ?thesis
    unfolding remove_descendant_indexes_def Write
    by (simp, rule lspec_for_each_fold) (use assms(2) Write in \<open>auto simp: fold_index rm_index_def\<close>)
qed

lemma add_descendant_indexes_spec [lspec_rules]:
  assumes "nul_free q" and "Q () (add_index m q L)"
  shows "lspec ok st (add_descendant_indexes T m q 0) L Q"
proof (cases m)
  case Read
  have "lspec ok st (sadd T CF_DESC_READ (rddesc_prefix a) q 0) L (\<lambda>_ L'. L' = L\<lparr>l_rdd := (l_rdd L)(a := insert q (l_rdd L a))\<rparr>)"
    if "a \<in> set (get_ancestors q)" for a L
    using ancestors_nul_free[OF assms(1) that] assms(1) by (intro lspec_rules) simp_all
  then show ?thesis
    unfolding add_descendant_indexes_def Read
    by (simp, rule lspec_for_each_fold) (use assms(2) Read in \<open>auto simp: fold_index add_index_def\<close>)
next
  case Write
  have "lspec ok st (sadd T CF_DESC_WRITE (wrdesc_key a) q 0) L (\<lambda>_ L'. L' = L\<lparr>l_wrd := (l_wrd L)(a := insert q (l_wrd L a))\<rparr>)"
    if "a \<in> set (get_ancestors q)" for a L
    using ancestors_nul_free[OF assms(1) that] assms(1) by (intro lspec_rules) simp_all
  then show ?thesis
    unfolding add_descendant_indexes_def Write
    by (simp, rule lspec_for_each_fold) (use assms(2) Write in \<open>auto simp: fold_index add_index_def\<close>)
qed

lemma get_live_write_owner_spec:
  assumes "nul_free q" and "l_wr L q = None \<Longrightarrow> Q None L"
    and "\<And>o'. l_wr L q = Some o' \<Longrightarrow> l_alive L o' \<Longrightarrow> Q (Some o') L"
    and "\<And>o'. l_wr L q = Some o' \<Longrightarrow> \<not> l_alive L o' \<Longrightarrow> Q None (drop_write o' q L)"
  shows "lspec ok st (get_live_write_owner T q) L Q"
proof (rule lspec_table_ok)
  assume "table_ok L"
  then have "l_wr L q = Some o' \<Longrightarrow> nul_free o'" for o' by (simp add: table_okD(1))
  with assms show "lspec ok st (get_live_write_owner T q) L Q"
    unfolding get_live_write_owner_def by (intro lspec_rules) (simp_all add: drop_write_def)
qed

lemma live_owner_prunes:
  assumes "nul_free q" and "lock_inv sp L"
  shows "lspec ok st (get_live_write_owner T q) L (\<lambda>r L'. (lock_inv sp L' \<and> prunes L L') \<and> r = l_wr L' q)"
proof (rule get_live_write_owner_spec[OF assms(1)])
  fix o' assume o': "l_wr L q = Some o'" "\<not> l_alive L o'"
  then have "o' \<notin> l_sem L q" using assms(2) by (auto simp: lock_inv_def separated_def)
  with o' have "prunes L (drop_write o' q L)" by (simp add: prunes_def drops_drop_write)
  then show "(lock_inv sp (drop_write o' q L) \<and> prunes L (drop_write o' q L)) \<and> None = l_wr (drop_write o' q L) q"
    using prunes_inv assms(2) by simp
qed (use assms in simp_all)

text \<open>Pruning dead readers and dead semaphore holders.\<close>

lemma fold_prune_readers:
  fixes q :: string
  defines "g \<equiv> \<lambda>o' L. if l_alive L o' then L else drop_reader o' q L"
  shows "prunes L (fold g os L) \<and> l_rd (fold g os L) q = l_rd L q - {o' \<in> set os. \<not> l_alive L o'}"
proof (induction os arbitrary: L)
  case (Cons o' os)
  have step: "prunes L (g o' L)" by (simp add: g_def prunes_def drops_drop_reader)
  then have "l_alive (g o' L) = l_alive L" by (simp add: prunes_def)
  with Cons.IH[of "g o' L"] prunes_trans[OF step] show ?case by (auto simp: g_def)
qed simp

lemma fold_prune_permits:
  fixes q :: string
  defines "g \<equiv> \<lambda>o' L. if l_alive L o' then L else drop_permit o' q L"
  assumes "l_wr L q = None"
  shows "prunes L (fold g os L) \<and> l_sem (fold g os L) q = l_sem L q - {o' \<in> set os. \<not> l_alive L o'}"
  using assms(2)
proof (induction os arbitrary: L)
  case (Cons o' os)
  have step: "prunes L (g o' L)" using Cons.prems by (simp add: g_def prunes_def drops_drop_permit)
  then have "l_alive (g o' L) = l_alive L" by (simp add: prunes_def)
  moreover have "l_wr (g o' L) q = None" using Cons.prems by (simp add: g_def)
  ultimately show ?case using Cons.IH[of "g o' L"] prunes_trans[OF step] by (auto simp: g_def)
qed simp

lemma prune_dead_read_owners_spec:
  assumes "nul_free q" and "lock_inv sp L"
  shows "lspec ok st (prune_dead_read_owners T q) L (\<lambda>r L'. (lock_inv sp L' \<and> prunes L L') \<and> set r = l_rd L' q)"
proof (rule lspec_table_ok)
  assume "table_ok L"
  define g where "g = (\<lambda>o' L. if l_alive L o' then L else drop_reader o' q L)"
  have body: "lspec ok st (bnd (owner_alive T o') (\<lambda>alive. if alive then ret True
      else bnd (srem T CF_READ_LOCKS (rd_prefix q) o') (\<lambda>_. bnd (del_hold_algorithm T o' Read q) (\<lambda>_. ret False)))) L'
    (\<lambda>b L''. b = l_alive L' o' \<and> L'' = g o' L')" if "nul_free o'" for o' L'
    using that assms(1) by (intro lspec_rules) (simp_all add: g_def drop_reader_def)
  show "lspec ok st (prune_dead_read_owners T q) L (\<lambda>r L'. (lock_inv sp L' \<and> prunes L L') \<and> set r = l_rd L' q)"
    unfolding prune_dead_read_owners_def
  proof (intro lspec_bnd lspec_smembers_sets(1) assms(1))
    fix ms assume ms: "set ms = l_rd L q"
    note fold = fold_prune_readers[of L q ms, folded g_def]
    show "lspec ok st (filter_each (\<lambda>o'. bnd (owner_alive T o') (\<lambda>alive. if alive then ret True
      else bnd (srem T CF_READ_LOCKS (rd_prefix q) o') (\<lambda>_. bnd (del_hold_algorithm T o' Read q) (\<lambda>_. ret False)))) ms) L
      (\<lambda>r L'. (lock_inv sp L' \<and> prunes L L') \<and> set r = l_rd L' q)"
    proof (rule lspec_filter_each[where p = "\<lambda>o' L. l_alive L o'" and g = g, OF body])
      show "nul_free x" if "x \<in> set ms" for x using that ms table_okD(2)[OF \<open>table_ok L\<close>] by blast
      show "l_alive (g y L) x = l_alive L x" for x y L by (simp add: g_def)
      show "(lock_inv sp (fold g ms L) \<and> prunes L (fold g ms L)) \<and> set (filter (l_alive L) ms) = l_rd (fold g ms L) q"
        using fold ms prunes_inv[OF _ assms(2)] by auto
    qed
  qed
qed

lemma prune_dead_semaphore_owners_spec:
  assumes "nul_free q" and "lock_inv sp L" and "l_wr L q = None"
  shows "lspec ok st (prune_dead_semaphore_owners T q) L
    (\<lambda>r L'. (lock_inv sp L' \<and> prunes L L') \<and> set r = l_sem L' q \<and> length r \<le> MAX_SET_ENUM_MEMBERS)"
proof (rule lspec_table_ok)
  assume "table_ok L"
  define g where "g = (\<lambda>o' L. if l_alive L o' then L else drop_permit o' q L)"
  have body: "lspec ok st (bnd (owner_alive T o') (\<lambda>alive. if alive then ret True
      else bnd (srem T CF_SEMAPHORE (sem_prefix q) o') (\<lambda>_. bnd (del_hold_algorithm T o' Write q) (\<lambda>_. ret False)))) L'
    (\<lambda>b L''. b = l_alive L' o' \<and> L'' = g o' L')" if "nul_free o'" for o' L'
    using that assms(1) by (intro lspec_rules) (simp_all add: g_def drop_permit_def)
  show "lspec ok st (prune_dead_semaphore_owners T q) L
    (\<lambda>r L'. (lock_inv sp L' \<and> prunes L L') \<and> set r = l_sem L' q \<and> length r \<le> MAX_SET_ENUM_MEMBERS)"
    unfolding prune_dead_semaphore_owners_def
  proof (intro lspec_bnd lspec_smembers_sets(2) assms(1))
    fix ms assume ms: "set ms = l_sem L q" and len: "length ms \<le> MAX_SET_ENUM_MEMBERS"
    note fold = fold_prune_permits[OF assms(3), of ms, folded g_def]
    show "lspec ok st (filter_each (\<lambda>o'. bnd (owner_alive T o') (\<lambda>alive. if alive then ret True
      else bnd (srem T CF_SEMAPHORE (sem_prefix q) o') (\<lambda>_. bnd (del_hold_algorithm T o' Write q) (\<lambda>_. ret False)))) ms) L
      (\<lambda>r L'. (lock_inv sp L' \<and> prunes L L') \<and> set r = l_sem L' q \<and> length r \<le> MAX_SET_ENUM_MEMBERS)"
    proof (rule lspec_filter_each[where p = "\<lambda>o' L. l_alive L o'" and g = g, OF body])
      show "nul_free x" if "x \<in> set ms" for x using that ms table_okD(3)[OF \<open>table_ok L\<close>] by blast
      show "l_alive (g y L) x = l_alive L x" for x y L by (simp add: g_def)
      show "(lock_inv sp (fold g ms L) \<and> prunes L (fold g ms L)) \<and> set (filter (l_alive L) ms) = l_sem (fold g ms L) q
        \<and> length (filter (l_alive L) ms) \<le> MAX_SET_ENUM_MEMBERS"
        using fold ms prunes_inv[OF _ assms(2)] order_trans[OF length_filter_le len] by auto
    qed
  qed
qed

section \<open>Validation\<close>

lemma descendant_write_step:
  assumes "nul_free q" and d: "nul_free d" and inv: "lock_inv sp L"
  shows "lspec ok st (bnd (get_live_write_owner T d) (\<lambda>v. case v of
      None \<Rightarrow> bnd (srem T CF_DESC_WRITE (wrdesc_key q) d) (\<lambda>_.
        bnd (remove_descendant_indexes T Write d) (\<lambda>_. ret None))
    | Some owner \<Rightarrow> ret (if owner \<noteq> o' then Some (public_path ns d, owner, DescendantWriteLocked) else None))) L
    (\<lambda>r L'. lock_inv sp L' \<and> prunes L L' \<and> (r = None \<longrightarrow> (\<forall>x. l_wr L' d = Some x \<longrightarrow> x = o')))"
proof (rule lspec_bnd, rule lspec_conseq[OF live_owner_prunes[OF d inv]])
  fix v L2 assume L2: "(lock_inv sp L2 \<and> prunes L L2) \<and> v = l_wr L2 d"
  define L3 where "L3 = rm_index Write d (L2\<lparr>l_wrd := (l_wrd L2)(q := l_wrd L2 q - {d})\<rparr>)"
  have "prunes L2 L3" and "l_wr L3 = l_wr L2" if "l_wr L2 d = None"
    using that by (simp_all add: L3_def prunes_unindex)
  then have L3: "lock_inv sp L3 \<and> prunes L L3 \<and> l_wr L3 d = None" if "l_wr L2 d = None"
    using that L2 prunes_trans prunes_inv by metis
  show "lspec ok st (case v of
      None \<Rightarrow> bnd (srem T CF_DESC_WRITE (wrdesc_key q) d) (\<lambda>_.
        bnd (remove_descendant_indexes T Write d) (\<lambda>_. ret None))
    | Some owner \<Rightarrow> ret (if owner \<noteq> o' then Some (public_path ns d, owner, DescendantWriteLocked) else None)) L2
    (\<lambda>r L'. lock_inv sp L' \<and> prunes L L' \<and> (r = None \<longrightarrow> (\<forall>x. l_wr L' d = Some x \<longrightarrow> x = o')))"
    using assms L2 L3 by (intro lspec_rules) (auto simp: L3_def)
qed

lemma find_descendant_write_conflict_spec:
  assumes q: "nul_free q" and inv: "lock_inv sp L"
  shows "lspec ok st (find_descendant_write_conflict T o' q ns) L (\<lambda>r L'. (lock_inv sp L' \<and> prunes L L') \<and>
    (r = None \<longrightarrow> (\<forall>d. q \<in> set (get_ancestors d) \<longrightarrow> (\<forall>x. l_wr L' d = Some x \<longrightarrow> x = o'))))"
proof (rule lspec_table_ok)
  assume tok: "table_ok L"
  show "lspec ok st (find_descendant_write_conflict T o' q ns) L (\<lambda>r L'. (lock_inv sp L' \<and> prunes L L') \<and>
    (r = None \<longrightarrow> (\<forall>d. q \<in> set (get_ancestors d) \<longrightarrow> (\<forall>x. l_wr L' d = Some x \<longrightarrow> x = o'))))"
    unfolding find_descendant_write_conflict_def Let_def
  proof (intro lspec_bnd lspec_smembers_sets(3) q, rule lspec_conseq[OF lspec_first_some[where
        I = "\<lambda>L'. lock_inv sp L' \<and> prunes L L'" and R = prunes and F = "\<lambda>d L'. \<forall>x. l_wr L' d = Some x \<longrightarrow> x = o'"]])
    fix ds d L1 assume "set ds = l_wrd L q" and "d \<in> set ds" and L1: "lock_inv sp L1 \<and> prunes L L1"
    then have "nul_free d" using table_okD(4)[OF tok] by blast
    from lspec_conseq[OF descendant_write_step[OF q this conjunct1[OF L1], of o' ns]]
    show "lspec ok st (bnd (get_live_write_owner T d) (\<lambda>v. case v of
        None \<Rightarrow> bnd (srem T CF_DESC_WRITE (wrdesc_key q) d) (\<lambda>_.
          bnd (remove_descendant_indexes T Write d) (\<lambda>_. ret None))
      | Some owner \<Rightarrow> ret (if owner \<noteq> o' then Some (public_path ns d, owner, DescendantWriteLocked) else None))) L1
      (\<lambda>r L'. (lock_inv sp L' \<and> prunes L L') \<and> prunes L1 L' \<and> (r = None \<longrightarrow> (\<forall>x. l_wr L' d = Some x \<longrightarrow> x = o')))"
      using L1 prunes_trans by fastforce
  next
    fix ds :: "string list" and r :: "(string \<times> string \<times> reason) option" and L'
    assume "set ds = l_wrd L q" and post: "(lock_inv sp L' \<and> prunes L L') \<and>
      (r = None \<longrightarrow> (\<forall>d \<in> set ds. \<forall>x. l_wr L' d = Some x \<longrightarrow> x = o'))"
    with indexed_descendants(1)[of L _ L' q] inv
    show "(lock_inv sp L' \<and> prunes L L') \<and>
      (r = None \<longrightarrow> (\<forall>d. q \<in> set (get_ancestors d) \<longrightarrow> (\<forall>x. l_wr L' d = Some x \<longrightarrow> x = o')))"
      unfolding prunes_def lock_inv_def by (metis option.distinct(1))
  next
    fix d L1 L2 assume "\<forall>x. l_wr L1 d = Some x \<longrightarrow> x = o'" and "prunes L1 L2"
    then show "\<forall>x. l_wr L2 d = Some x \<longrightarrow> x = o'" using drops_wrD unfolding prunes_def by blast
  qed (use inv in simp)
qed

lemma descendant_read_loop_spec:
  assumes q: "nul_free q"
  shows "lock_inv sp L \<Longrightarrow> \<forall>d \<in> set ds. nul_free d \<Longrightarrow> \<forall>d \<in> seen. l_rd L d \<subseteq> {o'} \<Longrightarrow>
    lspec ok st (descendant_read_loop T o' (rddesc_prefix q) ns seen ds) L
      (\<lambda>r L'. (lock_inv sp L' \<and> prunes L L') \<and> (r = None \<longrightarrow> (\<forall>d \<in> seen \<union> set ds. l_rd L' d \<subseteq> {o'})))"
proof (induction ds arbitrary: seen L)
  case Nil
  then show ?case by (auto intro: lspec_ret)
next
  case (Cons d ds)
  let ?post = "\<lambda>r L'. (lock_inv sp L' \<and> prunes L L') \<and> (r = None \<longrightarrow> (\<forall>d \<in> seen \<union> set (d # ds). l_rd L' d \<subseteq> {o'}))"
  show ?case
  proof (cases "d \<in> seen")
    case True
    with Cons.IH[of L seen] Cons.prems show ?thesis by (simp add: insert_absorb)
  next
    case False
    have rest: "lspec ok st (descendant_read_loop T o' (rddesc_prefix q) ns (insert d seen) ds) L3 ?post"
      if L3: "lock_inv sp L3" "prunes L L3" "l_rd L3 d \<subseteq> {o'}" for L3
    proof -
      have "\<forall>e \<in> insert d seen. l_rd L3 e \<subseteq> {o'}"
        using L3 Cons.prems(3) drops_sub(1) unfolding prunes_def by blast
      from lspec_conseq[OF Cons.IH[OF L3(1) _ this]] show ?thesis
        using Cons.prems(2) prunes_trans[OF L3(2)] by auto
    qed
    have d: "nul_free d" using Cons.prems(2) by simp
    have "lspec ok st (if owners = [] then
          bnd (srem T CF_DESC_READ (rddesc_prefix q) d) (\<lambda>_. bnd (remove_descendant_indexes T Read d) (\<lambda>_.
            descendant_read_loop T o' (rddesc_prefix q) ns (insert d seen) ds))
        else (case find (\<lambda>owner. owner \<noteq> o') owners of
             Some owner \<Rightarrow> ret (Some (public_path ns d, owner, DescendantReadLocked))
           | None \<Rightarrow> descendant_read_loop T o' (rddesc_prefix q) ns (insert d seen) ds)) L2 ?post"
      if L2: "(lock_inv sp L2 \<and> prunes L L2) \<and> set owners = l_rd L2 d" for owners L2
    proof -
      define L3 where "L3 = rm_index Read d (L2\<lparr>l_rdd := (l_rdd L2)(q := l_rdd L2 q - {d})\<rparr>)"
      have "prunes L2 L3" and "l_rd L3 = l_rd L2" if "l_rd L2 d = {}"
        using that by (simp_all add: L3_def prunes_unindex)
      with L2 have L3: "lock_inv sp L3 \<and> prunes L L3 \<and> l_rd L3 d \<subseteq> {o'}" if "owners = []"
        using that prunes_trans prunes_inv by (metis empty_subsetI list.set(1))
      show ?thesis
        using q d L2 L3 rest[of L3] rest[of L2]
        by (intro lspec_rules) (auto simp: L3_def find_None_iff)
    qed
    with False show ?thesis
      by (auto intro!: lspec_bnd lspec_conseq[OF prune_dead_read_owners_spec[OF d Cons.prems(1)]])
  qed
qed

lemma find_descendant_read_conflict_spec:
  assumes q: "nul_free q" and inv: "lock_inv sp L"
  shows "lspec ok st (find_descendant_read_conflict T o' q ns) L (\<lambda>r L'. (lock_inv sp L' \<and> prunes L L') \<and>
    (r = None \<longrightarrow> (\<forall>d. q \<in> set (get_ancestors d) \<longrightarrow> l_rd L' d \<subseteq> {o'})))"
proof (rule lspec_table_ok)
  assume tok: "table_ok L"
  show "lspec ok st (find_descendant_read_conflict T o' q ns) L (\<lambda>r L'. (lock_inv sp L' \<and> prunes L L') \<and>
    (r = None \<longrightarrow> (\<forall>d. q \<in> set (get_ancestors d) \<longrightarrow> l_rd L' d \<subseteq> {o'})))"
    unfolding find_descendant_read_conflict_def Let_def
  proof (intro lspec_bnd lspec_smembers_sets(4) q, rule lspec_conseq[OF descendant_read_loop_spec[OF q inv]])
    fix ds :: "string list" and r :: "(string \<times> string \<times> reason) option" and L'
    assume "set ds = l_rdd L q" and "(lock_inv sp L' \<and> prunes L L') \<and>
      (r = None \<longrightarrow> (\<forall>d \<in> {} \<union> set ds. l_rd L' d \<subseteq> {o'}))"
    with indexed_descendants(2)[of L _ L' q] inv
    show "(lock_inv sp L' \<and> prunes L L') \<and> (r = None \<longrightarrow> (\<forall>d. q \<in> set (get_ancestors d) \<longrightarrow> l_rd L' d \<subseteq> {o'}))"
      unfolding prunes_def lock_inv_def by (metis Un_iff empty_subsetI)
  qed (use table_okD(5)[OF tok] in blast)+
qed

lemma validate_new_ancestors_spec:
  assumes q: "nul_free q" and inv: "lock_inv sp L"
  shows "lspec ok st (validate_new_ancestors T o' ns q) L (\<lambda>r L'. (lock_inv sp L' \<and> prunes L L') \<and>
    (r = None \<longrightarrow> free_above o' q L'))"
proof -
  let ?F = "\<lambda>a L'. \<forall>x. l_wr L' a = Some x \<longrightarrow> x \<noteq> o' \<longrightarrow> \<not> recursive (alg_of L' x Write a)"
  show ?thesis
    unfolding validate_new_ancestors_def free_above_def
  proof (rule lspec_first_some[where R = prunes and F = ?F])
    fix a L1 assume a: "a \<in> set (get_ancestors q)" and L1: "lock_inv sp L1 \<and> prunes L L1"
    note a' = ancestors_nul_free[OF q a]
    have "lspec ok st (case v of None \<Rightarrow> ret None | Some anc_owner \<Rightarrow>
        if anc_owner \<noteq> o' then bnd (hold_algorithm T anc_owner Write a) (\<lambda>alg.
          ret (if recursive alg then Some (conflict (public_path ns a) anc_owner AncestorLocked) else None))
        else ret None) L2 (\<lambda>r L'. (lock_inv sp L' \<and> prunes L L') \<and> prunes L1 L' \<and> (r = None \<longrightarrow> ?F a L'))"
      if L2: "(lock_inv sp L2 \<and> prunes L1 L2) \<and> v = l_wr L2 a" for v L2
    proof (rule lspec_table_ok)
      assume "table_ok L2"
      then have "l_wr L2 a = Some x \<Longrightarrow> nul_free x" for x by (simp add: table_okD(1))
      with a' L1 L2 prunes_trans[of L L1 L2] show ?thesis by (intro lspec_rules) auto
    qed
    then show "lspec ok st (bnd (get_live_write_owner T a) (\<lambda>v. case v of None \<Rightarrow> ret None | Some anc_owner \<Rightarrow>
        if anc_owner \<noteq> o' then bnd (hold_algorithm T anc_owner Write a) (\<lambda>alg.
          ret (if recursive alg then Some (conflict (public_path ns a) anc_owner AncestorLocked) else None))
        else ret None)) L1 (\<lambda>r L'. (lock_inv sp L' \<and> prunes L L') \<and> prunes L1 L' \<and> (r = None \<longrightarrow> ?F a L'))"
      by (auto intro!: lspec_bnd lspec_conseq[OF live_owner_prunes[OF a' conjunct1[OF L1]]])
  next
    fix a L1 L2 assume "?F a L1" and "prunes L1 L2"
    then show "?F a L2" unfolding prunes_def using drops_wrD drops_alg_of by metis
  qed (use inv in simp)
qed

lemma validate_below_spec:
  assumes q: "nul_free q" and inv: "lock_inv sp L"
  shows "lspec ok st
    (if recursive alg then
       bnd (find_descendant_write_conflict T o' q ns) (\<lambda>w. case w of
         Some (path, owner, reason) \<Rightarrow> ret (Some (Conflict path owner reason))
       | None \<Rightarrow> bnd (find_descendant_read_conflict T o' q ns) (\<lambda>r. case r of
             Some (path, owner, reason) \<Rightarrow> ret (Some (Conflict path owner reason))
           | None \<Rightarrow> ret None))
     else ret None) L
    (\<lambda>r L'. (lock_inv sp L' \<and> prunes L L') \<and> (r = None \<longrightarrow> recursive alg \<longrightarrow> (\<forall>d. q \<in> set (get_ancestors d) \<longrightarrow>
        (\<forall>x. l_wr L' d = Some x \<longrightarrow> x = o') \<and> l_rd L' d \<subseteq> {o'})))"
proof -
  let ?wr = "\<lambda>L'. \<forall>d. q \<in> set (get_ancestors d) \<longrightarrow> (\<forall>x. l_wr L' d = Some x \<longrightarrow> x = o')"
  let ?rd = "\<lambda>L'. \<forall>d. q \<in> set (get_ancestors d) \<longrightarrow> l_rd L' d \<subseteq> {o'}"
  have second: "lspec ok st (find_descendant_read_conflict T o' q ns) L1
      (\<lambda>r L'. (lock_inv sp L' \<and> prunes L L') \<and> (r = None \<longrightarrow> ?wr L' \<and> ?rd L'))"
    if L1: "lock_inv sp L1" "prunes L L1" "?wr L1" for L1
  proof (rule lspec_conseq[OF find_descendant_read_conflict_spec[OF q L1(1), of o' ns]])
    fix r L' assume "(lock_inv sp L' \<and> prunes L1 L') \<and> (r = None \<longrightarrow> ?rd L')"
    moreover from this have "?wr L'" using L1(3) drops_wrD unfolding prunes_def by blast
    ultimately show "(lock_inv sp L' \<and> prunes L L') \<and> (r = None \<longrightarrow> ?wr L' \<and> ?rd L')"
      using prunes_trans[OF L1(2)] by blast
  qed
  show ?thesis
    by (intro lspec_if lspec_bnd lspec_conseq[OF find_descendant_write_conflict_spec[OF q inv, of o' ns]]
        lspec_option lspec_pair lspec_ret lspec_conseq[OF second]; (simp add: inv)?)
qed

lemma fence_check_spec:
  assumes "nul_free q" and "same \<longrightarrow> l_wr L0 q = Some o'" and "l_fence L = l_fence L0"
  shows "lspec ok st (bnd (get_str T CF_FENCES (fence_key q)) (\<lambda>f. case parse_fence f of
        Some cur \<Rightarrow> if cur > token \<or> (cur = token \<and> \<not> same) then ret (Some (conflict path (int_str cur) StaleFencingToken)) else ret None
      | None \<Rightarrow> ret None)) L (\<lambda>r L'. L' = L \<and> (r = None \<longrightarrow> fenced o' token q L0))"
  using assms by (intro lspec_rules) (auto simp: fenced_def)

lemma unindex_if_unread_spec:
  assumes "nul_free q" and L: "lock_inv sp L" "set rd = l_rd L q"
  shows "lspec ok st (if rd = [] then remove_descendant_indexes T Read q else ret ()) L
      (\<lambda>_ L'. (lock_inv sp L' \<and> prunes L L') \<and> set rd = l_rd L' q)"
proof -
  have "prunes L (rm_index Read q L)" if "rd = []" using that L(2) by (simp add: prunes_def drops_rm_index)
  with assms show ?thesis by (intro lspec_rules) (auto intro: prunes_inv)
qed

lemma validate_new_write_spec:
  assumes q: "nul_free q" and inv: "lock_inv sp L" and own: "same \<longrightarrow> l_wr L q = Some o'" and read: "may_read o' q L"
  shows "lspec ok st (validate_new_write T o' token path ns q alg same) L (\<lambda>r L'. (lock_inv sp L' \<and> prunes L L') \<and>
    (r = None \<longrightarrow> may_write o' alg q L' \<and> fenced o' token q L))"
proof -
  have may: "may_write o' alg q L3"
    if "prunes L L2" "l_rd L2 q \<subseteq> {o'}" "prunes L2 L3" "recursive alg \<longrightarrow>
      (\<forall>d. q \<in> set (get_ancestors d) \<longrightarrow> (\<forall>x. l_wr L3 d = Some x \<longrightarrow> x = o') \<and> l_rd L3 d \<subseteq> {o'})" for L2 L3
    using that read prunes_trans[OF that(1,3)] drops_may(1) drops_sub(1) unfolding may_write_def prunes_def by blast
  have fence: "l_fence L3 = l_fence L" if "prunes L L3" for L3
    using that drops_same unfolding prunes_def by blast
  have readers: "l_rd L2 q \<subseteq> {o'}" if "find (\<lambda>x. x \<noteq> o') rd = None" "set rd = l_rd L2 q" for rd L2
    using that by (auto simp: find_None_iff)
  show ?thesis
    unfolding validate_new_write_def
  proof (rule lspec_bnd, rule lspec_conseq[OF prune_dead_read_owners_spec[OF q inv]],
      rule lspec_bnd, rule lspec_conseq[OF unindex_if_unread_spec[OF q]])
    fix rd L1 u L2 assume L1: "(lock_inv sp L1 \<and> prunes L L1) \<and> set rd = l_rd L1 q"
      and L2: "(lock_inv sp L2 \<and> prunes L1 L2) \<and> set rd = l_rd L2 q"
    then have L2': "lock_inv sp L2" "prunes L L2" using prunes_trans by blast+
    show "lspec ok st (case find (\<lambda>x. x \<noteq> o') rd of Some x \<Rightarrow> ret (Some (conflict path x ReadLocked)) | None \<Rightarrow>
        bnd (if recursive alg then
           bnd (find_descendant_write_conflict T o' q ns) (\<lambda>w. case w of
             Some (path, owner, reason) \<Rightarrow> ret (Some (Conflict path owner reason))
           | None \<Rightarrow> bnd (find_descendant_read_conflict T o' q ns) (\<lambda>r. case r of
                 Some (path, owner, reason) \<Rightarrow> ret (Some (Conflict path owner reason))
               | None \<Rightarrow> ret None))
         else ret None) (\<lambda>below. case below of Some outcome \<Rightarrow> ret (Some outcome) | None \<Rightarrow>
          bnd (get_str T CF_FENCES (fence_key q)) (\<lambda>f. case parse_fence f of
            Some cur \<Rightarrow> if cur > token \<or> (cur = token \<and> \<not> same) then ret (Some (conflict path (int_str cur) StaleFencingToken)) else ret None
          | None \<Rightarrow> ret None))) L2
        (\<lambda>r L'. (lock_inv sp L' \<and> prunes L L') \<and> (r = None \<longrightarrow> may_write o' alg q L' \<and> fenced o' token q L))"
    proof (rule lspec_option, rule lspec_bnd, rule lspec_conseq[OF validate_below_spec[OF q L2'(1)]],
        rule lspec_option, rule lspec_conseq[OF fence_check_spec[OF q own fence]])
    qed (use L2 L2' may[OF L2'(2) readers] prunes_trans[OF L2'(2)] in \<open>auto intro!: lspec_ret\<close>)
  qed simp_all
qed

lemma validate_new_semaphore_spec:
  assumes q: "nul_free (scoped_path ns (lr_path req))" and "nul_free o'" and inv: "lock_inv sp L"
    and sp: "sp (scoped_path ns (lr_path req))"
  shows "lspec ok st (validate_new_semaphore T o' req (scoped_path ns (lr_path req))) L
    (\<lambda>r L'. (lock_inv sp L' \<and> prunes L L') \<and> (r = None \<longrightarrow> may_enter o' (lr_permits req) (scoped_path ns (lr_path req)) L'))"
proof -
  let ?q = "scoped_path ns (lr_path req)"
  have wr: "l_wr L ?q = None" using inv sp by (auto simp: lock_inv_def separated_def)
  have member: "may_enter o' (lr_permits req) ?q L"
    if "\<not> (cap_of L ?q \<noteq> None \<and> the (cap_of L ?q) \<noteq> lr_permits req)" "o' \<in> l_sem L ?q"
    using hold_may(3)[OF inv that(2)] that(1) by auto
  have "lspec ok st (let blocker = (case holders of [] \<Rightarrow> [] | h # _ \<Rightarrow> h) in
      if word_of_nat (length holders) \<ge> lr_permits req then ret (Some (conflict (lr_path req) blocker SemaphoreFull)) else ret None) L2
      (\<lambda>r L'. (lock_inv sp L' \<and> prunes L L') \<and> (r = None \<longrightarrow> may_enter o' (lr_permits req) ?q L'))"
    if "(lock_inv sp L2 \<and> prunes L L2) \<and> set holders = l_sem L2 ?q \<and> length holders \<le> MAX_SET_ENUM_MEMBERS" for holders L2
    using that may_enter_list[of holders L2 ?q "lr_permits req" o'] unfolding Let_def
    by (intro lspec_rules) (auto simp: not_le)
  then show ?thesis
    unfolding validate_new_semaphore_def Let_def
    using assms member
    by (intro lspec_rules) (auto intro!: lspec_conseq[OF prune_dead_semaphore_owners_spec[OF q inv wr]] split: if_splits)
qed

lemma validate_new_rw_spec:
  assumes q: "nul_free q" and inv: "lock_inv sp L" and above: "free_above o' q L"
  shows "lspec ok st (bnd (get_live_write_owner T q) (\<lambda>v. case v of
        Some wr_owner \<Rightarrow>
          if wr_owner \<noteq> o' then ret (Some (conflict path wr_owner WriteLocked))
          else if m = Write then validate_new_write T o' token path ns q alg True
          else ret None
      | None \<Rightarrow> if m = Write then validate_new_write T o' token path ns q alg False else ret None)) L
    (\<lambda>r L'. (lock_inv sp L' \<and> prunes L L') \<and>
      (r = None \<longrightarrow> (if m = Write then may_write o' alg q L' \<and> fenced o' token q L else may_read o' q L')))"
proof (rule lspec_bnd, rule lspec_conseq[OF live_owner_prunes[OF q inv]])
  let ?post = "\<lambda>r L'. (lock_inv sp L' \<and> prunes L L') \<and>
      (r = None \<longrightarrow> (if m = Write then may_write o' alg q L' \<and> fenced o' token q L else may_read o' q L'))"
  fix v L2 assume L2: "(lock_inv sp L2 \<and> prunes L L2) \<and> v = l_wr L2 q"
  have may: "may_read o' q L2" if "v = None \<or> v = Some o'"
    using that L2 drops_free_above[OF _ above] by (auto simp: may_read_def prunes_def)
  have wr: "lspec ok st (validate_new_write T o' token path ns q alg same) L2 ?post"
    if "m = Write" "same \<longrightarrow> v = Some o'" "v = None \<or> v = Some o'" for same
  proof (rule lspec_conseq[OF validate_new_write_spec[OF q, where L = L2]])
    show "lock_inv sp L2" and "same \<longrightarrow> l_wr L2 q = Some o'" and "may_read o' q L2" using L2 that may by auto
    fix r L' assume "(lock_inv sp L' \<and> prunes L2 L') \<and> (r = None \<longrightarrow> may_write o' alg q L' \<and> fenced o' token q L2)"
    then show "?post r L'" using that L2 prunes_trans fenced_prunes by auto
  qed
  show "lspec ok st (case v of
        Some wr_owner \<Rightarrow>
          if wr_owner \<noteq> o' then ret (Some (conflict path wr_owner WriteLocked))
          else if m = Write then validate_new_write T o' token path ns q alg True
          else ret None
      | None \<Rightarrow> if m = Write then validate_new_write T o' token path ns q alg False else ret None) L2 ?post"
    using L2 may wr by (auto intro!: lspec_ret split: option.split)
qed

lemma validate_new_spec:
  assumes q: "nul_free (scoped_path ns (lr_path req))" and o': "nul_free o'" and inv: "lock_inv sp L"
    and kind: "is_semaphore (lp_algorithm policy) \<longrightarrow> sp (scoped_path ns (lr_path req))"
  shows "lspec ok st (validate_new T o' token req ns policy) L (\<lambda>r L'. (lock_inv sp L' \<and> prunes L L') \<and>
    (r = None \<longrightarrow> new_allowed o' token L ns (lp_algorithm policy) req L'))"
proof (cases "allows_mode (lp_algorithm policy) (lr_mode req)")
  case False
  with inv show ?thesis unfolding validate_new_def Let_def by (simp add: lspec_ret)
next
  case mode: True
  let ?q = "scoped_path ns (lr_path req)" and ?alg = "lp_algorithm policy"
  show ?thesis
    unfolding validate_new_def Let_def
  proof (rule lspec_if, simp add: mode, rule lspec_bnd, rule lspec_conseq[OF validate_new_ancestors_spec[OF q inv]], rule lspec_option, rule lspec_if)
    fix above :: "acquire_outcome option" and L1
    assume "(lock_inv sp L1 \<and> prunes L L1) \<and> (above = None \<longrightarrow> free_above o' ?q L1)" and "above = None"
    then have L1: "lock_inv sp L1" "prunes L L1" "free_above o' ?q L1" by auto
    show "lspec ok st (validate_new_semaphore T o' req ?q) L1
        (\<lambda>r L'. (lock_inv sp L' \<and> prunes L L') \<and> (r = None \<longrightarrow> new_allowed o' token L ns ?alg req L'))" if "is_semaphore ?alg"
      using kind that mode prunes_trans[OF L1(2)]
      by (intro lspec_conseq[OF validate_new_semaphore_spec[OF q o' L1(1)]]) (auto simp: new_allowed_def)
    show "lspec ok st (bnd (get_live_write_owner T ?q) (\<lambda>v. case v of
        Some wr_owner \<Rightarrow>
          if wr_owner \<noteq> o' then ret (Some (conflict (lr_path req) wr_owner WriteLocked))
          else if lr_mode req = Write then validate_new_write T o' token (lr_path req) ns ?q ?alg True
          else ret None
      | None \<Rightarrow> if lr_mode req = Write then validate_new_write T o' token (lr_path req) ns ?q ?alg False else ret None)) L1
        (\<lambda>r L'. (lock_inv sp L' \<and> prunes L L') \<and> (r = None \<longrightarrow> new_allowed o' token L ns ?alg req L'))" if "\<not> is_semaphore ?alg"
      using that mode prunes_trans[OF L1(2)] fenced_prunes[OF L1(2)]
      by (intro lspec_conseq[OF validate_new_rw_spec[OF q L1(1,3)]]) (auto simp: new_allowed_def split: if_splits)
  qed (auto intro: lspec_ret)
qed

lemma validate_held_spec:
  assumes q: "nul_free (scoped_path ns (lr_path req))" and o': "nul_free o'" and inv: "lock_inv sp L"
  shows "lspec ok st (validate_held T o' token req ns) L
    (\<lambda>r L'. L' = L \<and> (r = None \<longrightarrow> still_held o' token L ns req L))"
proof -
  let ?q = "scoped_path ns (lr_path req)"
  have sem: "is_semaphore (alg_of L o' (lr_mode req) ?q) \<Longrightarrow> lr_mode req = Write"
    using inv by (cases "lr_mode req") (auto simp: lock_inv_def marked_def)
  show ?thesis
    unfolding validate_held_def Let_def
    using q o' sem
    by (intro lspec_rules) (auto simp: still_held_def holds_def fenced_def split: mode.splits)
qed

lemma validate_acquire_spec:
  assumes reqs: "requests_ok sp ns (lp_algorithm policy) reqs" and o': "nul_free o'" and inv: "lock_inv sp L"
    and alive: "list_ex (\<lambda>r. lr_state r = Held) reqs \<longrightarrow> l_alive L o'"
  shows "lspec ok st (validate_acquire T o' token reqs ns policy) L (\<lambda>r L'. (lock_inv sp L' \<and> prunes L L') \<and>
    (r = None \<longrightarrow> (\<forall>req \<in> set reqs. validated o' token L ns (lp_algorithm policy) req L')))"
  unfolding validate_acquire_def
proof (rule lspec_first_some[where R = prunes])
  fix req L1 assume req: "req \<in> set reqs" and L1: "lock_inv sp L1 \<and> prunes L L1"
  have q: "nul_free (scoped_path ns (lr_path req))" and kind: "lr_state req = New \<Longrightarrow>
      is_semaphore (lp_algorithm policy) \<longrightarrow> sp (scoped_path ns (lr_path req))"
    using reqs req scoped_path_nul_free[of ns "lr_path req"] by (auto simp: requests_ok_def)
  show "lspec ok st (case lr_state req of Held \<Rightarrow> validate_held T o' token req ns
      | New \<Rightarrow> validate_new T o' token req ns policy) L1
    (\<lambda>r L'. (lock_inv sp L' \<and> prunes L L') \<and> prunes L1 L' \<and>
      (r = None \<longrightarrow> validated o' token L ns (lp_algorithm policy) req L'))"
  proof (cases "lr_state req")
    case New
    have "new_allowed o' token L1 ns alg req L' \<Longrightarrow> new_allowed o' token L ns alg req L'" for alg L'
      using L1 fenced_prunes[of L L1] by (auto simp: new_allowed_def Let_def)
    with New L1 prunes_trans[of L L1] show ?thesis
      by (auto intro!: lspec_conseq[OF validate_new_spec[where L = L1 and sp = sp, OF q o' _ kind]] simp: validated_def)
  next
    case Held
    have "still_held o' token L1 ns req L' \<Longrightarrow> still_held o' token L ns req L'" for L'
      using L1 fenced_prunes[of L L1] by (auto simp: still_held_def Let_def)
    with Held L1 show ?thesis
      by (auto intro!: lspec_conseq[OF validate_held_spec[OF q o', of sp L1]] simp: validated_def)
  qed
next
  fix req L1 L2 assume "req \<in> set reqs" and "validated o' token L ns (lp_algorithm policy) req L1"
    and "lock_inv sp L1 \<and> prunes L L1" and "prunes L1 L2"
  then show "validated o' token L ns (lp_algorithm policy) req L2"
    using alive by (intro prunes_validated[of L1 L2]) (auto simp: list_ex_iff prunes_def)
qed (use inv in simp)

end

end
