(* ===== verification/Lock_Safety.thy ===== *)
theory Lock_Safety
  imports Lock_Validate
begin

text \<open>
  The lock operations of \<open>src/src/engine.rs\<close> keep the lock invariant: acquire, release, release of
  everything an owner holds, renewal, revocation, and the blocking check, for any store that meets
  \<open>store_writes\<close>.
\<close>

text \<open>The records of the lock itself, before it is noted in the owner's hold set.\<close>

definition lock_recorded ::
    "string \<Rightarrow> i64 \<Rightarrow> string \<Rightarrow> lock_req \<Rightarrow> lock_algorithm \<Rightarrow> lock_table \<Rightarrow> lock_table \<Rightarrow> bool" where
  "lock_recorded o' token q req h L L1 \<longleftrightarrow>
     (if is_semaphore h then
        L1 = L \<and> (lr_state req = New \<longrightarrow> cap_of L q = Some (lr_permits req)) \<or>
        lr_state req = New \<and> cap_of L q = None \<and> L1 = L\<lparr>l_cap := (l_cap L)(q \<mapsto> nat_str (unat (lr_permits req)))\<rparr>
      else if lr_mode req = Write then
        L1 = add_index Write q (L\<lparr>l_wr := (l_wr L)(q \<mapsto> o'), l_fence := (l_fence L)(q \<mapsto> int_str token)\<rparr>)
      else L1 = add_index Read q (L\<lparr>l_rd := (l_rd L)(q := insert o' (l_rd L q))\<rparr>))"

lemma recorded_taken:
  fixes L L0 o' token ns alg req
  defines "q \<equiv> scoped_path ns (lr_path req)"
  defines "h \<equiv> if lr_state req = Held then alg_of L o' (lr_mode req) q else alg"
  assumes ns: "nul_free ns" and inv: "lock_inv sp L" and val: "validated o' token L0 ns alg req L"
    and kind: "lr_state req = New \<longrightarrow> (is_semaphore alg \<longleftrightarrow> sp q)" and rec: "lock_recorded o' token q req h L L1"
  defines "L2 \<equiv> note_hold o' ns (lr_mode req) (lr_path req) h
    (if is_semaphore h then L1\<lparr>l_sem := (l_sem L1)(q := insert o' (l_sem L1 q))\<rparr> else L1)"
  shows "taken sp token o' L L2 \<and> granted o' token ns req L2"
proof -
  note cases = validated_cases[OF inv val kind[unfolded q_def], folded q_def, folded h_def]
  consider "is_semaphore h" | "\<not> is_semaphore h" "lr_mode req = Write" | "\<not> is_semaphore h" "lr_mode req = Read"
    by (cases "lr_mode req") auto
  then show ?thesis
  proof cases
    case 1
    note c = cases(1)[OF 1]
    then have m: "lr_mode req = Write" and sp: "sp (scoped_path ns (lr_path req))" by (simp_all add: q_def)
    show ?thesis
    proof (cases "lr_state req = New \<and> cap_of L q = None")
      case True
      with c rec 1 taken_new_permit[where token = token, OF inv _ _ sp 1 ns HOL.refl m, of o' "lr_permits req"] m
      show ?thesis by (simp add: lock_recorded_def L2_def take_permit_def Let_def q_def)
    next
      case False
      with rec 1 have L1: "L1 = L" and cap: "lr_state req = New \<longrightarrow> cap_of L q = Some (lr_permits req)"
        by (auto simp: lock_recorded_def)
      obtain n where "cap_of L q = Some n" "may_enter o' n q L"
        using c cap hold_may(3)[OF inv, of o' q] by (cases "lr_state req") auto
      with taken_permit[where token = token, OF inv _ _ sp 1 ns HOL.refl m, of o' n] 1 m L1
      show ?thesis by (simp add: L2_def take_permit_def Let_def q_def)
    qed
  next
    case 2
    with taken_write[where token = token, OF inv _ _ 2(1) ns HOL.refl 2(2), of o'] cases(2)[OF 2] rec
    show ?thesis by (simp add: lock_recorded_def L2_def take_write_def Let_def q_def)
  next
    case 3
    with taken_read[where token = token, OF inv _ 3(1) ns HOL.refl 3(2), of o'] cases(3)[OF 3] rec
    show ?thesis by (simp add: lock_recorded_def L2_def take_read_def Let_def q_def)
  qed
qed

text \<open>Giving up the records of one hold of \<open>o'\<close>.\<close>

definition let_go :: "string \<Rightarrow> mode \<Rightarrow> string \<Rightarrow> lock_table \<Rightarrow> lock_table \<Rightarrow> bool" where
  "let_go o' m q L L' \<longleftrightarrow> drops ((=) o') L L' \<and> l_own L' = l_own L \<and> l_alive L' = l_alive L \<and>
     l_hold_keys L' = l_hold_keys L \<and> \<not> holds L' o' m q \<and>
     (\<forall>x n r. (x, n, r) \<noteq> (o', m, q) \<longrightarrow> holds L x n r \<longrightarrow> holds L' x n r)"

lemma let_go_cases:
  assumes inv: "lock_inv sp L"
  shows "is_semaphore (alg_of L o' Write q) \<Longrightarrow> let_go o' Write q L (drop_permit o' q L)"
    and "\<not> is_semaphore (alg_of L o' Write q) \<Longrightarrow> l_wr L q = Some o' \<Longrightarrow> let_go o' Write q L (drop_write o' q L)"
    and "\<not> is_semaphore (alg_of L o' Write q) \<Longrightarrow> l_wr L q \<noteq> Some o' \<Longrightarrow> let_go o' Write q L L"
    and "let_go o' Read q L (drop_reader o' q L)"
    and "l_rd L q - {o'} = {} \<Longrightarrow> let_go o' Read q L (rm_index Read q (drop_reader o' q L))"
proof -
  have m: "l_wr L q = Some o' \<Longrightarrow> \<not> is_semaphore (alg_of L o' Write q)"
    "o' \<in> l_sem L q \<Longrightarrow> is_semaphore (alg_of L o' Write q)"
    using inv by (auto simp: lock_inv_def marked_def)
  show "is_semaphore (alg_of L o' Write q) \<Longrightarrow> let_go o' Write q L (drop_permit o' q L)"
    using m by (auto simp: let_go_def holds_def split: mode.splits intro: drops_drop_permit)
  show "\<not> is_semaphore (alg_of L o' Write q) \<Longrightarrow> l_wr L q = Some o' \<Longrightarrow> let_go o' Write q L (drop_write o' q L)"
    using m by (auto simp: let_go_def holds_def split: mode.splits intro: drops_drop_write)
  show "\<not> is_semaphore (alg_of L o' Write q) \<Longrightarrow> l_wr L q \<noteq> Some o' \<Longrightarrow> let_go o' Write q L L"
    using m by (auto simp: let_go_def holds_def)
  have rd: "drops ((=) o') L (drop_reader o' q L)" by (rule drops_drop_reader) simp
  then show "let_go o' Read q L (drop_reader o' q L)" by (auto simp: let_go_def holds_def split: mode.splits)
  show "l_rd L q - {o'} = {} \<Longrightarrow> let_go o' Read q L (rm_index Read q (drop_reader o' q L))"
    using drops_trans[OF rd drops_rm_index(2)] by (auto simp: let_go_def holds_def split: mode.splits)
qed

text \<open>The table after a member has also left the owner's hold set.\<close>

definition forget :: "string \<Rightarrow> string \<Rightarrow> lock_table \<Rightarrow> lock_table" where
  "forget o' x L = L\<lparr>l_own := (l_own L)(o' := l_own L o' - {x}),
     l_hold_keys := l_hold_keys L - {member_key (o' @ [NUL]) x}\<rparr>"

lemma forget_simps [simp]:
  "l_wr (forget o' x L) = l_wr L" "l_rd (forget o' x L) = l_rd L" "l_sem (forget o' x L) = l_sem L"
  "l_alg (forget o' x L) = l_alg L" "l_alive (forget o' x L) = l_alive L" "l_now (forget o' x L) = l_now L"
  "l_cap (forget o' x L) = l_cap L" "l_fence (forget o' x L) = l_fence L" "l_wrd (forget o' x L) = l_wrd L"
  "l_rdd (forget o' x L) = l_rdd L" "l_own (forget o' x L) = (l_own L)(o' := l_own L o' - {x})"
  "l_hold_keys (forget o' x L) = l_hold_keys L - {member_key (o' @ [NUL]) x}"
  by (simp_all add: forget_def)

lemma holds_forget [simp]: "holds (forget o' x L) = holds L"
  by (auto simp: holds_def fun_eq_iff split: mode.splits)

lemma drops_forget [simp]: "drops D L (forget o' x L)"
  by (simp add: drops_def)

text \<open>What a release of \<open>o'\<close> does: only records of \<open>o'\<close> go, and the hold sets stay complete.\<close>

definition releases :: "(string \<Rightarrow> bool) \<Rightarrow> string \<Rightarrow> lock_table \<Rightarrow> lock_table \<Rightarrow> bool" where
  "releases sp o' L L' \<longleftrightarrow> lock_inv sp L' \<and> drops ((=) o') L L' \<and> (own_complete L \<longrightarrow> own_complete L') \<and>
     l_own L' o' \<subseteq> l_own L o' \<and> (\<forall>x. x \<noteq> o' \<longrightarrow> l_own L' x = l_own L x \<and> l_alive L' x = l_alive L x) \<and>
     l_hold_keys L' \<subseteq> l_hold_keys L"

lemma releases_refl [simp]: "lock_inv sp L \<Longrightarrow> releases sp o' L L"
  by (simp add: releases_def)

lemma releases_trans: "releases sp o' L L1 \<Longrightarrow> releases sp o' L1 L2 \<Longrightarrow> releases sp o' L L2"
  unfolding releases_def by (auto intro: drops_trans)

lemma own_complete_forget:
  assumes "own_complete L" and "drops D L L'" and "l_own L' = (l_own L)(o' := l_own L o' - {x})"
    and gone: "\<And>h. parse_member x = Some h \<Longrightarrow> \<not> holds L' o' (hl_mode h) (held_key_path h)"
  shows "own_complete L'"
  unfolding own_complete_def
proof (intro allI impI)
  fix y n r assume h: "holds L' y n r"
  then have "named L y n r" using assms(1) drops_holds[OF assms(2)] unfolding own_complete_def by blast
  then obtain ns p where *: "nul_free ns" "scoped_path ns p = r" "hold_member ns n p \<in> l_own L y" by (auto simp: named_def)
  have "hold_member ns n p \<noteq> x" if "y = o'"
    using gone[of "held_lock_new ns n p"] * h that by (auto simp: held_lock_new_def held_key_path_def)
  with * assms(3) show "named L' y n r" by (auto simp: named_def)
qed

lemma let_go_releases:
  assumes "lock_inv sp L" and "let_go o' m q (forget o' x L) L'" and "\<And>h. parse_member x = Some h \<Longrightarrow> hl_mode h = m \<and> held_key_path h = q"
  shows "releases sp o' L L' \<and> l_alive L' = l_alive L \<and> \<not> holds L' o' m q \<and>
    (\<forall>n r. (n, r) \<noteq> (m, q) \<longrightarrow> holds L o' n r \<longrightarrow> holds L' o' n r)"
proof -
  from assms(2) have d: "drops ((=) o') L L'" and own: "l_own L' = (l_own L)(o' := l_own L o' - {x})"
    and gone: "\<not> holds L' o' m q" and keys: "l_hold_keys L' \<subseteq> l_hold_keys L" and alive: "l_alive L' = l_alive L"
    by (auto simp: let_go_def intro: drops_trans[OF drops_forget])
  have "own_complete L \<longrightarrow> own_complete L'"
    using own_complete_forget[OF _ d own] assms(3) gone by auto
  moreover have "\<forall>n r. (n, r) \<noteq> (m, q) \<longrightarrow> holds L o' n r \<longrightarrow> holds L' o' n r"
    using assms(2) by (simp add: let_go_def)
  ultimately show ?thesis using d own gone keys alive drops_inv[OF d assms(1)] by (auto simp: releases_def)
qed

lemma forget_releases:
  assumes "let_go o' m q L L1" and "parse_member x = Some h" and "hl_mode h = m" and "held_key_path h = q" and "lock_inv sp L"
  shows "releases sp o' L (forget o' x L1)"
proof -
  from assms(1) have d: "drops ((=) o') L (forget o' x L1)"
    and own: "l_own (forget o' x L1) = (l_own L)(o' := l_own L o' - {x})" and "\<not> holds (forget o' x L1) o' m q"
    and "l_hold_keys (forget o' x L1) \<subseteq> l_hold_keys L" and "l_alive (forget o' x L1) = l_alive L"
    by (auto simp: let_go_def intro: drops_trans[OF _ drops_forget])
  with own_complete_forget[OF _ d own] assms(2-4) drops_inv[OF d assms(5)] show ?thesis by (auto simp: releases_def)
qed

lemma forget_unnamed:
  assumes "parse_member x = None" and "lock_inv sp L"
  shows "releases sp o' L (forget o' x L)"
  using own_complete_forget[of L "(=) o'" "forget o' x L" o' x] assms drops_inv[OF drops_forget assms(2)]
  by (auto simp: releases_def)

text \<open>The invariants do not depend on who is alive.\<close>

lemma alive_upd_simps [simp]:
  "alg_of (L\<lparr>l_alive := f\<rparr>) = alg_of L" "holds (L\<lparr>l_alive := f\<rparr>) = holds L" "named (L\<lparr>l_alive := f\<rparr>) = named L"
  "cap_of (L\<lparr>l_alive := f\<rparr>) = cap_of L"
  by (auto simp: alg_of_def holds_def named_def cap_of_def fun_eq_iff split: mode.splits)

lemma alive_upd_inv [simp]:
  "lock_inv sp (L\<lparr>l_alive := f\<rparr>) \<longleftrightarrow> lock_inv sp L" "own_complete (L\<lparr>l_alive := f\<rparr>) \<longleftrightarrow> own_complete L"
  "drops D L (L'\<lparr>l_alive := f\<rparr>) \<longleftrightarrow> drops D L L'" "drops D (L\<lparr>l_alive := f\<rparr>) L' \<longleftrightarrow> drops D L L'"
  by (simp_all add: lock_inv_def indexed_def separated_def exclusive_def marked_def within_capacity_def own_complete_def drops_def)

lemma releases_alive:
  "releases sp o' L L1 \<Longrightarrow> f = l_alive L1 \<Longrightarrow> releases sp o' L (L1\<lparr>l_alive := f(o' := b)\<rparr>)"
  by (auto simp: releases_def)

lemma releases_stable: "releases sp o' L L' \<Longrightarrow> \<not> holds L x m q \<Longrightarrow> \<not> holds L' x m q"
  using drops_holds unfolding releases_def by blast

text \<open>The locks a release names.\<close>

definition released_locks :: "string \<Rightarrow> rel_req list \<Rightarrow> (mode \<times> string) set" where
  "released_locks ns reqs = {(rr_mode r, scoped_path ns (rr_path r)) | r. r \<in> set reqs}"

text \<open>The paging loop over an owner's hold set: the cursor has passed every member that is left behind.\<close>

definition paging :: "(string \<Rightarrow> bool) \<Rightarrow> string \<Rightarrow> lock_table \<Rightarrow> bytes option \<Rightarrow> lock_table \<Rightarrow> bool" where
  "paging sp o' L cursor L1 \<longleftrightarrow> releases sp o' L L1 \<and>
     member_prefix (own_prefix o') \<le> page_start (own_prefix o') cursor \<and>
     (\<forall>m \<in> l_own L1 o'. page_start (own_prefix o') cursor \<le> member_key (own_prefix o') m)"

definition keys_left :: "string \<Rightarrow> bytes option \<Rightarrow> lock_table \<Rightarrow> nat" where
  "keys_left o' cursor L = card {x \<in> l_hold_keys L. page_start (own_prefix o') cursor \<le> x}"

lemma keys_left_less:
  assumes "finite (l_hold_keys L)" and "l_hold_keys L' \<subseteq> l_hold_keys L"
    and "x \<in> l_hold_keys L" and "in_key_range (page_start (own_prefix o') c) (Some n) x"
  shows "keys_left o' (Some n) L' < keys_left o' c L"
proof -
  have "x \<notin> {x \<in> l_hold_keys L'. n \<le> x}" and "x \<in> {x \<in> l_hold_keys L. page_start (own_prefix o') c \<le> x}"
    and "{x \<in> l_hold_keys L'. n \<le> x} \<subseteq> {x \<in> l_hold_keys L. page_start (own_prefix o') c \<le> x}"
    using assms(2-4) by (auto simp: in_key_range_def)
  then have "{x \<in> l_hold_keys L'. n \<le> x} \<subset> {x \<in> l_hold_keys L. page_start (own_prefix o') c \<le> x}" by blast
  then show ?thesis unfolding keys_left_def page_start_def using assms(1) by (simp add: psubset_card_mono)
qed

lemma page_left:
  assumes "m \<in> l_own L' o'" and "l_own L' o' \<subseteq> l_own L1 o' - set ms"
    and "\<forall>m \<in> l_own L1 o'. start \<le> member_key k m"
    and "set ms = {m \<in> l_own L1 o'. in_key_range start nx (member_key k m)}"
  shows "\<exists>n. nx = Some n \<and> n \<le> member_key k m"
proof -
  have "m \<in> l_own L1 o'" and "m \<notin> set ms" using assms(1,2) by blast+
  then have "\<not> in_key_range start nx (member_key k m)" and "start \<le> member_key k m" using assms(3,4) by blast+
  then show ?thesis by (cases nx) (simp_all add: in_key_range_def not_less)
qed

lemma paging_start: "lock_inv sp L \<Longrightarrow> paging sp o' L None L"
  by (simp add: paging_def page_start_def member_key_def)

section \<open>What an operation of an owner leaves of the others\<close>

text \<open>The holds of live owners other than \<open>o'\<close>, and who is alive among them, stay as they are.\<close>

definition spares :: "string \<Rightarrow> lock_table \<Rightarrow> lock_table \<Rightarrow> bool" where
  "spares o' L L' \<longleftrightarrow>
     (\<forall>x. x \<noteq> o' \<longrightarrow> l_alive L' x = l_alive L x \<and> (l_alive L x \<longrightarrow> (\<forall>m q. holds L x m q \<longrightarrow> holds L' x m q)))"

lemma spares_refl [simp]: "spares o' L L"
  by (simp add: spares_def)

lemma spares_trans: "spares o' L L1 \<Longrightarrow> spares o' L1 L2 \<Longrightarrow> spares o' L L2"
  unfolding spares_def by simp

lemma drops_spared: "drops D L L' \<Longrightarrow> \<not> D x \<Longrightarrow> holds L x m q \<Longrightarrow> holds L' x m q"
  using drops_gone(1-3)[of D L L'] by (auto simp: holds_def split: mode.splits)

lemma releases_spares: "releases sp o' L L' \<Longrightarrow> spares o' L L'"
  using drops_spared[of "(=) o'" L L'] by (auto simp: releases_def spares_def)

lemma prunes_spares: "prunes L L' \<Longrightarrow> spares o' L L'"
  using drops_spared[of "\<lambda>x. \<not> l_alive L x" L L'] by (auto simp: prunes_def spares_def)

lemma adds_spares: "adds o' L L' \<Longrightarrow> spares o' L L'"
  using addsD(2,4,6,7)[of o' L L'] by (fastforce simp: holds_def spares_def split: mode.splits)

lemma spares_alive_upd: "spares o' L L1 \<Longrightarrow> f = l_alive L1 \<Longrightarrow> spares o' L (L1\<lparr>l_alive := f(o' := b)\<rparr>)"
  by (simp add: spares_def)

definition acquired :: "(string \<Rightarrow> bool) \<Rightarrow> string \<Rightarrow> acquire_args \<Rightarrow> lock_table \<Rightarrow> lock_table \<Rightarrow> bool" where
  "acquired sp ns args L L' \<longleftrightarrow>
     (let o' = aa_owner_id args; token = aa_fencing_token args; rel = released_locks ns (aa_release_requests args) in
      (\<forall>req \<in> set (aa_requests args).
         ((lr_mode req, scoped_path ns (lr_path req)) \<notin> rel \<longrightarrow>
            granted o' token ns req L' \<and>
            l_alive L' o' = (\<not> expired (expiry_at (l_now L) (aa_ttl_ms args)) (l_now L))) \<and>
         (lr_mode req = Write \<and> \<not> sp (scoped_path ns (lr_path req)) \<longrightarrow> fenced o' token (scoped_path ns (lr_path req)) L)) \<and>
      (\<forall>(m, q) \<in> rel. \<not> holds L' o' m q))"

definition acquire_post ::
    "(string \<Rightarrow> bool) \<Rightarrow> string \<Rightarrow> acquire_args \<Rightarrow> lock_table \<Rightarrow> acquire_outcome \<Rightarrow> lock_table \<Rightarrow> bool" where
  "acquire_post sp ns args L r L' \<longleftrightarrow>
     lock_inv sp L' \<and> own_complete L' \<and> spares (aa_owner_id args) L L' \<and>
     (\<forall>tok. r = AcqOk tok \<longrightarrow> acquired sp ns args L L')"

lemma fenced_drops: "drops D L0 L \<Longrightarrow> fenced o' token q L \<Longrightarrow> fenced o' token q L0"
  using drops_same[of D L0 L] drops_wrD[of D L0 L q o'] by (auto simp: fenced_def)

text \<open>A granted request stays granted as long as the hold is not released.\<close>

lemma drops_granted:
  assumes "drops D L L'" and "lock_inv sp L" and "granted o' token ns req L"
    and "holds L' o' (lr_mode req) (scoped_path ns (lr_path req))"
  shows "granted o' token ns req L'"
proof -
  let ?q = "scoped_path ns (lr_path req)"
  have "o' \<notin> l_sem L ?q" if "lr_mode req = Write" "o' \<notin> l_sem L' ?q"
  proof -
    have "l_wr L' ?q = Some o'" using assms(4) that by (simp add: holds_def)
    then have "l_wr L ?q = Some o'" by (rule drops_wrD[OF assms(1)])
    with assms(2) show ?thesis by (auto simp: lock_inv_def separated_def)
  qed
  with assms(3,4) drops_same[OF assms(1)] show ?thesis by (auto simp: granted_def Let_def)
qed

text \<open>An owner whose complete hold set is empty holds nothing.\<close>

lemma no_holds_left: "own_complete L \<Longrightarrow> l_own L o' = {} \<Longrightarrow> \<not> holds L o' m q"
  by (auto simp: own_complete_def named_def)

lemma prunes_own_complete: "prunes L L' \<Longrightarrow> own_complete L \<Longrightarrow> own_complete L'"
  unfolding prunes_def by (metis drops_own_complete)

lemma validated_fenced:
  assumes "validated o' token L0 ns alg req L" and "lock_inv sp L" and "lr_mode req = Write"
    and "\<not> sp (scoped_path ns (lr_path req))"
    and "lr_state req = New \<longrightarrow> (is_semaphore alg \<longleftrightarrow> sp (scoped_path ns (lr_path req)))"
  shows "fenced o' token (scoped_path ns (lr_path req)) L0"
  using assms by (cases "lr_state req")
    (auto simp: validated_def new_allowed_def still_held_def Let_def lock_inv_def separated_def)

section \<open>Validation and application only refuse\<close>

text \<open>The outcome a validation or an application step returns early is never a success.\<close>

definition refusal :: "acquire_outcome option \<Rightarrow> bool" where
  "refusal r \<longleftrightarrow> (\<forall>tok. r \<noteq> Some (AcqOk tok))"

definition refuses :: "('t, acquire_outcome option) txm \<Rightarrow> bool" where
  "refuses m \<longleftrightarrow> (\<forall>t r t'. m t = Inr (r, t') \<longrightarrow> refusal r)"

lemma refusal_simps [simp]:
  "refusal None" "refusal (Some (Conflict p x r))" "refusal (Some (conflict p x r))" "refusal (Some (lost p r))"
  by (simp_all add: refusal_def conflict_def lost_def)

lemma refuses_ret: "refusal r \<Longrightarrow> refuses (ret r)"
  by (simp add: refuses_def ret_def)

lemma refuses_bnd: "(\<And>x. refuses (f x)) \<Longrightarrow> refuses (bnd m f)"
  by (auto simp: refuses_def bnd_Inr_iff)

lemma refuses_else: "refuses m \<Longrightarrow> refuses k \<Longrightarrow> refuses (bnd m (\<lambda>r. case r of Some b \<Rightarrow> ret (Some b) | None \<Rightarrow> k))"
  by (auto simp: refuses_def bnd_Inr_iff ret_def split: option.splits; blast)

lemma refuses_if: "(b \<Longrightarrow> refuses m) \<Longrightarrow> (\<not> b \<Longrightarrow> refuses k) \<Longrightarrow> refuses (if b then m else k)"
  by simp

lemma refuses_option: "refuses m \<Longrightarrow> (\<And>x. refuses (f x)) \<Longrightarrow> refuses (case v of None \<Rightarrow> m | Some x \<Rightarrow> f x)"
  by (cases v) simp_all

lemma refuses_triple: "(\<And>a b c. refuses (f a b c)) \<Longrightarrow> refuses (case v of (a, b, c) \<Rightarrow> f a b c)"
  by (cases v) simp

lemma refuses_first_some: "(\<And>x. refuses (f x)) \<Longrightarrow> refuses (first_some f xs)"
  by (induction xs) (auto intro: refuses_ret refuses_else)

lemmas refuses_rules = refuses_else refuses_ret refuses_bnd refuses_if refuses_option refuses_triple refuses_first_some

lemma validate_acquire_refuses: "refuses (validate_acquire T o' token reqs ns policy)"
proof -
  have held: "refuses (validate_held T o' token req ns)" for req
    unfolding validate_held_def Let_def by (intro refuses_rules) simp_all
  have above: "refuses (validate_new_ancestors T o' ns q)" for q
    unfolding validate_new_ancestors_def by (intro refuses_rules) simp_all
  have wr: "refuses (validate_new_write T o' token p ns q alg same)" for p q alg same
    unfolding validate_new_write_def by (intro refuses_rules) simp_all
  have sem: "refuses (validate_new_semaphore T o' req q)" for req q
    unfolding validate_new_semaphore_def Let_def by (intro refuses_rules) simp_all
  have new: "refuses (validate_new T o' token req ns policy)" for req
    unfolding validate_new_def Let_def by (intro refuses_rules above wr sem) simp_all
  show ?thesis
    unfolding validate_acquire_def by (intro refuses_first_some) (auto simp: held new split: lock_state.split)
qed

lemma apply_acquire_refuses: "refuses (apply_acquire T req ctx)"
proof -
  have wr: "refuses (apply_write_acquire T o' path state q token)" for o' path state q token
    unfolding apply_write_acquire_def Let_def
    by (cases state) (auto intro!: refuses_rules)
  show ?thesis
    unfolding apply_acquire_def Let_def by (intro refuses_rules wr) simp_all
qed

lemma lspec_refuses:
  "refuses m \<Longrightarrow> lspec ok st m L Q \<Longrightarrow> lspec ok st m L (\<lambda>r L'. Q r L' \<and> refusal r)"
  unfolding lspec_def refuses_def by blast

context store_writes
begin

section \<open>Taking validated requests\<close>

lemma apply_write_acquire_spec:
  assumes "nul_free q" and "nul_free o'"
    and "\<And>r. r \<noteq> None \<Longrightarrow> Q r L"
    and "Q None (add_index Write q (L\<lparr>l_wr := (l_wr L)(q \<mapsto> o'), l_fence := (l_fence L)(q \<mapsto> int_str token)\<rparr>))"
  shows "lspec ok st (apply_write_acquire T o' path state q token) L Q"
  unfolding apply_write_acquire_def Let_def
  using assms by (cases state) (auto intro!: lspec_rules simp: conflict_def)

lemma record_lock_spec:
  assumes "nul_free q" and "nul_free o'"
  shows "lspec ok st
    (if is_semaphore h then
       (if lr_state req = New then
          bnd (semaphore_capacity T q) (\<lambda>cap. case cap of
            Some capacity \<Rightarrow> ret (if capacity \<noteq> lr_permits req
              then Some (conflict (lr_path req) (nat_str (unat capacity)) InvalidPermits) else None)
          | None \<Rightarrow> bnd (set_semaphore_capacity T q (lr_permits req)) (\<lambda>_. ret None))
        else ret None)
     else if lr_mode req = Write then apply_write_acquire T o' (lr_path req) (lr_state req) q token
     else bnd (sadd T CF_READ_LOCKS (rd_prefix q) o' 0) (\<lambda>_. bnd (add_descendant_indexes T Read q 0) (\<lambda>_. ret None))) L
    (\<lambda>r L1. r \<noteq> None \<and> L1 = L \<or> r = None \<and> lock_recorded o' token q req h L L1)"
  using assms by (intro lspec_rules apply_write_acquire_spec) (auto simp: lock_recorded_def)

lemma note_hold_spec:
  assumes "nul_free o'" and "nul_free (scoped_path ns p)" and "member_ok (hold_member ns m p)"
    and "Q None (note_hold o' ns m p h (if is_semaphore h
      then L\<lparr>l_sem := (l_sem L)(scoped_path ns p := insert o' (l_sem L (scoped_path ns p)))\<rparr> else L))"
  shows "lspec ok st
    (bnd (if is_semaphore h then sadd T CF_SEMAPHORE (sem_prefix (scoped_path ns p)) o' 0 else ret ()) (\<lambda>_.
     bnd (sadd T CF_OWNER_HOLDS (own_prefix o') (hold_member ns m p) 0) (\<lambda>_.
     bnd (set_hold_algorithm T o' m (scoped_path ns p) h 0) (\<lambda>_. ret None)))) L Q"
  using assms by (intro lspec_rules) (simp_all add: note_hold_def)

lemma apply_acquire_spec:
  assumes reqs: "nul_free ns" "nul_free (lr_path req)" "nul_free o'" and inv: "lock_inv sp L"
    and kind: "lr_state req = New \<longrightarrow> (is_semaphore alg \<longleftrightarrow> sp (scoped_path ns (lr_path req)))"
    and val: "validated o' token L0 ns alg req L"
    and ctx: "ctx = \<lparr> ac_owner = o', ac_namespace = ns, ac_request_algorithm = alg, ac_token = token, ac_own_pfx = own_prefix o' \<rparr>"
  shows "lspec ok st (apply_acquire T req ctx) L (\<lambda>r L'. taken sp token o' L L' \<and> (r = None \<longrightarrow> granted o' token ns req L'))"
proof -
  let ?q = "scoped_path ns (lr_path req)"
  define h where "h = (if lr_state req = Held then alg_of L o' (lr_mode req) ?q else alg)"
  note q = scoped_path_nul_free[OF reqs(1,2)]
  note done' = recorded_taken[OF reqs(1) inv val kind, folded h_def]
  have first: "lspec ok st (if lr_state req = Held then hold_algorithm T o' (lr_mode req) ?q else ret alg) L (\<lambda>a L'. a = h \<and> L' = L)"
    using reqs(3) q by (intro lspec_rules) (simp_all add: h_def)
  show ?thesis
    unfolding apply_acquire_def ctx Let_def acquire_apply_ctx.simps
  proof (rule lspec_bnd, rule lspec_conseq[OF first], elim conjE, hypsubst,
      rule lspec_bnd, rule lspec_conseq[OF record_lock_spec[OF q reqs(3)]], rule lspec_option, rule note_hold_spec[OF reqs(3) q member_ok_hold[OF reqs(1,2)]])
  qed (use done' inv in \<open>auto simp: taken_def intro!: lspec_ret\<close>)
qed

section \<open>Release\<close>

lemma release_held_member_spec:
  assumes o': "nul_free o'" and x: "member_ok x" and inv: "lock_inv sp L"
  shows "lspec ok st (release_held_member T o' x) L (\<lambda>_ L'.
    case parse_member x of None \<Rightarrow> L' = L | Some h \<Rightarrow> let_go o' (hl_mode h) (held_key_path h) L L')"
proof (cases "parse_member x")
  case None
  then show ?thesis unfolding release_held_member_def by (auto intro: lspec_rules)
next
  case (Some h)
  then have "nul_free (held_key_path h)" using x by (simp add: member_ok_def)
  with o' Some let_go_cases[OF inv, where o' = o' and q = "held_key_path h"] show ?thesis
    unfolding release_held_member_def Let_def
    by (cases "hl_mode h") (auto intro!: lspec_rules simp: drop_write_def drop_reader_def drop_permit_def)
qed

lemma apply_release_spec:
  assumes o': "nul_free o'" "nul_free ns" "nul_free (rr_path req)" and inv: "lock_inv sp L"
  shows "lspec ok st (apply_release T o' ns req (own_prefix o')) L
    (\<lambda>_ L'. releases sp o' L L' \<and> l_alive L' = l_alive L \<and> \<not> holds L' o' (rr_mode req) (scoped_path ns (rr_path req)) \<and>
      (\<forall>n r. (n, r) \<noteq> (rr_mode req, scoped_path ns (rr_path req)) \<longrightarrow> holds L o' n r \<longrightarrow> holds L' o' n r))"
proof -
  let ?q = "scoped_path ns (rr_path req)"
  define x where "x = hold_member ns (rr_mode req) (rr_path req)"
  have q: "nul_free ?q" using o' by (simp add: scoped_path_nul_free)
  have inv1: "lock_inv sp (forget o' x L)" using drops_inv[OF drops_forget inv] .
  have "lspec ok st (apply_release T o' ns req (own_prefix o')) L (\<lambda>_ L'. let_go o' (rr_mode req) ?q (forget o' x L) L')"
    unfolding apply_release_def Let_def x_def[symmetric]
  proof (rule lspec_bnd, rule lspec_srem_own[OF o'(1)], fold forget_def)
  qed (use o' q let_go_cases[OF inv1, where o' = o' and q = ?q] in
      \<open>cases "rr_mode req"; auto intro!: lspec_rules simp: drop_write_def drop_reader_def drop_permit_def\<close>)
  moreover have "parse_member x = Some h \<Longrightarrow> hl_mode h = rr_mode req \<and> held_key_path h = ?q" for h
    using o'(2) by (auto simp: x_def held_lock_new_def held_key_path_def)
  ultimately show ?thesis using let_go_releases[OF inv] by (blast intro: lspec_conseq)
qed

lemma release_each_spec:
  assumes o': "nul_free o'" "nul_free ns" "\<forall>r \<in> set reqs. nul_free (rr_path r)" and inv: "lock_inv sp L"
  shows "lspec ok st (for_each (\<lambda>req. apply_release T o' ns req (own_prefix o')) reqs) L
    (\<lambda>_ L'. (releases sp o' L L' \<and> l_alive L' = l_alive L \<and>
      (\<forall>n r. (n, r) \<notin> released_locks ns reqs \<longrightarrow> holds L o' n r \<longrightarrow> holds L' o' n r)) \<and>
      (\<forall>r \<in> set reqs. \<not> holds L' o' (rr_mode r) (scoped_path ns (rr_path r))))"
proof (rule lspec_for_each[where R = "releases sp o'"])
  fix req L1 assume req: "req \<in> set reqs" and L1: "releases sp o' L L1 \<and> l_alive L1 = l_alive L \<and>
      (\<forall>n r. (n, r) \<notin> released_locks ns reqs \<longrightarrow> holds L o' n r \<longrightarrow> holds L1 o' n r)"
  then have inv1: "lock_inv sp L1" by (simp add: releases_def)
  let ?Q = "\<lambda>L'. (releases sp o' L L' \<and> l_alive L' = l_alive L \<and>
        (\<forall>n r. (n, r) \<notin> released_locks ns reqs \<longrightarrow> holds L o' n r \<longrightarrow> holds L' o' n r)) \<and> releases sp o' L1 L' \<and>
        \<not> holds L' o' (rr_mode req) (scoped_path ns (rr_path req))"
  have mem: "(rr_mode req, scoped_path ns (rr_path req)) \<in> released_locks ns reqs"
    using req by (auto simp: released_locks_def)
  show "lspec ok st (apply_release T o' ns req (own_prefix o')) L1 (\<lambda>_. ?Q)"
  proof (rule lspec_conseq[OF apply_release_spec[OF o'(1,2) _ inv1]])
    show "nul_free (rr_path req)" using o' req by blast
    fix u :: unit and L' assume post: "releases sp o' L1 L' \<and> l_alive L' = l_alive L1 \<and>
      \<not> holds L' o' (rr_mode req) (scoped_path ns (rr_path req)) \<and>
      (\<forall>n r. (n, r) \<noteq> (rr_mode req, scoped_path ns (rr_path req)) \<longrightarrow> holds L1 o' n r \<longrightarrow> holds L' o' n r)"
    with L1 mem releases_trans[of sp o' L L1 L'] show "?Q L'" by metis
  qed
qed (use inv releases_stable in auto)

lemma apply_releases_spec:
  assumes o': "nul_free o'" "nul_free ns" "\<forall>r \<in> set reqs. nul_free (rr_path r)" and inv: "lock_inv sp L"
  shows "lspec ok st (apply_releases T o' ns reqs (own_prefix o') (alive_key o')) L
    (\<lambda>_ L'. releases sp o' L L' \<and> (\<forall>r \<in> set reqs. \<not> holds L' o' (rr_mode r) (scoped_path ns (rr_path r))) \<and>
      (\<forall>n r. (n, r) \<notin> released_locks ns reqs \<longrightarrow> holds L o' n r \<longrightarrow> holds L' o' n r) \<and>
      l_alive L' o' = (l_alive L o' \<and> l_own L' o' \<noteq> {}))"
  unfolding apply_releases_def
proof (rule lspec_bnd, rule lspec_conseq[OF release_each_spec[OF o' inv]])
qed (use o' in \<open>intro lspec_rules; auto intro: releases_alive\<close>)

lemma release_inner_in_namespace_spec:
  assumes o': "nul_free o'" "nul_free ns" "\<forall>r \<in> set reqs. nul_free (rr_path r)" and inv: "lock_inv sp L"
  shows "lspec ok st (release_inner_in_namespace T ns o' reqs del_wait) L
    (\<lambda>_ L'. releases sp o' L L' \<and> (\<forall>r \<in> set reqs. \<not> holds L' o' (rr_mode r) (scoped_path ns (rr_path r))) \<and>
      (\<forall>n r. (n, r) \<notin> released_locks ns reqs \<longrightarrow> holds L o' n r \<longrightarrow> holds L' o' n r) \<and>
      l_alive L' o' = (l_alive L o' \<and> l_own L' o' \<noteq> {}))"
  unfolding release_inner_in_namespace_def Let_def
proof (rule lspec_bnd, rule lspec_conseq[OF release_each_spec[OF o' inv]])
qed (use o' in \<open>intro lspec_rules; auto intro: releases_alive\<close>)

lemma release_members_spec:
  assumes o': "nul_free o'" and inv: "lock_inv sp L" and ms: "\<forall>x \<in> set ms. member_ok x"
  shows "lspec ok st (for_each (\<lambda>item. bnd (release_held_member T o' item) (\<lambda>_. srem T CF_OWNER_HOLDS (own_prefix o') item)) ms) L
    (\<lambda>_ L'. releases sp o' L L' \<and> (\<forall>x \<in> set ms. x \<notin> l_own L' o'))"
proof (rule lspec_for_each[where R = "releases sp o'"])
  fix x L1 assume x: "x \<in> set ms" and L1: "releases sp o' L L1"
  then have inv1: "lock_inv sp L1" and ok: "member_ok x" using ms by (auto simp: releases_def)
  have "lspec ok st (bnd (release_held_member T o' x) (\<lambda>_. srem T CF_OWNER_HOLDS (own_prefix o') x)) L1
    (\<lambda>_ L'. releases sp o' L1 L' \<and> x \<notin> l_own L' o')"
  proof (rule lspec_bnd, rule lspec_conseq[OF release_held_member_spec[OF o' ok inv1]], rule lspec_srem_own[OF o'], fold forget_def)
    fix L2 assume "case parse_member x of None \<Rightarrow> L2 = L1 | Some h \<Rightarrow> let_go o' (hl_mode h) (held_key_path h) L1 L2"
    then show "releases sp o' L1 (forget o' x L2) \<and> x \<notin> l_own (forget o' x L2) o'"
      using inv1 by (auto split: option.splits intro: forget_unnamed forget_releases)
  qed
  then show "lspec ok st (bnd (release_held_member T o' x) (\<lambda>_. srem T CF_OWNER_HOLDS (own_prefix o') x)) L1
    (\<lambda>_ L'. releases sp o' L L' \<and> releases sp o' L1 L' \<and> x \<notin> l_own L' o')"
    by (rule lspec_conseq) (use L1 releases_trans in blast)
qed (use inv in \<open>auto simp: releases_def\<close>)

lemma release_page_spec:
  assumes o': "nul_free o'" and pg: "paging sp o' L c L1"
  shows "lspec ok st (release_page T o' c) L1 (\<lambda>k L'. case k of
      None \<Rightarrow> releases sp o' L L' \<and> l_own L' o' = {}
    | Some c' \<Rightarrow> paging sp o' L c' L' \<and> keys_left o' c' L' < keys_left o' c L1)"
proof (rule lspec_table_ok)
  assume tok: "table_ok L1"
  let ?k = "own_prefix o'"
  let ?post = "\<lambda>k L'. case k of None \<Rightarrow> releases sp o' L L' \<and> l_own L' o' = {}
    | Some c' \<Rightarrow> paging sp o' L c' L' \<and> keys_left o' c' L' < keys_left o' c L1"
  note L1 = pg[unfolded paging_def, THEN conjunct1]
  note start = pg[unfolded paging_def, THEN conjunct2, THEN conjunct1]
  note passed = pg[unfolded paging_def, THEN conjunct2, THEN conjunct2]
  have inv: "lock_inv sp L1" using L1 by (simp add: releases_def)
  have page: "lspec ok st (bnd (for_each (\<lambda>item. bnd (release_held_member T o' item) (\<lambda>_. srem T CF_OWNER_HOLDS ?k item)) ms)
      (\<lambda>_. ret (case nx of None \<Rightarrow> None | Some c \<Rightarrow> Some (Some c)))) L1 ?post"
    if ms: "set ms = {m \<in> l_own L1 o'. in_key_range (page_start ?k c) nx (member_key ?k m)}"
      and nx: "\<And>n. nx = Some n \<Longrightarrow> prefix (member_prefix ?k) n \<and>
        (0 < RELEASE_PAGE \<longrightarrow> (\<exists>x \<in> l_hold_keys L1. in_key_range (page_start ?k c) nx x))" for ms nx
  proof (rule lspec_bnd, rule lspec_conseq[OF release_members_spec[OF o' inv]])
    show "\<forall>x \<in> set ms. member_ok x" using ms table_okD(7)[OF tok] by blast
    fix u :: unit and L' assume post: "releases sp o' L1 L' \<and> (\<forall>x \<in> set ms. x \<notin> l_own L' o')"
    then have L': "releases sp o' L1 L'" "releases sp o' L L'" using releases_trans[OF L1] by blast+
    have left: "l_own L' o' \<subseteq> l_own L1 o' - set ms" using post by (auto simp: releases_def)
    have "?post (case nx of None \<Rightarrow> None | Some c \<Rightarrow> Some (Some c)) L'"
    proof (cases nx)
      case None
      then have "l_own L' o' = {}" using page_left[OF _ left passed ms] by blast
      with None L'(2) show ?thesis by simp
    next
      case (Some n)
      with nx obtain x where pn: "prefix (member_prefix ?k) n" and x: "x \<in> l_hold_keys L1"
        "in_key_range (page_start ?k c) (Some n) x"
        by (auto simp: RELEASE_PAGE_def)
      have "member_prefix ?k \<le> n" using pn by (auto simp: prefix_def)
      moreover have "\<forall>m \<in> l_own L' o'. n \<le> member_key ?k m"
        using page_left[OF _ left passed ms] Some by fastforce
      moreover have "keys_left o' (Some n) L' < keys_left o' c L1"
        using keys_left_less[OF table_okD(6)[OF tok] _ x] L'(1) by (simp add: releases_def)
      ultimately show ?thesis using Some L'(2) by (simp add: paging_def page_start_def)
    qed
    then show "lspec ok st (ret (case nx of None \<Rightarrow> None | Some c \<Rightarrow> Some (Some c))) L' ?post" by (rule lspec_ret)
  qed
  show "lspec ok st (release_page T o' c) L1 ?post"
    unfolding release_page_def Let_def
    by (rule lspec_bnd, rule lspec_hold_page[OF o' start], unfold prod.case) (rule page)
qed

lemma release_owner_wide_spec:
  assumes o': "nul_free o'" and inv: "lock_inv sp L"
  shows "lspec ok st (release_owner_wide T o' del_wait) L
    (\<lambda>_ L'. releases sp o' L L' \<and> l_own L' o' = {} \<and> \<not> l_alive L' o')"
proof -
  have "lspec ok st (loop_while (release_page T o') None) L (\<lambda>_ L'. releases sp o' L L' \<and> l_own L' o' = {})"
    by (rule lspec_loop_while[where I = "paging sp o' L"])
      (auto intro: paging_start inv lspec_conseq[OF release_page_spec[OF o']] split: option.splits)
  with o' show ?thesis
    unfolding release_owner_wide_def
    by (auto intro!: lspec_bnd[of _ _ "loop_while _ _"] elim!: lspec_conseq intro!: lspec_rules releases_alive)
qed

lemma release_loop_ends:
  assumes o': "nul_free o'" and t: "ok t" "coherent (st t)" "lock_inv sp (table (st t))"
  shows "loop_ends (release_page T o') None t"
proof (rule loop_endsI[where I = "\<lambda>c t'. ok t' \<and> coherent (st t') \<and> paging sp o' (table (st t)) c (table (st t'))"
      and f = "\<lambda>c t'. keys_left o' c (table (st t'))"])
  show "ok t \<and> coherent (st t) \<and> paging sp o' (table (st t)) None (table (st t))" using t paging_start by simp
  fix c t1 c' t' assume I: "ok t1 \<and> coherent (st t1) \<and> paging sp o' (table (st t)) c (table (st t1))"
    and step: "release_page T o' c t1 = Inr (Some c', t')"
  from lspecD[OF release_page_spec[OF o'] step, of sp "table (st t)"] I
  show "(ok t' \<and> coherent (st t') \<and> paging sp o' (table (st t)) c' (table (st t'))) \<and>
    keys_left o' c' (table (st t')) < keys_left o' c (table (st t1))" by auto
qed

section \<open>Acquire\<close>

lemma apply_all_spec:
  assumes reqs: "requests_ok sp ns alg reqs" and o': "nul_free o'" and inv: "lock_inv sp L" and own: "own_complete L"
    and val: "\<forall>req \<in> set reqs. validated o' token L0 ns alg req L"
    and ctx: "ctx = \<lparr> ac_owner = o', ac_namespace = ns, ac_request_algorithm = alg, ac_token = token, ac_own_pfx = own_prefix o' \<rparr>"
  shows "lspec ok st (first_some (\<lambda>req. apply_acquire T req ctx) reqs) L
    (\<lambda>r L'. (lock_inv sp L' \<and> own_complete L' \<and> spares o' L L' \<and> l_alive L' = l_alive L \<and> l_now L' = l_now L \<and>
        (\<forall>req \<in> set reqs. validated o' token L0 ns alg req L')) \<and>
      (r = None \<longrightarrow> (\<forall>req \<in> set reqs. granted o' token ns req L')))"
proof (rule lspec_first_some[where R = "taken sp token o'"])
  fix req L1 assume req: "req \<in> set reqs"
    and L1: "lock_inv sp L1 \<and> own_complete L1 \<and> spares o' L L1 \<and> l_alive L1 = l_alive L \<and> l_now L1 = l_now L \<and>
      (\<forall>req \<in> set reqs. validated o' token L0 ns alg req L1)"
  have "lspec ok st (apply_acquire T req ctx) L1 (\<lambda>r L'. taken sp token o' L1 L' \<and> (r = None \<longrightarrow> granted o' token ns req L'))"
    using reqs req L1 o' by (intro apply_acquire_spec[OF _ _ _ _ _ _ ctx]) (auto simp: requests_ok_def)
  then show "lspec ok st (apply_acquire T req ctx) L1 (\<lambda>r L'. (lock_inv sp L' \<and> own_complete L' \<and> spares o' L L' \<and> l_alive L' = l_alive L \<and>
      l_now L' = l_now L \<and> (\<forall>req \<in> set reqs. validated o' token L0 ns alg req L')) \<and> taken sp token o' L1 L' \<and>
      (r = None \<longrightarrow> granted o' token ns req L'))"
  proof (rule lspec_conseq)
    fix r L' assume post: "taken sp token o' L1 L' \<and> (r = None \<longrightarrow> granted o' token ns req L')"
    then have "adds o' L1 L'" and "lock_inv sp L'" and "own_complete L'" using L1 by (auto simp: taken_def)
    with post L1 adds_validated[OF \<open>adds o' L1 L'\<close>] addsD(7,8)[OF \<open>adds o' L1 L'\<close>]
      spares_trans[OF _ adds_spares[OF \<open>adds o' L1 L'\<close>], of L]
    show "(lock_inv sp L' \<and> own_complete L' \<and> spares o' L L' \<and> l_alive L' = l_alive L \<and> l_now L' = l_now L \<and>
      (\<forall>req \<in> set reqs. validated o' token L0 ns alg req L')) \<and> taken sp token o' L1 L' \<and>
      (r = None \<longrightarrow> granted o' token ns req L')" by simp
  qed
qed (use assms taken_granted in auto)

lemma settle_acquire_spec:
  assumes o': "nul_free (aa_owner_id args)" "nul_free ns" "\<forall>r \<in> set (aa_release_requests args). nul_free (rr_path r)"
    and inv: "lock_inv sp L3" and own: "own_complete L3" and sp: "spares (aa_owner_id args) L L3" and now: "l_now L3 = l_now L"
    and granted: "\<forall>req \<in> set (aa_requests args). granted (aa_owner_id args) (aa_fencing_token args) ns req L3"
    and fence: "\<forall>req \<in> set (aa_requests args). lr_mode req = Write \<and> \<not> sp (scoped_path ns (lr_path req)) \<longrightarrow>
        fenced (aa_owner_id args) (aa_fencing_token args) (scoped_path ns (lr_path req)) L"
  shows "lspec ok st
    (bnd (refresh_portfolio T (alive_key (aa_owner_id args)) (aa_ttl_ms args)) (\<lambda>_.
     bnd (if aa_release_requests args \<noteq> []
          then apply_releases T (aa_owner_id args) ns (aa_release_requests args) (own_prefix (aa_owner_id args))
            (alive_key (aa_owner_id args))
          else ret ()) (\<lambda>_. ret r))) L3 (acquire_post sp ns args L)"
proof -
  let ?o = "aa_owner_id args" and ?rel = "released_locks ns (aa_release_requests args)"
  let ?up = "\<not> expired (expiry_at (l_now L) (aa_ttl_ms args)) (l_now L)"
  define L4 where "L4 = L3\<lparr>l_alive := (l_alive L3)(?o := ?up)\<rparr>"
  have inv4: "lock_inv sp L4" and own4: "own_complete L4" and sp4: "spares ?o L L4"
    using inv own sp unfolding L4_def by (simp_all add: alive_upd_simps spares_alive_upd)
  have granted4: "\<forall>req \<in> set (aa_requests args). granted ?o (aa_fencing_token args) ns req L4"
    using granted unfolding L4_def by (simp add: granted_def holds_def cong: mode.case_cong)
  let ?R = "\<lambda>L5. releases sp ?o L4 L5 \<and> (\<forall>r \<in> set (aa_release_requests args). \<not> holds L5 ?o (rr_mode r) (scoped_path ns (rr_path r))) \<and>
      (\<forall>n r. (n, r) \<notin> ?rel \<longrightarrow> holds L4 ?o n r \<longrightarrow> holds L5 ?o n r) \<and>
      l_alive L5 ?o = (l_alive L4 ?o \<and> (aa_release_requests args = [] \<or> l_own L5 ?o \<noteq> {}))"
  have post: "acquire_post sp ns args L r L5" if R: "?R L5" for L5
  proof -
    have d: "drops ((=) ?o) L4 L5" and inv5: "lock_inv sp L5" and own5: "own_complete L5" and sp5: "spares ?o L L5"
      using R own4 spares_trans[OF sp4 releases_spares] by (auto simp: releases_def)
    have "granted ?o (aa_fencing_token args) ns req L5 \<and> l_alive L5 ?o = ?up"
      if req: "req \<in> set (aa_requests args)" "(lr_mode req, scoped_path ns (lr_path req)) \<notin> ?rel" for req
    proof -
      have g: "granted ?o (aa_fencing_token args) ns req L4" using granted4 req by blast
      then have h: "holds L5 ?o (lr_mode req) (scoped_path ns (lr_path req))"
        using R req(2) by (simp add: granted_def Let_def)
      have "l_own L5 ?o \<noteq> {}" using no_holds_left[OF own5] h by blast
      with drops_granted[OF d inv4 g h] R show ?thesis by (simp add: L4_def)
    qed
    moreover have "\<forall>(m, q) \<in> ?rel. \<not> holds L5 ?o m q" using R by (auto simp: released_locks_def)
    ultimately show ?thesis using inv5 own5 sp5 fence by (simp add: acquire_post_def acquired_def Let_def)
  qed
  have "lspec ok st (if aa_release_requests args \<noteq> []
      then apply_releases T ?o ns (aa_release_requests args) (own_prefix ?o) (alive_key ?o) else ret ()) L4 (\<lambda>_. ?R)"
    by (intro lspec_if lspec_ret lspec_conseq[OF apply_releases_spec[OF o' inv4]]) (auto simp: inv4)
  then have "lspec ok st (bnd (if aa_release_requests args \<noteq> []
      then apply_releases T ?o ns (aa_release_requests args) (own_prefix ?o) (alive_key ?o) else ret ()) (\<lambda>_. ret r)) L4
      (acquire_post sp ns args L)"
    by (rule lspec_bnd[OF lspec_conseq]) (rule lspec_ret, rule post)
  then show ?thesis
    unfolding refresh_portfolio_def L4_def now[symmetric] by (intro lspec_bnd[of _ _ "set_str _ _ _ _ _"] lspec_set_str o')
qed

lemma settle_owner_spec:
  assumes o': "nul_free o'" and inv: "lock_inv sp L" and own: "own_complete L"
  shows "lspec ok st (if \<not> held \<and> \<not> l_alive L o' \<and> b then release_owner_wide T o' False else ret ()) L
    (\<lambda>_ L1. releases sp o' L L1 \<and> own_complete L1 \<and> (held \<and> l_alive L o' \<longrightarrow> l_alive L1 o'))"
  by (intro lspec_if lspec_ret lspec_conseq[OF release_owner_wide_spec[OF o' inv]])
    (use inv own in \<open>auto simp: releases_def\<close>)

lemma grant_requests_spec:
  assumes reqs: "requests_ok sp ns (lp_algorithm policy) (aa_requests args)"
    and o': "nul_free (aa_owner_id args)" "\<forall>r \<in> set (aa_release_requests args). nul_free (rr_path r)"
    and L1: "releases sp (aa_owner_id args) L L1" and own: "own_complete L1"
    and held: "list_ex (\<lambda>r. lr_state r = Held) (aa_requests args) \<longrightarrow> l_alive L1 (aa_owner_id args)"
    and ctx: "ctx = \<lparr> ac_owner = aa_owner_id args, ac_namespace = ns, ac_request_algorithm = lp_algorithm policy,
      ac_token = aa_fencing_token args, ac_own_pfx = own_prefix (aa_owner_id args) \<rparr>"
  shows "lspec ok st
    (bnd (validate_acquire T (aa_owner_id args) (aa_fencing_token args) (aa_requests args) ns policy) (\<lambda>invalid.
     case invalid of Some outcome \<Rightarrow> ret outcome
     | None \<Rightarrow> bnd (first_some (\<lambda>req. apply_acquire T req ctx) (aa_requests args)) (\<lambda>refused.
        case refused of Some outcome \<Rightarrow> ret outcome
        | None \<Rightarrow> bnd (refresh_portfolio T (alive_key (aa_owner_id args)) (aa_ttl_ms args)) (\<lambda>_.
            bnd (if aa_release_requests args \<noteq> []
              then apply_releases T (aa_owner_id args) ns (aa_release_requests args) (own_prefix (aa_owner_id args))
                (alive_key (aa_owner_id args))
              else ret ()) (\<lambda>_. ret r))))) L1 (acquire_post sp ns args L)"
proof -
  let ?o = "aa_owner_id args" and ?tok = "aa_fencing_token args" and ?reqs = "aa_requests args"
    and ?alg = "lp_algorithm policy"
  have ns: "nul_free ns" using reqs by (simp add: requests_ok_def)
  have inv: "lock_inv sp L1" and sp1: "spares ?o L L1" and now1: "l_now L1 = l_now L" and d1: "drops ((=) ?o) L L1"
    using L1 releases_spares[OF L1] drops_same[of "(=) ?o" L L1] by (auto simp: releases_def)
  have refused: "acquire_post sp ns args L r L'"
    if "lock_inv sp L'" "own_complete L'" "spares ?o L L'" "refusal (Some r)" for r L'
    using that by (simp add: acquire_post_def refusal_def)
  note val = lspec_refuses[OF validate_acquire_refuses validate_acquire_spec[OF reqs o'(1) inv held, of ?tok]]
  show ?thesis
  proof (rule lspec_bnd[OF lspec_conseq[OF val]], rule lspec_option)
    fix r L2 outcome assume "((lock_inv sp L2 \<and> prunes L1 L2) \<and>
        (r = None \<longrightarrow> (\<forall>req \<in> set ?reqs. validated ?o ?tok L1 ns ?alg req L2))) \<and> refusal r" and "r = Some outcome"
    then show "lspec ok st (ret outcome) L2 (acquire_post sp ns args L)"
      using own prunes_own_complete spares_trans[OF sp1 prunes_spares] by (intro lspec_ret refused) auto
  next
    fix r :: "acquire_outcome option" and L2 assume "((lock_inv sp L2 \<and> prunes L1 L2) \<and>
        (r = None \<longrightarrow> (\<forall>req \<in> set ?reqs. validated ?o ?tok L1 ns ?alg req L2))) \<and> refusal r" and "r = None"
    then have inv2: "lock_inv sp L2" and p2: "prunes L1 L2" and v2: "\<forall>req \<in> set ?reqs. validated ?o ?tok L1 ns ?alg req L2"
      by auto
    have own2: "own_complete L2" and sp2: "spares ?o L L2" and now2: "l_now L2 = l_now L"
      using prunes_own_complete[OF p2 own] spares_trans[OF sp1 prunes_spares[OF p2]] p2 now1 drops_same
      by (auto simp: prunes_def)
    have fence: "\<forall>req \<in> set ?reqs. lr_mode req = Write \<and> \<not> sp (scoped_path ns (lr_path req)) \<longrightarrow>
        fenced ?o ?tok (scoped_path ns (lr_path req)) L"
      using validated_fenced[OF _ inv2] v2 reqs fenced_drops[OF d1] by (auto simp: requests_ok_def)
    note app = lspec_refuses[OF refuses_first_some[OF apply_acquire_refuses] apply_all_spec[OF reqs o'(1) inv2 own2 v2 ctx]]
    show "lspec ok st (bnd (first_some (\<lambda>req. apply_acquire T req ctx) ?reqs) (\<lambda>refused.
        case refused of Some outcome \<Rightarrow> ret outcome
        | None \<Rightarrow> bnd (refresh_portfolio T (alive_key ?o) (aa_ttl_ms args)) (\<lambda>_.
            bnd (if aa_release_requests args \<noteq> []
              then apply_releases T ?o ns (aa_release_requests args) (own_prefix ?o) (alive_key ?o)
              else ret ()) (\<lambda>_. ret (r'::acquire_outcome))))) L2 (acquire_post sp ns args L)" for r'
      by (rule lspec_bnd[OF lspec_conseq[OF app]], rule lspec_option, rule settle_acquire_spec)
        (use o' ns fence now2 in \<open>auto intro!: lspec_ret refused elim: spares_trans[OF sp2]\<close>)
  qed
qed

lemma acquire_inner_in_namespace_spec:
  assumes reqs: "requests_ok sp ns (lp_algorithm policy) (aa_requests args)"
    and o': "nul_free (aa_owner_id args)" "\<forall>r \<in> set (aa_release_requests args). nul_free (rr_path r)"
    and inv: "lock_inv sp L" and own: "own_complete L"
  shows "lspec ok st (acquire_inner_in_namespace T args policy ns) L (acquire_post sp ns args L)"
proof -
  let ?o = "aa_owner_id args" and ?held = "list_ex (\<lambda>r. lr_state r = Held) (aa_requests args)"
  have start: "lspec ok st (bnd (if \<not> ?held \<and> \<not> v \<noteq> None \<and> aa_requests args \<noteq> [] then release_owner_wide T ?o False
      else ret ()) X) L (acquire_post sp ns args L)"
    if v: "(v \<noteq> None) = l_alive L ?o" "\<not> (?held \<and> \<not> v \<noteq> None)" and X: "\<And>L1. releases sp ?o L L1 \<Longrightarrow>
      own_complete L1 \<Longrightarrow> ?held \<longrightarrow> l_alive L1 ?o \<Longrightarrow> lspec ok st (X ()) L1 (acquire_post sp ns args L)"
    for v :: "bytes option" and X
    unfolding v(1) using v X by (intro lspec_bnd[OF lspec_conseq[OF settle_owner_spec[OF o'(1) inv own]]]) auto
  show ?thesis
    unfolding acquire_inner_in_namespace_def Let_def
    by (intro lspec_if lspec_ret lspec_bnd[of _ _ "get_str _ _ _"] lspec_get_alive o' start grant_requests_spec reqs refl)
      (use inv own in \<open>auto simp: acquire_post_def acquired_def released_locks_def Let_def\<close>)
qed

end

end
