(* ===== verification/Snapshot.thy ===== *)
theory Snapshot
  imports Store_View
begin

text \<open>
  \<open>src/src/raft/snapshot.rs\<close>: the image of one group's state (length-prefixed bincode frames behind a
  magic header) and its installation as one write batch. The bincode functions of a frame are a
  parameter.
\<close>

section \<open>Images\<close>

record frame =
  fr_cf :: nat
  fr_key :: bytes
  fr_value :: bytes

record frame_codec =
  frame_encode :: "frame \<Rightarrow> error + bytes"
  frame_decode :: "bytes \<Rightarrow> error + frame"

definition META_CF_MARKER :: nat where
  "META_CF_MARKER = 255"

definition IMAGE_MAGIC :: bytes where
  "IMAGE_MAGIC = ''pathlockd-snapshot'' @ [NUL]"

definition RAFT_META_KEYS :: "bytes list" where
  "RAFT_META_KEYS =
     [META_VOTE_KEY, META_COMMITTED_KEY, META_LAST_APPLIED_KEY, META_MEMBERSHIP_KEY, META_PURGED_KEY,
      META_SNAPSHOT_META_KEY, META_SNAPSHOT_DATA_KEY]"

text \<open>The loop of both group scans over what the iterator yields; the visitor's captured variables are \<open>'s\<close>.\<close>

fun scan_group_loop ::
    "bytes \<Rightarrow> error option \<Rightarrow> (bytes \<Rightarrow> bytes \<Rightarrow> 's \<Rightarrow> error + 's) \<Rightarrow> (bytes \<times> bytes) list \<Rightarrow> 's \<Rightarrow> error + 's" where
  "scan_group_loop gp status visit [] s = (case status of Some e \<Rightarrow> Inl e | None \<Rightarrow> Inr s)"
| "scan_group_loop gp status visit ((key, value) # it) s =
     (if \<not> prefix gp key then Inr s
      else
        (case visit (drop (length gp) key) value s of
           Inl e \<Rightarrow> Inl e
         | Inr s' \<Rightarrow> scan_group_loop gp status visit it s'))"

definition scan_group_cf ::
    "'db rocksdb \<Rightarrow> 'db \<Rightarrow> cf \<Rightarrow> group_id \<Rightarrow> (bytes \<Rightarrow> bytes \<Rightarrow> 's \<Rightarrow> error + 's) \<Rightarrow> 's \<Rightarrow> error + 's" where
  "scan_group_cf R db cf g visit s =
     (if \<not> cf_handle R db cf then Inl (MissingColumnFamily cf)
      else
        let gp = group_prefix g; (it, status) = iter_cf R db cf (Some gp) (prefix_upper_bound gp) in
        scan_group_loop gp status visit it s)"

definition scan_group_cf_snapshot ::
    "'db rocksdb \<Rightarrow> 'db \<Rightarrow> 'db \<Rightarrow> cf \<Rightarrow> group_id \<Rightarrow> (bytes \<Rightarrow> bytes \<Rightarrow> 's \<Rightarrow> error + 's) \<Rightarrow> 's \<Rightarrow> error + 's" where
  "scan_group_cf_snapshot R db snapshot cf g visit s =
     (if \<not> cf_handle R db cf then Inl (MissingColumnFamily cf)
      else
        let gp = group_prefix g; (it, status) = iter_cf R snapshot cf (Some gp) (prefix_upper_bound gp) in
        scan_group_loop gp status visit it s)"

definition push_frame :: "frame_codec \<Rightarrow> frame \<Rightarrow> bytes \<Rightarrow> error + bytes" where
  "push_frame F frame img =
     (case frame_encode F frame of
        Inl e \<Rightarrow> Inl e
      | Inr encoded \<Rightarrow>
          if length encoded \<ge> 2 ^ 32 then Inl EncodeError
          else Inr (img @ u32_be (word_of_nat (length encoded)) @ encoded))"

text \<open>The loop over the frames of an image; it shortens the rest in every turn.\<close>

function for_each_frame_loop :: "frame_codec \<Rightarrow> (frame \<Rightarrow> 's \<Rightarrow> error + 's) \<Rightarrow> bytes \<Rightarrow> 's \<Rightarrow> error + 's" where
  "for_each_frame_loop F visit rest s =
     (if rest = [] then Inr s
      else if length rest < 4 then Inl DecodeError
      else
        let len = from_be (take 4 rest); rest' = drop 4 rest in
        if length rest' < len then Inl DecodeError
        else
          (case frame_decode F (take len rest') of
             Inl e \<Rightarrow> Inl e
           | Inr frame \<Rightarrow>
               (case visit frame s of
                  Inl e \<Rightarrow> Inl e
                | Inr s' \<Rightarrow> for_each_frame_loop F visit (drop len rest') s')))"
  by pat_completeness auto
termination
  by (relation "measure (\<lambda>(_, _, rest, _). length rest)") auto

declare for_each_frame_loop.simps [simp del]

definition for_each_frame :: "frame_codec \<Rightarrow> bytes \<Rightarrow> (frame \<Rightarrow> 's \<Rightarrow> error + 's) \<Rightarrow> 's \<Rightarrow> error + 's" where
  "for_each_frame F img visit s =
     (case strip_prefix IMAGE_MAGIC img of
        None \<Rightarrow> Inl DecodeError
      | Some rest \<Rightarrow> for_each_frame_loop F visit rest s)"

definition push_row :: "frame_codec \<Rightarrow> nat \<Rightarrow> nat \<Rightarrow> bytes \<Rightarrow> bytes \<Rightarrow> bytes \<Rightarrow> error + bytes" where
  "push_row F max_bytes idx key value img =
     (case push_frame F \<lparr> fr_cf = idx, fr_key = key, fr_value = value \<rparr> img of
        Inl e \<Rightarrow> Inl e
      | Inr img' \<Rightarrow> if length img' \<le> max_bytes then Inr img' else Inl EncodeError)"

fun push_state_cfs ::
    "'db rocksdb \<Rightarrow> frame_codec \<Rightarrow> 'db \<Rightarrow> 'db \<Rightarrow> group_id \<Rightarrow> nat \<Rightarrow> (nat \<times> cf) list \<Rightarrow> bytes \<Rightarrow> error + bytes" where
  "push_state_cfs R F db snapshot g max_bytes [] img = Inr img"
| "push_state_cfs R F db snapshot g max_bytes ((idx, cf) # cfs) img =
     (case scan_group_cf_snapshot R db snapshot cf g (push_row F max_bytes (idx mod 256)) img of
        Inl e \<Rightarrow> Inl e
      | Inr img' \<Rightarrow> push_state_cfs R F db snapshot g max_bytes cfs img')"

definition build_group_image_from_snapshot_limited ::
    "'db rocksdb \<Rightarrow> frame_codec \<Rightarrow> 'db \<Rightarrow> 'db \<Rightarrow> group_id \<Rightarrow> nat \<Rightarrow> error + bytes" where
  "build_group_image_from_snapshot_limited R F db snapshot g max_bytes =
     (case push_state_cfs R F db snapshot g max_bytes (enumerate 0 STATE_CFS) IMAGE_MAGIC of
        Inl e \<Rightarrow> Inl e
      | Inr img \<Rightarrow>
          scan_group_cf_snapshot R db snapshot CF_META g
            (\<lambda>key value img.
               if key \<in> set RAFT_META_KEYS then Inr img
               else push_row F max_bytes META_CF_MARKER key value img) img)"

definition build_group_image_from_snapshot ::
    "'db rocksdb \<Rightarrow> frame_codec \<Rightarrow> 'db \<Rightarrow> 'db \<Rightarrow> group_id \<Rightarrow> error + bytes" where
  "build_group_image_from_snapshot R F db snapshot g =
     build_group_image_from_snapshot_limited R F db snapshot g (2 ^ 64 - 1)"

section \<open>Installation\<close>

fun wipe_cfs :: "'db rocksdb \<Rightarrow> 'db \<Rightarrow> bytes \<Rightarrow> bytes \<Rightarrow> cf list \<Rightarrow> batch_op list \<Rightarrow> error + batch_op list" where
  "wipe_cfs R db gp upper [] batch = Inr batch"
| "wipe_cfs R db gp upper (cf # cfs) batch =
     (if \<not> cf_handle R db cf then Inl (MissingColumnFamily cf)
      else wipe_cfs R db gp upper cfs (batch @ [DeleteRangeCf cf gp upper]))"

definition install_frame :: "'db rocksdb \<Rightarrow> 'db \<Rightarrow> group_id \<Rightarrow> frame \<Rightarrow> batch_op list \<Rightarrow> error + batch_op list" where
  "install_frame R db g frame batch =
     (let scoped = group_key g (fr_key frame) in
      if fr_cf frame = META_CF_MARKER then Inr (batch @ [PutCf CF_META scoped (fr_value frame)])
      else if fr_cf frame \<ge> length STATE_CFS then Inl DecodeError
      else
        let cf = STATE_CFS ! fr_cf frame in
        if \<not> cf_handle R db cf then Inl (MissingColumnFamily cf)
        else Inr (batch @ [PutCf cf scoped (fr_value frame)]))"

definition install_group_image ::
    "'db rocksdb \<Rightarrow> frame_codec \<Rightarrow> 'db \<Rightarrow> group_id \<Rightarrow> bytes \<Rightarrow> batch_op list \<Rightarrow> error + batch_op list" where
  "install_group_image R F db g img batch =
     (let gp = group_prefix g;
          upper = (case prefix_upper_bound gp of Some u \<Rightarrow> u | None \<Rightarrow> replicate 16 (CHR 0xFF)) in
      case wipe_cfs R db gp upper STATE_CFS batch of
        Inl e \<Rightarrow> Inl e
      | Inr batch \<Rightarrow>
          if \<not> cf_handle R db CF_META then Inl (MissingColumnFamily CF_META)
          else
            (case scan_group_cf R db CF_META g
                    (\<lambda>key _ batch.
                       Inr (if key \<notin> set RAFT_META_KEYS then batch @ [DeleteCf CF_META (group_key g key)] else batch))
                    batch of
               Inl e \<Rightarrow> Inl e
             | Inr batch \<Rightarrow> for_each_frame F img (install_frame R db g) batch))"

end
