(* ===== verification/Placement.thy ===== *)
theory Placement
  imports Lock_Paths "HOL-Library.Multiset"
begin

text \<open>
  \<open>src/src/cluster/placement.rs\<close>: rendezvous placement of routing domains and voters, routing
  prefixes and namespace containment. The hash \<open>xxh3_64\<close> is a parameter.
\<close>

section \<open>Definitions\<close>

text \<open>\<open>u64::to_le_bytes\<close>\<close>

definition u64_le :: "u64 \<Rightarrow> bytes" where
  "u64_le w = rev (u64_be w)"

fun place_domain_loop :: "(bytes \<Rightarrow> u64) \<Rightarrow> string \<Rightarrow> u32 list \<Rightarrow> group_id \<Rightarrow> u64 \<Rightarrow> group_id" where
  "place_domain_loop xxh3_64 domain [] best_group best_weight = best_group"
| "place_domain_loop xxh3_64 domain (g # gs) best_group best_weight =
     (let weight = xxh3_64 (u64_le (ucast g) @ domain) in
      if weight > best_weight then place_domain_loop xxh3_64 domain gs g weight
      else place_domain_loop xxh3_64 domain gs best_group best_weight)"

definition place_domain :: "(bytes \<Rightarrow> u64) \<Rightarrow> string \<Rightarrow> u32 \<Rightarrow> group_id" where
  "place_domain xxh3_64 domain group_count =
     place_domain_loop xxh3_64 domain (map word_of_nat [0..<unat group_count]) 0 0"

fun routing_prefix_scan :: "u32 \<Rightarrow> nat \<Rightarrow> u32 \<Rightarrow> string \<Rightarrow> nat option" where
  "routing_prefix_scan prefix_segments i segs [] = None"
| "routing_prefix_scan prefix_segments i segs (b # bs) =
     (if b = CHR ''/'' \<and> 0 < i then
        (if segs + 1 = prefix_segments then Some i
         else routing_prefix_scan prefix_segments (i + 1) (segs + 1) bs)
      else routing_prefix_scan prefix_segments (i + 1) segs bs)"

definition routing_prefix :: "string \<Rightarrow> u32 \<Rightarrow> string" where
  "routing_prefix path prefix_segments =
     (case str_find CHR '':'' path of
        None \<Rightarrow> path
      | Some colon \<Rightarrow>
          if prefix_segments = 0 then take colon path
          else
            (case routing_prefix_scan prefix_segments 0 0 (drop (colon + 1) path) of
               Some i \<Rightarrow> take (colon + 1 + i) path
             | None \<Rightarrow> path))"

definition namespace_contains_path :: "string \<Rightarrow> string \<Rightarrow> bool" where
  "namespace_contains_path namespace path =
     (case str_find CHR '':'' namespace of
        None \<Rightarrow> (case str_find CHR '':'' path of Some colon \<Rightarrow> take colon path = namespace | None \<Rightarrow> False)
      | Some ns_colon \<Rightarrow>
          (case str_find CHR '':'' path of
             None \<Rightarrow> False
           | Some path_colon \<Rightarrow>
               if take ns_colon namespace \<noteq> take path_colon path then False
               else if namespace = path then True
               else if suffix '':/'' namespace then prefix namespace path
               else (case strip_prefix namespace path of Some rest \<Rightarrow> prefix ''/'' rest | None \<Rightarrow> False)))"

definition path_depth :: "string \<Rightarrow> u32" where
  "path_depth path =
     (case str_find CHR '':'' path of
        None \<Rightarrow> 0
      | Some colon \<Rightarrow>
          let rest = drop (colon + 1) path in
          if rest = ''/'' \<or> rest = [] then 0
          else word_of_nat (length (filter (\<lambda>b. b = CHR ''/'') rest)))"

text \<open>\<open>sort_by_key\<close> is a stable sort; \<open>Reverse\<close> turns the order of the weights around.\<close>

definition select_voters :: "(bytes \<Rightarrow> u64) \<Rightarrow> group_id \<Rightarrow> u64 list \<Rightarrow> u32 \<Rightarrow> u64 list" where
  "select_voters xxh3_64 group_id nodes replication_factor =
     (let weights = map (\<lambda>node_id. (node_id, xxh3_64 (u64_le (ucast group_id) @ u64_le node_id))) nodes in
      map fst (take (unat replication_factor) (sort_key (\<lambda>(_, weight). - uint weight) weights)))"

definition rf_effective :: "u32 \<Rightarrow> nat \<Rightarrow> u32" where
  "rf_effective configured stable_nodes =
     (let n = max (min configured (word_of_nat stable_nodes)) 1 in
      if n mod 2 = 0 then n - 1 else n)"

section \<open>Facts\<close>

lemma place_domain_loop_mem:
  "place_domain_loop h d gs b w \<in> insert b (set gs)"
  by (induction gs arbitrary: b w) (auto simp: Let_def)

lemma place_domain_range:
  assumes "0 < n"
  shows "place_domain h d n < n"
proof -
  have gs: "g < n" if g: "g \<in> set (map word_of_nat [0..<unat n])" for g :: u32
  proof -
    obtain i where i: "i < unat n" "g = word_of_nat i" using g by auto
    then have "unat g = i" using unat_lt[of n] by (simp add: unat_of_nat)
    with i show ?thesis by (simp add: word_less_nat_alt)
  qed
  have "place_domain h d n \<in> insert 0 (set (map word_of_nat [0..<unat n]))"
    unfolding place_domain_def by (rule place_domain_loop_mem)
  with gs assms show ?thesis by auto
qed

text \<open>The winner has the greatest weight of all groups.\<close>

definition group_weight :: "(bytes \<Rightarrow> u64) \<Rightarrow> string \<Rightarrow> group_id \<Rightarrow> u64" where
  "group_weight h d g = h (u64_le (ucast g) @ d)"

lemma place_domain_loop_best:
  "(place_domain_loop h d gs b w = b \<and> (\<forall>g \<in> set gs. group_weight h d g \<le> w)) \<or>
   (w < group_weight h d (place_domain_loop h d gs b w) \<and>
    (\<forall>g \<in> set gs. group_weight h d g \<le> group_weight h d (place_domain_loop h d gs b w)))"
proof (induction gs arbitrary: b w)
  case (Cons x xs)
  show ?case
  proof (cases "w < group_weight h d x")
    case True
    then have "place_domain_loop h d (x # xs) b w = place_domain_loop h d xs x (group_weight h d x)"
      by (simp add: Let_def group_weight_def)
    with Cons.IH[of x "group_weight h d x"] True show ?thesis by auto
  next
    case False
    then have "place_domain_loop h d (x # xs) b w = place_domain_loop h d xs b w"
      by (simp add: Let_def group_weight_def)
    with Cons.IH[of b w] False show ?thesis by auto
  qed
qed simp

lemma place_domain_best: "g < n \<Longrightarrow> group_weight h d g \<le> group_weight h d (place_domain h d n)"
proof -
  assume "g < n"
  then have g: "g \<in> set (map word_of_nat [0..<unat n])"
    by (auto simp: word_less_nat_alt intro!: image_eqI[of _ _ "unat g"])
  consider "group_weight h d g \<le> 0" | "group_weight h d g \<le> group_weight h d (place_domain h d n)"
    using place_domain_loop_best[of h d "map word_of_nat [0..<unat n]" 0 0] g
    unfolding place_domain_def by blast
  then show ?thesis by cases (simp_all add: word_le_0_iff)
qed

lemma set_select_voters: "set (select_voters h g nodes rf) \<subseteq> set nodes"
  by (auto simp: select_voters_def Let_def dest!: in_set_takeD)

lemma length_select_voters: "length (select_voters h g nodes rf) = min (unat rf) (length nodes)"
  by (simp add: select_voters_def Let_def)

lemma distinct_select_voters: "distinct nodes \<Longrightarrow> distinct (select_voters h g nodes rf)"
proof -
  assume d: "distinct nodes"
  let ?w = "map (\<lambda>n. (n, h (u64_le (ucast g) @ u64_le n))) nodes"
  let ?s = "sort_key (\<lambda>(_, weight). - uint weight) ?w"
  have "mset (map fst ?s) = mset (map fst ?w)" by (simp only: mset_map mset_sort)
  also have "map fst ?w = nodes" by (simp add: comp_def)
  finally have "distinct (map fst ?s)" using d mset_eq_imp_distinct_iff by blast
  then show ?thesis by (simp add: select_voters_def Let_def take_map[symmetric])
qed

lemma rf_effective_bounds:
  defines "n c k \<equiv> max (min (unat c) (k mod 2 ^ 32)) 1"
  shows "odd (unat (rf_effective c k))" and "unat (rf_effective c k) \<le> n c k"
    and "n c k \<le> unat (rf_effective c k) + 1"
proof -
  define m where "m = max (min c (word_of_nat k)) (1 :: u32)"
  have m: "unat m = n c k"
    by (simp add: m_def n_def max_def min_def word_le_nat_alt unat_of_nat)
  have "m mod 2 = 0 \<longleftrightarrow> unat m mod 2 = 0"
    by (simp add: unat_mod_distrib flip: unat_eq_0)
  moreover have "1 \<le> unat m" by (simp add: m n_def)
  moreover from this have "unat (m - 1) = unat m - 1" by (subst unat_sub) (simp_all add: word_le_nat_alt)
  ultimately have r: "unat (rf_effective c k) = (if even (unat m) then unat m - 1 else unat m)"
    unfolding rf_effective_def m_def[symmetric] Let_def by (simp add: even_iff_mod_2_eq_zero)
  show "odd (unat (rf_effective c k))" "unat (rf_effective c k) \<le> n c k" "n c k \<le> unat (rf_effective c k) + 1"
    using \<open>1 \<le> unat m\<close> m by (auto simp: r)
qed

end
