(* ===== verification/Queue.thy ===== *)
theory Queue
  imports Engine Placement
begin

text \<open>
  \<open>src/src/queue.rs\<close>: the persisted FIFO wait queue. The queue works on the write transaction itself
  (it needs the ordered scan and the binary records), so its operations take the database \<open>R\<close> and the
  codec \<open>C\<close>. A \<open>BTreeSet\<close> of sequence numbers is a strictly increasing list.
\<close>

section \<open>Entries\<close>

definition QUEUE_ENTRY_TTL_MS :: u64 where
  "QUEUE_ENTRY_TTL_MS = 60000"

definition QUEUE_SCAN_LIMIT :: nat where
  "QUEUE_SCAN_LIMIT = 65536"

record queue_entry =
  qe_seq :: u64
  qe_owner :: string
  qe_namespace :: string
  qe_args :: acquire_args
  qe_policy :: lock_policy

text \<open>The two bincode functions of a \<open>QueueEntry\<close>.\<close>

record queue_codec = codec +
  entry_encode :: "queue_entry \<Rightarrow> error + bytes"
  entry_decode :: "bytes \<Rightarrow> error + queue_entry"

definition new_paths :: "acquire_args \<Rightarrow> (string \<times> mode) list" where
  "new_paths args = map (\<lambda>r. (lr_path r, lr_mode r)) (filter (\<lambda>r. lr_state r = New) (aa_requests args))"

definition new_scoped_paths :: "acquire_args \<Rightarrow> string \<Rightarrow> (string \<times> mode) list" where
  "new_scoped_paths args namespace = map (\<lambda>(path, mode). (scoped_path namespace path, mode)) (new_paths args)"

definition queue_units :: "acquire_args \<Rightarrow> u64" where
  "queue_units args =
     (let n = max (length (new_paths args)) 1 in if n < 2 ^ 64 then word_of_nat n else - 1)"

definition decode_queue_entry :: "'c queue_codec_scheme \<Rightarrow> bytes \<Rightarrow> queue_entry option" where
  "decode_queue_entry C b = (case entry_decode C b of Inl _ \<Rightarrow> None | Inr entry \<Rightarrow> Some entry)"

definition stored_queue_units :: "'c queue_codec_scheme \<Rightarrow> bytes \<Rightarrow> u64" where
  "stored_queue_units C raw =
     (case decode_record C raw of
        Inr (Bytes v _) \<Rightarrow>
          (case decode_queue_entry C v of Some entry \<Rightarrow> queue_units (qe_args entry) | None \<Rightarrow> 1)
      | _ \<Rightarrow> 1)"

definition requests_conflict ::
    "lock_algorithm \<Rightarrow> string \<Rightarrow> mode \<Rightarrow> lock_algorithm \<Rightarrow> string \<Rightarrow> mode \<Rightarrow> bool" where
  "requests_conflict a_algorithm a_path a_mode b_algorithm b_path b_mode =
     locks_conflict a_algorithm a_path a_mode b_algorithm b_path b_mode"

definition args_conflicts_with ::
    "acquire_args \<Rightarrow> string \<Rightarrow> lock_policy \<Rightarrow> (string \<times> mode \<times> lock_algorithm) list \<Rightarrow> string option" where
  "args_conflicts_with args namespace policy paths =
     map_option fst (find (\<lambda>(ap, am).
       list_ex (\<lambda>(bp, bm, ba). requests_conflict (lp_algorithm policy) ap am ba bp bm) paths)
       (new_scoped_paths args namespace))"

section \<open>The sequence counter and the unit count\<close>

definition next_seq :: "'db rocksdb \<Rightarrow> 'c queue_codec_scheme \<Rightarrow> ('db write_txn, u64) txm" where
  "next_seq R C =
     bnd (get_raw R CF_META META_QUEUE_SEQ_KEY) (\<lambda>raw.
     bnd (case raw of
            Some b \<Rightarrow>
              bnd (lift_res (decode_record C b)) (\<lambda>rec.
              ret (case rec of Counter v \<Rightarrow> if 0 \<le> v then word_of_int v else 0 | _ \<Rightarrow> 0))
          | None \<Rightarrow> ret 0) (\<lambda>current :: u64.
     let next_val = sat_add current 1 in
     bnd (lift_res (encode_record C (Counter (sint next_val)))) (\<lambda>record.
     bnd (put_raw R CF_META META_QUEUE_SEQ_KEY record) (\<lambda>_.
     ret next_val))))"

definition set_queue_count :: "'db rocksdb \<Rightarrow> 'c queue_codec_scheme \<Rightarrow> u64 \<Rightarrow> ('db write_txn, unit) txm" where
  "set_queue_count R C units =
     bnd (lift_res (encode_record C (Counter (min (uint units) (2 ^ 63 - 1))))) (\<lambda>record.
     put_raw R CF_META META_QUEUE_COUNT_KEY record)"

definition queue_count :: "'db rocksdb \<Rightarrow> 'c queue_codec_scheme \<Rightarrow> ('db write_txn, u64) txm" where
  "queue_count R C =
     bnd (get_raw R CF_META META_QUEUE_COUNT_KEY) (\<lambda>raw.
     bnd (case raw of
            Some b \<Rightarrow>
              bnd (lift_res (decode_record C b)) (\<lambda>rec.
              ret (case rec of Counter v \<Rightarrow> Some (word_of_int (max v 0)) | _ \<Rightarrow> None))
          | None \<Rightarrow> ret None) (\<lambda>stored :: u64 option.
     case stored of
       Some units \<Rightarrow> ret units
     | None \<Rightarrow>
         bnd (scan_merged R CF_QUEUE (Some queue_entry_lower) (Some queue_entry_upper)
                (\<lambda>key value units.
                   Inr (True,
                        if decode_queue_entry_seq key \<noteq> None then sat_add units (stored_queue_units C value)
                        else units)) 0) (\<lambda>units.
         bnd (set_queue_count R C units) (\<lambda>_.
         ret units))))"

definition reserve_queue_units ::
    "'db rocksdb \<Rightarrow> 'c queue_codec_scheme \<Rightarrow> u64 \<Rightarrow> u64 \<Rightarrow> ('db write_txn, unit) txm" where
  "reserve_queue_units R C old_units new_units =
     bnd (queue_count R C) (\<lambda>count.
     let next_count = sat_add (sat_sub count old_units) new_units in
     if next_count > word_of_nat QUEUE_SCAN_LIMIT then fail (SetScanLimitExceeded ''enqueue'' QUEUE_SCAN_LIMIT)
     else set_queue_count R C next_count)"

definition release_queue_units :: "'db rocksdb \<Rightarrow> 'c queue_codec_scheme \<Rightarrow> u64 \<Rightarrow> ('db write_txn, unit) txm" where
  "release_queue_units R C units =
     bnd (queue_count R C) (\<lambda>count. set_queue_count R C (sat_sub count units))"

section \<open>Enqueue, dequeue, scan\<close>

definition owner_seq :: "'db rocksdb \<Rightarrow> 'c queue_codec_scheme \<Rightarrow> string \<Rightarrow> ('db write_txn, u64 option) txm" where
  "owner_seq R C owner =
     bnd (write_get_str R C CF_QUEUE (queue_owner_key owner)) (\<lambda>s. ret (Option.bind s parse_u64))"

definition read_entry :: "'db rocksdb \<Rightarrow> 'c queue_codec_scheme \<Rightarrow> u64 \<Rightarrow> ('db write_txn, queue_entry option) txm" where
  "read_entry R C seq =
     bnd (get_bytes R C CF_QUEUE (queue_entry_key seq)) (\<lambda>b.
     ret (Option.bind b (decode_queue_entry C)))"

definition write_path_indexes ::
    "'db rocksdb \<Rightarrow> 'c queue_codec_scheme \<Rightarrow> queue_entry \<Rightarrow> u64 \<Rightarrow> ('db write_txn, unit) txm" where
  "write_path_indexes R C entry ttl =
     for_each (\<lambda>(path, _). write_set_str R C CF_QUEUE (queue_path_key path (qe_seq entry)) ''1'' ttl)
       (new_scoped_paths (qe_args entry) (qe_namespace entry))"

definition delete_path_indexes :: "'db rocksdb \<Rightarrow> queue_entry \<Rightarrow> ('db write_txn, unit) txm" where
  "delete_path_indexes R entry =
     for_each (\<lambda>(path, _). write_del R CF_QUEUE (queue_path_key path (qe_seq entry)))
       (new_scoped_paths (qe_args entry) (qe_namespace entry))"

definition expire_entry :: "'db rocksdb \<Rightarrow> 'c queue_codec_scheme \<Rightarrow> bytes \<Rightarrow> ('db write_txn, bool) txm" where
  "expire_entry R C primary_key =
     (case decode_queue_entry_seq primary_key of
        None \<Rightarrow> ret False
      | Some seq \<Rightarrow>
          bnd (get_raw R CF_QUEUE primary_key) (\<lambda>raw.
          case raw of
            None \<Rightarrow> ret False
          | Some raw \<Rightarrow>
              bnd (case decode_record C raw of
                     Inr (Bytes v _) \<Rightarrow>
                       (case decode_queue_entry C v of
                          Some entry \<Rightarrow>
                            bnd (delete_path_indexes R entry) (\<lambda>_.
                            bnd (owner_seq R C (qe_owner entry)) (\<lambda>s.
                            if s = Some seq then write_del R CF_QUEUE (queue_owner_key (qe_owner entry)) else ret ()))
                        | None \<Rightarrow> ret ())
                   | _ \<Rightarrow> ret ()) (\<lambda>_.
              bnd (release_queue_units R C (stored_queue_units C raw)) (\<lambda>_.
              bnd (write_del R CF_QUEUE primary_key) (\<lambda>_.
              ret True)))))"

definition enqueue ::
    "'db rocksdb \<Rightarrow> 'c queue_codec_scheme \<Rightarrow> string \<Rightarrow> acquire_args \<Rightarrow> lock_policy \<Rightarrow> ('db write_txn, u64) txm" where
  "enqueue R C namespace args policy =
     (let owner = aa_owner_id args in
      bnd (owner_seq R C owner) (\<lambda>found.
      bnd (case found of
             Some existing \<Rightarrow>
               bnd (read_entry R C existing) (\<lambda>e.
               case e of
                 Some entry \<Rightarrow>
                   let old_units = queue_units (qe_args entry) in
                   if qe_namespace entry = namespace \<and> qe_args entry = args \<and> qe_policy entry = policy then
                     bnd (delete_path_indexes R entry) (\<lambda>_. ret (existing, old_units))
                   else
                     bnd (delete_path_indexes R entry) (\<lambda>_.
                     bnd (write_del R CF_QUEUE (queue_entry_key existing)) (\<lambda>_.
                     bnd (write_del R CF_QUEUE (queue_owner_key owner)) (\<lambda>_.
                     bnd (next_seq R C) (\<lambda>seq. ret (seq, old_units)))))
               | None \<Rightarrow>
                   bnd (expire_entry R C (queue_entry_key existing)) (\<lambda>_.
                   bnd (write_del R CF_QUEUE (queue_owner_key owner)) (\<lambda>_.
                   bnd (next_seq R C) (\<lambda>seq. ret (seq, 0)))))
           | None \<Rightarrow> bnd (next_seq R C) (\<lambda>seq. ret (seq, 0))) (\<lambda>(seq, old_units).
      bnd (reserve_queue_units R C old_units (queue_units args)) (\<lambda>_.
      let ttl = (if 0 < aa_queue_ttl_ms args then aa_queue_ttl_ms args else QUEUE_ENTRY_TTL_MS);
          entry = \<lparr> qe_seq = seq, qe_owner = owner, qe_namespace = namespace, qe_args = args, qe_policy = policy \<rparr> in
      bnd (lift_res (entry_encode C entry)) (\<lambda>encoded.
      bnd (set_bytes R C CF_QUEUE (queue_entry_key seq) encoded ttl) (\<lambda>_.
      bnd (write_set_str R C CF_QUEUE (queue_owner_key owner) (u64_str seq) ttl) (\<lambda>_.
      bnd (write_path_indexes R C entry ttl) (\<lambda>_.
      ret seq))))))))"

definition dequeue :: "'db rocksdb \<Rightarrow> 'c queue_codec_scheme \<Rightarrow> string \<Rightarrow> ('db write_txn, unit) txm" where
  "dequeue R C owner =
     bnd (owner_seq R C owner) (\<lambda>found.
     bnd (case found of
            Some seq \<Rightarrow>
              bnd (get_raw R CF_QUEUE (queue_entry_key seq)) (\<lambda>raw.
              bnd (read_entry R C seq) (\<lambda>e.
              bnd (case e of Some entry \<Rightarrow> delete_path_indexes R entry | None \<Rightarrow> ret ()) (\<lambda>_.
              bnd (case raw of Some raw \<Rightarrow> release_queue_units R C (stored_queue_units C raw) | None \<Rightarrow> ret ()) (\<lambda>_.
              write_del R CF_QUEUE (queue_entry_key seq)))))
          | None \<Rightarrow> ret ()) (\<lambda>_.
     write_del R CF_QUEUE (queue_owner_key owner)))"

text \<open>The entry a raw record of the entry table holds, when it is live at \<open>now\<close>.\<close>

definition live_entry :: "'c queue_codec_scheme \<Rightarrow> u64 \<Rightarrow> bytes \<Rightarrow> queue_entry option" where
  "live_entry C now value =
     (case decode_record C value of
        Inr (Bytes v exp) \<Rightarrow> if expired exp now then None else decode_queue_entry C v
      | _ \<Rightarrow> None)"

text \<open>The visitor of \<open>scan\<close>; its state is \<open>(out, raw)\<close>.\<close>

definition queue_scan_visit :: "'c queue_codec_scheme \<Rightarrow> u64 \<Rightarrow> (queue_entry list \<times> nat) visitor" where
  "queue_scan_visit C now key value st =
     (case st of (out, raw) \<Rightarrow>
        let raw = raw + 1 in
        if decode_queue_entry_seq key = None then Inr (True, (out, raw))
        else
          let out = (case live_entry C now value of Some entry \<Rightarrow> out @ [entry] | None \<Rightarrow> out) in
          Inr (length out < QUEUE_SCAN_LIMIT \<and> raw < QUEUE_SCAN_LIMIT, (out, raw)))"

definition queue_scan :: "'db rocksdb \<Rightarrow> 'c queue_codec_scheme \<Rightarrow> ('db write_txn, queue_entry list) txm" where
  "queue_scan R C t =
     bnd (scan_merged R CF_QUEUE (Some queue_entry_lower) (Some queue_entry_upper)
            (queue_scan_visit C (wt_now_ms t)) ([], 0)) (\<lambda>(out, _). ret out) t"

definition scan_all_visit :: "'c queue_codec_scheme \<Rightarrow> u64 \<Rightarrow> queue_entry list visitor" where
  "scan_all_visit C now key value out =
     (if decode_queue_entry_seq key = None then Inr (True, out)
      else Inr (True, case live_entry C now value of Some entry \<Rightarrow> out @ [entry] | None \<Rightarrow> out))"

definition scan_all :: "'db rocksdb \<Rightarrow> 'c queue_codec_scheme \<Rightarrow> ('db write_txn, queue_entry list) txm" where
  "scan_all R C t =
     scan_merged R CF_QUEUE (Some queue_entry_lower) (Some queue_entry_upper)
       (scan_all_visit C (wt_now_ms t)) [] t"

text \<open>\<open>queue::clear_namespace\<close>; the preserved namespaces are a \<open>BTreeSet\<close>, only tested for membership.\<close>

definition queue_clear_namespace ::
    "'db rocksdb \<Rightarrow> 'c queue_codec_scheme \<Rightarrow> string \<Rightarrow> bool \<Rightarrow> string list \<Rightarrow> ('db write_txn, string list) txm" where
  "queue_clear_namespace R C namespace include_legacy_routes preserved_namespaces =
     bnd (scan_all R C) (\<lambda>entries.
     fold_each (\<lambda>entry cleared.
       let legacy_match =
             include_legacy_routes \<and>
             (list_ex (\<lambda>req. namespace_contains_path namespace (lr_path req)) (aa_requests (qe_args entry)) \<or>
              list_ex (\<lambda>req. namespace_contains_path namespace (rr_path req)) (aa_release_requests (qe_args entry))) \<and>
             qe_namespace entry \<notin> set preserved_namespaces in
       if qe_namespace entry = namespace \<or> legacy_match
       then bnd (dequeue R C (qe_owner entry)) (\<lambda>_. ret (cleared @ [qe_owner entry]))
       else ret cleared) entries [])"

section \<open>Admission\<close>

definition owner_holds_or_covers ::
    "'db rocksdb \<Rightarrow> 'c queue_codec_scheme \<Rightarrow> string \<Rightarrow> string \<Rightarrow> mode \<Rightarrow> lock_algorithm \<Rightarrow> ('db write_txn, bool) txm" where
  "owner_holds_or_covers R C owner path mode algorithm =
     bnd (write_get_str R C CF_WRITE_LOCKS (wr_key path)) (\<lambda>w.
     if w = Some owner then ret True
     else
       bnd (if is_semaphore algorithm then write_sismember R C CF_SEMAPHORE (sem_prefix path) owner
            else ret False) (\<lambda>permit.
       if permit then ret True
       else
         bnd (if recursive algorithm
              then first_some (\<lambda>anc.
                     bnd (write_get_str R C CF_WRITE_LOCKS (wr_key anc)) (\<lambda>v.
                     ret (if v = Some owner then Some () else None))) (get_ancestors path)
              else ret None) (\<lambda>above.
         if above \<noteq> None then ret True
         else
           bnd (if mode = Read then write_sismember R C CF_READ_LOCKS (rd_prefix path) owner
                else ret False) (\<lambda>reads.
           ret reads))))"

text \<open>The loop from the last byte down; here it walks the reversed prefix.\<close>

fun prefix_successor_rev :: "bytes \<Rightarrow> bytes option" where
  "prefix_successor_rev [] = None"
| "prefix_successor_rev (c # r) =
     (if c \<noteq> CHR 0xFF then Some (rev (char_of ((of_char c :: nat) + 1) # r)) else prefix_successor_rev r)"

definition prefix_successor :: "bytes \<Rightarrow> bytes option" where
  "prefix_successor pre = prefix_successor_rev (rev pre)"

definition queue_index_prefix_range :: "string \<Rightarrow> bytes \<times> bytes option" where
  "queue_index_prefix_range path_prefix =
     (let lower = CHR ''p'' # path_prefix in (lower, prefix_successor lower))"

text \<open>The visitor of both index scans; its state is \<open>(raw, exceeded, out)\<close>.\<close>

definition path_seqs_visit :: "'c queue_codec_scheme \<Rightarrow> u64 \<Rightarrow> (nat \<times> bool \<times> u64 list) visitor" where
  "path_seqs_visit C now key value st =
     (case st of (raw, exceeded, out) \<Rightarrow>
        if raw \<ge> QUEUE_SCAN_LIMIT then Inr (False, (raw, True, out))
        else
          let out =
                (case decode_queue_path_seq key of
                   Some seq \<Rightarrow>
                     (case decode_record C value of
                        Inr (Str _ exp) \<Rightarrow> if \<not> expired exp now then insort_insert seq out else out
                      | _ \<Rightarrow> out)
                 | None \<Rightarrow> out) in
          Inr (True, (raw + 1, exceeded, out)))"

definition collect_exact_path_seqs ::
    "'db rocksdb \<Rightarrow> 'c queue_codec_scheme \<Rightarrow> string \<Rightarrow> u64 list \<Rightarrow> ('db write_txn, u64 list) txm" where
  "collect_exact_path_seqs R C path out t =
     bnd (scan_merged R CF_QUEUE (Some (queue_path_prefix path)) (Some (queue_path_upper path))
            (path_seqs_visit C (wt_now_ms t)) (0, False, out)) (\<lambda>(raw, exceeded, out).
     if exceeded then fail (SetScanLimitExceeded ''queue exact-path scan'' QUEUE_SCAN_LIMIT) else ret out) t"

definition collect_prefixed_path_seqs ::
    "'db rocksdb \<Rightarrow> 'c queue_codec_scheme \<Rightarrow> string \<Rightarrow> u64 list \<Rightarrow> ('db write_txn, u64 list) txm" where
  "collect_prefixed_path_seqs R C path_prefix out t =
     (let (lower, upper) = queue_index_prefix_range path_prefix in
      bnd (scan_merged R CF_QUEUE (Some lower) upper (path_seqs_visit C (wt_now_ms t)) (0, False, out))
        (\<lambda>(raw, exceeded, out).
      if exceeded then fail (SetScanLimitExceeded ''queue prefix scan'' QUEUE_SCAN_LIMIT) else ret out) t)"

definition descendant_index_prefix :: "string \<Rightarrow> string" where
  "descendant_index_prefix path = (if suffix ''/'' path then path else path @ ''/'')"

definition blocked_by_earlier ::
    "'db rocksdb \<Rightarrow> 'c queue_codec_scheme \<Rightarrow> string \<Rightarrow> acquire_args \<Rightarrow> lock_policy \<Rightarrow>
     ('db write_txn, (string \<times> string \<times> reason) option) txm" where
  "blocked_by_earlier R C namespace args policy =
     (let owner = aa_owner_id args; algorithm = lp_algorithm policy in
      bnd (fold_each (\<lambda>(path, mode) (mine, candidate_seqs).
             bnd (owner_holds_or_covers R C owner path mode algorithm) (\<lambda>has.
             if has then ret (mine, candidate_seqs)
             else
               bnd (collect_exact_path_seqs R C path candidate_seqs) (\<lambda>seqs.
               bnd (fold_each (collect_exact_path_seqs R C) (get_ancestors path) seqs) (\<lambda>seqs.
               bnd (if mode = Write \<and> recursive algorithm
                    then collect_prefixed_path_seqs R C (descendant_index_prefix path) seqs
                    else ret seqs) (\<lambda>seqs.
               ret (mine @ [(path, mode, algorithm)], seqs)))))) (new_scoped_paths args namespace) ([], []))
        (\<lambda>(mine, candidate_seqs).
      if mine = [] then ret None
      else if candidate_seqs = [] then ret None
      else
        bnd (owner_seq R C owner) (\<lambda>my_seq.
        first_some (\<lambda>seq.
          bnd (read_entry R C seq) (\<lambda>e.
          ret (case e of
                 None \<Rightarrow> None
               | Some entry \<Rightarrow>
                   if qe_owner entry = owner then None
                   else if my_seq \<noteq> None \<and> qe_seq entry \<ge> the my_seq then None
                   else
                     (case args_conflicts_with (qe_args entry) (qe_namespace entry) (qe_policy entry) mine of
                        Some path \<Rightarrow>
                          Some (qe_owner entry, public_path (qe_namespace entry) path, QueuedReason)
                      | None \<Rightarrow> None)))) candidate_seqs)))"

section \<open>Reserved paths\<close>

record reserved_paths =
  by_path :: "(string, (mode \<times> lock_algorithm) list) omap"

definition reserved_none :: reserved_paths where
  "reserved_none = \<lparr> by_path = om_empty \<rparr>"

definition reserved_at :: "reserved_paths \<Rightarrow> string \<Rightarrow> string \<Rightarrow> mode \<Rightarrow> lock_algorithm \<Rightarrow> bool" where
  "reserved_at res other path mode algorithm =
     (case om_lookup (by_path res) other of
        Some entries \<Rightarrow>
          list_ex (\<lambda>(other_mode, other_algorithm).
            requests_conflict algorithm path mode other_algorithm other other_mode) entries
      | None \<Rightarrow> False)"

definition path_conflicts :: "reserved_paths \<Rightarrow> string \<Rightarrow> mode \<Rightarrow> lock_algorithm \<Rightarrow> bool" where
  "path_conflicts res path mode algorithm =
     (if reserved_at res path path mode algorithm then True
      else if list_ex (\<lambda>ancestor. reserved_at res ancestor path mode algorithm) (get_ancestors path) then True
      else if mode = Write \<and> recursive algorithm then
        let pre = descendant_index_prefix path in
        list_ex (\<lambda>(other_path, entries).
            list_ex (\<lambda>(other_mode, other_algorithm).
              requests_conflict algorithm path mode other_algorithm other_path other_mode) entries)
          (takeWhile (\<lambda>(other_path, _). prefix pre other_path)
            (filter (\<lambda>(other_path, _). pre \<le> other_path) (om_entries (by_path res))))
      else False)"

definition reserved_conflicts :: "reserved_paths \<Rightarrow> acquire_args \<Rightarrow> string \<Rightarrow> lock_policy \<Rightarrow> bool" where
  "reserved_conflicts res args namespace policy =
     list_ex (\<lambda>(path, mode). path_conflicts res path mode (lp_algorithm policy)) (new_scoped_paths args namespace)"

definition reserved_insert :: "string \<Rightarrow> acquire_args \<Rightarrow> lock_algorithm \<Rightarrow> reserved_paths \<Rightarrow> reserved_paths" where
  "reserved_insert namespace args algorithm res =
     fold (\<lambda>(path, mode) res.
       let entries = (case om_lookup (by_path res) path of Some es \<Rightarrow> es | None \<Rightarrow> []) in
       res\<lparr> by_path := om_insert path (entries @ [(mode, algorithm)]) (by_path res) \<rparr>)
       (new_scoped_paths args namespace) res"

section \<open>The grant sweep\<close>

type_synonym 't try_acquire = "string \<Rightarrow> acquire_args \<Rightarrow> lock_policy \<Rightarrow> ('t, acquire_outcome) txm"

fun run_grant_sweep ::
    "'db rocksdb \<Rightarrow> 'c queue_codec_scheme \<Rightarrow> 'db write_txn try_acquire \<Rightarrow> queue_entry list \<Rightarrow> reserved_paths \<Rightarrow>
     string list \<Rightarrow> ('db write_txn, string list) txm" where
  "run_grant_sweep R C try_acquire [] reserved notify = ret notify"
| "run_grant_sweep R C try_acquire (entry # entries) reserved notify =
     (let reserve = reserved_insert (qe_namespace entry) (qe_args entry) (lp_algorithm (qe_policy entry)) reserved in
      if reserved_conflicts reserved (qe_args entry) (qe_namespace entry) (qe_policy entry)
      then run_grant_sweep R C try_acquire entries reserve notify
      else
        bnd (try_acquire (qe_namespace entry) (qe_args entry) (qe_policy entry)) (\<lambda>outcome.
        case outcome of
          AcqOk _ \<Rightarrow>
            bnd (dequeue R C (qe_owner entry)) (\<lambda>_.
            run_grant_sweep R C try_acquire entries reserved (notify @ [qe_owner entry]))
        | Conflict _ _ reason \<Rightarrow>
            if reason = StaleFencingToken
            then run_grant_sweep R C try_acquire entries reserve (notify @ [qe_owner entry])
            else if \<not> is_queueable reason
            then bnd (dequeue R C (qe_owner entry)) (\<lambda>_. run_grant_sweep R C try_acquire entries reserved notify)
            else run_grant_sweep R C try_acquire entries reserve notify
        | Lost _ _ \<Rightarrow>
            bnd (dequeue R C (qe_owner entry)) (\<lambda>_. run_grant_sweep R C try_acquire entries reserved notify)
        | Queued _ _ _ _ \<Rightarrow> run_grant_sweep R C try_acquire entries reserve notify))"

definition grant_sweep ::
    "'db rocksdb \<Rightarrow> 'c queue_codec_scheme \<Rightarrow> 'db write_txn try_acquire \<Rightarrow> ('db write_txn, string list) txm" where
  "grant_sweep R C try_acquire =
     bnd (queue_scan R C) (\<lambda>entries. run_grant_sweep R C try_acquire entries reserved_none [])"

definition grant_sweep_for_paths ::
    "'db rocksdb \<Rightarrow> 'c queue_codec_scheme \<Rightarrow> 'db write_txn try_acquire \<Rightarrow> string list \<Rightarrow> ('db write_txn, string list) txm" where
  "grant_sweep_for_paths R C try_acquire freed_scoped =
     (if freed_scoped = [] then ret []
      else
        bnd (fold_each (\<lambda>path candidate_seqs.
               bnd (collect_exact_path_seqs R C path candidate_seqs) (\<lambda>seqs.
               bnd (fold_each (collect_exact_path_seqs R C) (get_ancestors path) seqs) (\<lambda>seqs.
               collect_prefixed_path_seqs R C (descendant_index_prefix path) seqs))) freed_scoped [])
          (\<lambda>candidate_seqs.
        if candidate_seqs = [] then ret []
        else
          bnd (fold_each (\<lambda>seq entries.
                 bnd (read_entry R C seq) (\<lambda>e.
                 ret (case e of Some entry \<Rightarrow> entries @ [entry] | None \<Rightarrow> entries))) candidate_seqs [])
            (\<lambda>entries. run_grant_sweep R C try_acquire entries reserved_none [])))"

end
