(* ===== verification/Store_Admin.thy ===== *)
theory Store_Admin
  imports Engine Placement
begin

text \<open>
  \<open>src/src/store_rocksdb.rs\<close>, the administrative scans: the paginated lock dump, the namespace
  settings, the live-lock guard and the holds a namespace transition clears. A dump reads a snapshot,
  which is the database at the time of the call.
\<close>

definition DUMP_RAW_SCAN_CAP :: nat where
  "DUMP_RAW_SCAN_CAP = 65536"

text \<open>\<open>k.windows(2).position(|w| w == [0, 0])\<close>\<close>

fun double_nul :: "bytes \<Rightarrow> nat option" where
  "double_nul (a # b # r) = (if a = NUL \<and> b = NUL then Some 0 else map_option Suc (double_nul (b # r)))"
| "double_nul _ = None"

text \<open>The owner and the parsed member of a live hold row, when it has them.\<close>

definition hold_row :: "'c codec_scheme \<Rightarrow> u64 \<Rightarrow> bytes \<Rightarrow> bytes \<Rightarrow> (string \<times> held_lock) option" where
  "hold_row C now k v =
     (case double_nul k of
        None \<Rightarrow> None
      | Some sep \<Rightarrow>
          let owner = take sep k in
          if \<not> utf8_valid owner then None
          else
            (case Option.bind (decode_record_lenient C v) (\<lambda>r. live_str r now) of
               None \<Rightarrow> None
             | Some member \<Rightarrow> map_option (\<lambda>held. (owner, held)) (parse_member member)))"

text \<open>The \<open>owner_alive\<close> closure with its memo.\<close>

definition memo_alive ::
    "'db rocksdb \<Rightarrow> 'c codec_scheme \<Rightarrow> 'db \<Rightarrow> group_id \<Rightarrow> u64 \<Rightarrow> string \<Rightarrow> (string \<rightharpoonup> bool) \<Rightarrow>
     error + (bool \<times> (string \<rightharpoonup> bool))" where
  "memo_alive R C snapshot g now owner memo =
     (case memo owner of
        Some alive \<Rightarrow> Inr (alive, memo)
      | None \<Rightarrow>
          (case get_cf R snapshot CF_OWNER_ALIVE (group_key g (alive_key owner)) of
             Inl e \<Rightarrow> Inl e
           | Inr None \<Rightarrow> Inr (False, memo(owner \<mapsto> False))
           | Inr (Some raw) \<Rightarrow>
               (case decode_record C raw of
                  Inl e \<Rightarrow> Inl e
                | Inr rec \<Rightarrow>
                    let alive = (live_str rec now \<noteq> None) in
                    Inr (alive, memo(owner \<mapsto> alive)))))"

definition dump_fence ::
    "'db rocksdb \<Rightarrow> 'c codec_scheme \<Rightarrow> 'db \<Rightarrow> group_id \<Rightarrow> u64 \<Rightarrow> held_lock \<Rightarrow> error + i64 option" where
  "dump_fence R C snapshot g now held =
     (if hl_mode held = Write then
        (case get_cf R snapshot CF_FENCES
                (group_key g (fence_key (scoped_path (hl_namespace held) (hl_path held)))) of
           Inl e \<Rightarrow> Inl e
         | Inr raw \<Rightarrow>
             Inr (Option.bind raw (\<lambda>raw.
               case decode_record C raw of
                 Inl _ \<Rightarrow> None
               | Inr record \<Rightarrow> Option.bind (live_str record now) parse_i64)))
      else Inr None)"

text \<open>The visitor of \<open>dump_owner_holds\<close>; its state is \<open>(entries, memo, raw, next_cursor)\<close>.\<close>

definition dump_visit ::
    "'db rocksdb \<Rightarrow> 'c codec_scheme \<Rightarrow> 'db \<Rightarrow> group_id \<Rightarrow> u64 \<Rightarrow> nat \<Rightarrow>
     (lock_entry list \<times> (string \<rightharpoonup> bool) \<times> nat \<times> bytes option) visitor" where
  "dump_visit R C snapshot g now page full_key v st =
     (case st of (entries, memo, raw, next_cursor) \<Rightarrow>
        let k = drop (length (group_prefix g)) full_key in
        if length entries \<ge> page \<or> raw \<ge> DUMP_RAW_SCAN_CAP then Inr (False, (entries, memo, raw, Some k))
        else
          (case hold_row C now k v of
             None \<Rightarrow> Inr (True, (entries, memo, raw + 1, next_cursor))
           | Some (owner, held) \<Rightarrow>
               (case memo_alive R C snapshot g now owner memo of
                  Inl e \<Rightarrow> Inl e
                | Inr (False, memo) \<Rightarrow> Inr (True, (entries, memo, raw + 1, next_cursor))
                | Inr (True, memo) \<Rightarrow>
                    (case dump_fence R C snapshot g now held of
                       Inl e \<Rightarrow> Inl e
                     | Inr fence \<Rightarrow>
                         Inr (True,
                           (entries @ [\<lparr> le_owner = owner, le_path = hl_path held, le_mode = hl_mode held, le_fence = fence \<rparr>],
                            memo, raw + 1, next_cursor))))))"

definition dump_owner_holds ::
    "'db rocksdb \<Rightarrow> 'c codec_scheme \<Rightarrow> 'db \<Rightarrow> group_id \<Rightarrow> u64 \<Rightarrow> bytes option \<Rightarrow> nat \<Rightarrow> error + lock_dump_page" where
  "dump_owner_holds R C db g now cursor page =
     (let snapshot = db in
      if \<not> cf_handle R db CF_OWNER_ALIVE then Inl (MissingColumnFamily CF_OWNER_ALIVE)
      else if \<not> cf_handle R db CF_FENCES then Inl (MissingColumnFamily CF_FENCES)
      else
        let gp = group_prefix g;
            start = (case cursor of Some c \<Rightarrow> group_key g c | None \<Rightarrow> gp);
            upper = prefix_upper_bound gp in
        (case scan_with_overlay R db CF_OWNER_HOLDS None (Some snapshot) (Some start) upper
                (dump_visit R C snapshot g now page) ([], Map.empty, 0, None) of
           Inl e \<Rightarrow> Inl e
         | Inr (entries, _, _, next_cursor) \<Rightarrow> Inr \<lparr> ld_entries = entries, ld_next_cursor = next_cursor \<rparr>))"

definition namespace_settings_visit ::
    "'c codec_scheme \<Rightarrow> group_id \<Rightarrow> u64 \<Rightarrow> namespace_policy_entry list visitor" where
  "namespace_settings_visit C g now full_key v namespaces =
     (case Option.bind (decode_record_lenient C v) (\<lambda>r. live_str r now) of
        None \<Rightarrow> Inr (True, namespaces)
      | Some raw \<Rightarrow>
          let key = drop (length (group_prefix g)) full_key in
          if utf8_valid key then
            (case parse_namespace_policy_value raw of
               Inl e \<Rightarrow> Inl e
             | Inr policy \<Rightarrow>
                 Inr (True, namespaces @
                   [\<lparr> np_namespace = key, np_algorithm = lp_algorithm policy, np_epoch = lp_epoch policy \<rparr>]))
          else Inr (True, namespaces))"

text \<open>\<open>dedup_by\<close> drops an element equal to the one kept before it.\<close>

fun dedup_by :: "('a \<Rightarrow> 'b) \<Rightarrow> 'a list \<Rightarrow> 'a list" where
  "dedup_by f (a # b # xs) = (if f a = f b then dedup_by f (a # xs) else a # dedup_by f (b # xs))"
| "dedup_by f xs = xs"

definition list_namespace_settings ::
    "'db rocksdb \<Rightarrow> 'c codec_scheme \<Rightarrow> 'db \<Rightarrow> group_id \<Rightarrow> u64 \<Rightarrow> error + namespace_policy_entry list" where
  "list_namespace_settings R C db g now =
     (let snapshot = db; gp = group_prefix g; upper = prefix_upper_bound gp in
      case scan_with_overlay R db CF_NAMESPACE_SETTINGS None (Some snapshot) (Some gp) upper
             (namespace_settings_visit C g now) [] of
        Inl e \<Rightarrow> Inl e
      | Inr namespaces \<Rightarrow> Inr (dedup_by np_namespace (sort_key np_namespace namespaces)))"

text \<open>The visitor of \<open>namespace_has_live_locks\<close>; its state is \<open>(found, memo)\<close>.\<close>

definition live_locks_visit ::
    "'db rocksdb \<Rightarrow> 'c codec_scheme \<Rightarrow> 'db \<Rightarrow> group_id \<Rightarrow> u64 \<Rightarrow> string \<Rightarrow> (bool \<times> (string \<rightharpoonup> bool)) visitor" where
  "live_locks_visit R C snapshot g now namespace full_key v st =
     (case st of (found, memo) \<Rightarrow>
        if found then Inr (False, st)
        else
          (case hold_row C now (drop (length (group_prefix g)) full_key) v of
             None \<Rightarrow> Inr (True, st)
           | Some (owner, held) \<Rightarrow>
               if \<not> namespace_contains_path namespace (hl_path held) then Inr (True, st)
               else
                 (case memo_alive R C snapshot g now owner memo of
                    Inl e \<Rightarrow> Inl e
                  | Inr (alive, memo) \<Rightarrow> if alive then Inr (False, (True, memo)) else Inr (True, (found, memo)))))"

definition namespace_has_live_locks ::
    "'db rocksdb \<Rightarrow> 'c codec_scheme \<Rightarrow> 'db \<Rightarrow> group_id \<Rightarrow> u64 \<Rightarrow> string \<Rightarrow> error + bool" where
  "namespace_has_live_locks R C db g now namespace =
     (let snapshot = db; gp = group_prefix g; upper = prefix_upper_bound gp in
      if \<not> cf_handle R db CF_OWNER_ALIVE then Inl (MissingColumnFamily CF_OWNER_ALIVE)
      else
        (case scan_with_overlay R db CF_OWNER_HOLDS None (Some snapshot) (Some gp) upper
                (live_locks_visit R C snapshot g now namespace) (False, Map.empty) of
           Inl e \<Rightarrow> Inl e
         | Inr (found, _) \<Rightarrow> Inr found))"

definition namespace_holds_visit ::
    "'c codec_scheme \<Rightarrow> u64 \<Rightarrow> string \<Rightarrow> bool \<Rightarrow> string list \<Rightarrow> (string \<times> string \<times> string \<times> string) list visitor" where
  "namespace_holds_visit C now namespace include_legacy_routes preserved_namespaces key value out =
     (case hold_row C now key value of
        None \<Rightarrow> Inr (True, out)
      | Some (owner, held) \<Rightarrow>
          let held_namespace = hl_namespace held;
              legacy_match =
                include_legacy_routes \<and> namespace_contains_path namespace (hl_path held) \<and>
                held_namespace \<notin> set preserved_namespaces in
          Inr (True,
            if held_namespace = namespace \<or> legacy_match
            then out @ [(owner, held_namespace, mode_str (hl_mode held), hl_path held)]
            else out))"

definition collect_namespace_holds ::
    "'db rocksdb \<Rightarrow> 'c codec_scheme \<Rightarrow> string \<Rightarrow> bool \<Rightarrow> string list \<Rightarrow>
     ('db write_txn, (string \<times> string \<times> string \<times> string) list) txm" where
  "collect_namespace_holds R C namespace include_legacy_routes preserved_namespaces t =
     scan_merged R CF_OWNER_HOLDS None None
       (namespace_holds_visit C (wt_now_ms t) namespace include_legacy_routes preserved_namespaces) [] t"

end
