(* ===== verification/Directory.thy ===== *)
theory Directory
  imports Store_Txn
begin

text \<open>
  \<open>src/src/cluster/directory.rs\<close>: the membership directory kept in the system group's \<open>meta\<close> column
  family. The bincode functions of a group record are parameters.
\<close>

record group_record =
  gr_voters :: "u64 list"
  gr_learners :: "u64 list"
  gr_leader :: "u64 option"

definition group_record_key :: "group_id \<Rightarrow> bytes" where
  "group_record_key g = ''dir:'' @ u32_be g"

definition draining_key :: "u64 \<Rightarrow> bytes" where
  "draining_key node_id = ''draining:'' @ u64_be node_id"

definition read_group_record ::
    "'db rocksdb \<Rightarrow> (bytes \<Rightarrow> error + group_record) \<Rightarrow> 'db \<Rightarrow> group_id \<Rightarrow> error + group_record option" where
  "read_group_record R dec db g =
     (if \<not> cf_handle R db CF_META then Inl (MissingColumnFamily CF_META)
      else
        (case get_cf R db CF_META (group_key SYS_GROUP (group_record_key g)) of
           Inl e \<Rightarrow> Inl e
         | Inr None \<Rightarrow> Inr None
         | Inr (Some b) \<Rightarrow> map_sum id Some (dec b)))"

text \<open>The loop of \<open>read_draining\<close> over what the iterator yields.\<close>

fun draining_loop :: "bytes \<Rightarrow> (bytes \<times> bytes) list \<Rightarrow> error option \<Rightarrow> u64 list \<Rightarrow> error + u64 list" where
  "draining_loop pre [] status draining = (case status of Some e \<Rightarrow> Inl e | None \<Rightarrow> Inr draining)"
| "draining_loop pre ((key, value) # it) status draining =
     (if \<not> prefix pre key then Inr draining
      else
        let id_bytes = drop (length pre) key in
        draining_loop pre it status
          (if length id_bytes = 8 \<and> value = ''1'' then insort_insert (u64_from_be id_bytes) draining else draining))"

definition read_draining :: "'db rocksdb \<Rightarrow> 'db \<Rightarrow> error + u64 list" where
  "read_draining R db =
     (if \<not> cf_handle R db CF_META then Inl (MissingColumnFamily CF_META)
      else
        let pre = group_key SYS_GROUP ''draining:'';
            upper = prefix_upper_bound pre;
            (it, status) = iter_cf R db CF_META (Some pre) upper in
        draining_loop pre it status [])"

definition apply_directory_update ::
    "'db rocksdb \<Rightarrow> (group_record \<Rightarrow> error + bytes) \<Rightarrow> group_id \<Rightarrow> group_record \<Rightarrow> ('db write_txn, unit) txm" where
  "apply_directory_update R enc g record =
     bnd (lift_res (enc record)) (\<lambda>b. put_raw R CF_META (group_record_key g) b)"

definition apply_set_draining :: "'db rocksdb \<Rightarrow> u64 \<Rightarrow> bool \<Rightarrow> ('db write_txn, unit) txm" where
  "apply_set_draining R node_id draining =
     (if draining then put_raw R CF_META (draining_key node_id) ''1''
      else delete_raw R CF_META (draining_key node_id))"

end
