(* ===== verification/State_Machine.thy ===== *)
theory State_Machine
  imports Queue Store_Admin Directory "HOL-Library.Product_Lexorder"
begin

text \<open>
  \<open>src/src/raft/command.rs\<close> and the command application of \<open>src/src/raft/state_machine.rs\<close>: every
  replica runs \<open>apply_entry\<close> on the same log, so a group's database is a function of its log. A
  command runs in one write transaction that is committed or dropped. The bincode functions of the
  types the state machine stores, and the hash of a command, are parameters.
\<close>

section \<open>Commands and responses\<close>

record request_id =
  ri_client_id :: string
  ri_seq :: u64

record cmd_wait_edge =
  ce_conflict_owner :: string
  ce_metadata :: "wait_edge_metadata option"

datatype op =
    Release string string "rel_req list" bool
  | ReleaseAll string bool
  | Renew string u64
  | ForceRelease string
  | SetWaitEdge string cmd_wait_edge u64
  | ClearWaitEdge string
  | RequestRevoke string u64
  | GcSweep u64 u32
  | IncrFence
  | Noop
  | DirectoryUpdate group_id "u64 list" "u64 list" "u64 option"
  | SetNodeDraining u64 bool
  | SetNamespacePolicy string lock_algorithm
  | DeleteNamespacePolicy string
  | AcquireInNamespace string lock_policy acquire_args

record command =
  cmd_request_id :: "request_id option"
  cmd_now_ms :: u64
  cmd_op :: op

datatype reject_kind = ScanLimit | IdempotencyMismatch | PolicyEpochStale | RoutingStale

datatype apply_response =
    RespAcquire acquire_outcome
  | RespRenew renew_outcome
  | RespAssertFencing assert_outcome
  | RespIncrFence i64
  | RespGc u32 u64 "string list"
  | RespUnit
  | Rejected reject_kind string
  | Granted "string list"
  | AcquireGranted acquire_outcome "string list"
  | NamespaceCleared "string list"

record sm_codec = queue_codec +
  op_encode :: "op \<Rightarrow> error + bytes"
  xxh3_64 :: "bytes \<Rightarrow> u64"
  dedupe_encode :: "u64 \<times> apply_response \<Rightarrow> error + bytes"
  dedupe_decode :: "bytes \<Rightarrow> error + (u64 \<times> apply_response)"
  group_record_encode :: "group_record \<Rightarrow> error + bytes"

section \<open>Dedupe records and the clock\<close>

definition DEDUPE_TTL_MS :: u64 where
  "DEDUPE_TTL_MS = 300000"

definition DEDUPE_RECORD :: char where
  "DEDUPE_RECORD = CHR 0xD1"

definition op_fingerprint :: "'c sm_codec_scheme \<Rightarrow> op \<Rightarrow> error + u64" where
  "op_fingerprint C op = map_sum id (xxh3_64 C) (op_encode C op)"

definition encode_dedupe_record :: "'c sm_codec_scheme \<Rightarrow> u64 \<Rightarrow> apply_response \<Rightarrow> error + bytes" where
  "encode_dedupe_record C fingerprint resp =
     map_sum id (\<lambda>b. DEDUPE_RECORD # b) (dedupe_encode C (fingerprint, resp))"

definition decode_dedupe_record :: "'c sm_codec_scheme \<Rightarrow> bytes \<Rightarrow> (u64 \<times> apply_response) option" where
  "decode_dedupe_record C b =
     (case b of
        [] \<Rightarrow> None
      | version # rest \<Rightarrow>
          if version \<noteq> DEDUPE_RECORD then None
          else (case dedupe_decode C rest of Inl _ \<Rightarrow> None | Inr r \<Rightarrow> Some r))"

definition dedupe_key :: "request_id \<Rightarrow> bytes" where
  "dedupe_key rid = ri_client_id rid @ NUL # u64_be (ri_seq rid)"

definition last_now_of :: "bytes option \<Rightarrow> u64" where
  "last_now_of v = (case v of Some b \<Rightarrow> if length b = 8 then u64_from_be b else 0 | None \<Rightarrow> 0)"

definition read_last_now :: "'db rocksdb \<Rightarrow> 'db \<Rightarrow> group_id \<Rightarrow> error + u64" where
  "read_last_now R db g =
     (if \<not> cf_handle R db CF_META then Inl (MissingColumnFamily CF_META)
      else map_sum id last_now_of (get_cf R db CF_META (group_key g META_LAST_NOW_KEY)))"

definition read_last_now_snapshot :: "'db rocksdb \<Rightarrow> 'db \<Rightarrow> 'db \<Rightarrow> group_id \<Rightarrow> error + u64" where
  "read_last_now_snapshot R db snapshot g =
     (if \<not> cf_handle R db CF_META then Inl (MissingColumnFamily CF_META)
      else map_sum id last_now_of (get_cf R snapshot CF_META (group_key g META_LAST_NOW_KEY)))"

section \<open>Grant sweeps\<close>

definition is_queueable_conflict :: "reason \<Rightarrow> bool" where
  "is_queueable_conflict reason = is_queueable reason"

definition try_waiter :: "'db rocksdb \<Rightarrow> 'c sm_codec_scheme \<Rightarrow> 'db write_txn try_acquire" where
  "try_waiter R C namespace args policy = acquire_inner_in_namespace (write_store R C) args policy namespace"

definition sweep_grants :: "'db rocksdb \<Rightarrow> 'c sm_codec_scheme \<Rightarrow> ('db write_txn, string list) txm" where
  "sweep_grants R C = grant_sweep R C (try_waiter R C)"

definition sweep_grants_for_paths ::
    "'db rocksdb \<Rightarrow> 'c sm_codec_scheme \<Rightarrow> string list \<Rightarrow> ('db write_txn, string list) txm" where
  "sweep_grants_for_paths R C freed_scoped = grant_sweep_for_paths R C (try_waiter R C) freed_scoped"

definition granted_response :: "string list \<Rightarrow> apply_response" where
  "granted_response granted = (if granted = [] then RespUnit else Granted granted)"

definition scoped_freed_paths :: "string \<Rightarrow> rel_req list \<Rightarrow> string list" where
  "scoped_freed_paths namespace reqs =
     fold (\<lambda>req out. let scoped = scoped_path namespace (rr_path req) in
            if scoped \<in> set out then out else out @ [scoped]) reqs []"

section \<open>Acquire\<close>

definition i64_sat_add :: "i64 \<Rightarrow> i64 \<Rightarrow> i64" where
  "i64_sat_add a b = max (- (2 ^ 63)) (min (2 ^ 63 - 1) (a + b))"

definition read_fence_counter :: "'db rocksdb \<Rightarrow> 'c sm_codec_scheme \<Rightarrow> ('db write_txn, i64) txm" where
  "read_fence_counter R C =
     bnd (get_raw R CF_META META_FENCE_COUNTER_KEY) (\<lambda>raw.
     case raw of
       Some b \<Rightarrow> bnd (lift_res (decode_record C b)) (\<lambda>rec. ret (case rec of Counter v \<Rightarrow> v | _ \<Rightarrow> 0))
     | None \<Rightarrow> ret 0)"

definition mint_fence_if_needed ::
    "'db rocksdb \<Rightarrow> 'c sm_codec_scheme \<Rightarrow> string \<Rightarrow> acquire_args \<Rightarrow> lock_algorithm \<Rightarrow> ('db write_txn, acquire_args) txm" where
  "mint_fence_if_needed R C namespace args algorithm =
     (if 0 < aa_fencing_token args \<or> is_semaphore algorithm then ret args
      else if \<not> list_ex (\<lambda>req. lr_mode req = Write) (aa_requests args) then ret args
      else
        bnd (read_fence_counter R C) (\<lambda>stored.
        bnd (fold_each (\<lambda>req max_seen.
               let key_path = scoped_path namespace (lr_path req) in
               bnd (write_get_str R C CF_FENCES (fence_key key_path)) (\<lambda>v.
               ret (case parse_fence v of Some cur \<Rightarrow> max max_seen cur | None \<Rightarrow> max_seen)))
             (filter (\<lambda>req. lr_mode req = Write) (aa_requests args)) stored) (\<lambda>max_seen.
        let token = i64_sat_add max_seen 1 in
        bnd (lift_res (encode_record C (Counter token))) (\<lambda>record.
        bnd (put_raw R CF_META META_FENCE_COUNTER_KEY record) (\<lambda>_.
        ret (args\<lparr> aa_fencing_token := token \<rparr>))))))"

definition execute_acquire ::
    "'db rocksdb \<Rightarrow> 'c sm_codec_scheme \<Rightarrow> string \<Rightarrow> acquire_args \<Rightarrow> lock_policy \<Rightarrow> ('db write_txn, apply_response) txm" where
  "execute_acquire R C namespace args policy =
     bnd (mint_fence_if_needed R C namespace args (lp_algorithm policy)) (\<lambda>args.
     bnd (write_get_str R C CF_OWNER_ALIVE (alive_key (aa_owner_id args))) (\<lambda>v.
     let was_alive = (v \<noteq> None) in
     bnd (blocked_by_earlier R C namespace args policy) (\<lambda>blocked.
     case blocked of
       Some (owner, path, reason) \<Rightarrow>
         bnd (enqueue R C namespace args policy) (\<lambda>_.
         ret (RespAcquire (Queued path owner reason (aa_fencing_token args))))
     | None \<Rightarrow>
         bnd (acquire_inner_in_namespace (write_store R C) args policy namespace) (\<lambda>outcome.
         case outcome of
           AcqOk fencing_token \<Rightarrow>
             bnd (dequeue R C (aa_owner_id args)) (\<lambda>_.
             let freed = scoped_freed_paths namespace (aa_release_requests args) in
             bnd (if \<not> was_alive \<and> aa_requests args \<noteq> [] then sweep_grants R C
                  else if freed \<noteq> [] then sweep_grants_for_paths R C freed
                  else ret []) (\<lambda>granted.
             ret (if granted = [] then RespAcquire (AcqOk fencing_token)
                  else AcquireGranted (AcqOk fencing_token) granted)))
         | Conflict path owner reason \<Rightarrow>
             if is_queueable_conflict reason
             then bnd (enqueue R C namespace args policy) (\<lambda>_.
                  ret (RespAcquire (Queued path owner reason (aa_fencing_token args))))
             else ret (RespAcquire (Conflict path owner reason))
         | other \<Rightarrow> ret (RespAcquire other)))))"

section \<open>Namespace transitions\<close>

definition preserved_visit :: "'c sm_codec_scheme \<Rightarrow> u64 \<Rightarrow> string \<Rightarrow> string list visitor" where
  "preserved_visit C now namespace key value preserved =
     (case decode_record C value of
        Inr (Str _ exp) \<Rightarrow>
          if expired exp now then Inr (True, preserved)
          else if \<not> utf8_valid key then Inr (True, preserved)
          else if key \<noteq> namespace \<and> namespace_contains_path namespace key
          then Inr (True, insort_insert key preserved)
          else Inr (True, preserved)
      | _ \<Rightarrow> Inr (True, preserved))"

definition group_holds ::
    "(string \<times> string \<times> string \<times> string) list \<Rightarrow> (string \<times> string, rel_req list) omap" where
  "group_holds holds =
     fold (\<lambda>(owner, held_namespace, mode, path) by_owner.
       let m = (if mode = ''read'' then Read else Write);
           k = (held_namespace, owner);
           reqs = (case om_lookup by_owner k of Some rs \<Rightarrow> rs | None \<Rightarrow> []) in
       om_insert k (reqs @ [\<lparr> rr_path = path, rr_mode = m \<rparr>]) by_owner) holds om_empty"

definition clear_namespace ::
    "'db rocksdb \<Rightarrow> 'c sm_codec_scheme \<Rightarrow> string \<Rightarrow> bool \<Rightarrow> ('db write_txn, string list) txm" where
  "clear_namespace R C namespace include_legacy_routes =
     bnd (if include_legacy_routes
          then (\<lambda>t. scan_merged R CF_NAMESPACE_SETTINGS None None (preserved_visit C (wt_now_ms t) namespace) [] t)
          else ret []) (\<lambda>preserved_namespaces.
     bnd (collect_namespace_holds R C namespace include_legacy_routes preserved_namespaces) (\<lambda>holds.
     bnd (fold_each (\<lambda>((held_namespace, owner), reqs) affected.
            bnd (release_inner_in_namespace (write_store R C) held_namespace owner reqs False) (\<lambda>_.
            ret (insort_insert owner affected))) (om_entries (group_holds holds)) []) (\<lambda>affected.
     bnd (queue_clear_namespace R C namespace include_legacy_routes preserved_namespaces) (\<lambda>cleared.
     ret (fold insort_insert cleared affected)))))"

definition namespace_cleared_response :: "string list \<Rightarrow> apply_response" where
  "namespace_cleared_response cleared = (if cleared = [] then RespUnit else NamespaceCleared cleared)"

definition routing_roots_visit :: "'c sm_codec_scheme \<Rightarrow> u64 \<Rightarrow> string list visitor" where
  "routing_roots_visit C now key value roots =
     (case decode_record C value of
        Inr (Str _ exp) \<Rightarrow>
          if expired exp now then Inr (True, roots)
          else Inr (True, if utf8_valid key then roots @ [key] else roots)
      | _ \<Rightarrow> Inr (True, roots))"

definition reject_stale_routing ::
    "'db rocksdb \<Rightarrow> 'c sm_codec_scheme \<Rightarrow> string \<Rightarrow> acquire_args \<Rightarrow> ('db write_txn, apply_response option) txm" where
  "reject_stale_routing R C stamped_namespace args t =
     bnd (scan_merged R CF_NAMESPACE_SETTINGS None None (routing_roots_visit C (wt_now_ms t)) []) (\<lambda>roots.
     let roots = sort_key (\<lambda>r. (- int (length r), r)) roots;
         paths = map lr_path (aa_requests args) @ map rr_path (aa_release_requests args) in
     first_some (\<lambda>path.
       ret (case find (\<lambda>root. namespace_contains_path root path) roots of
              Some current \<Rightarrow>
                if current \<noteq> stamped_namespace
                then Some (Rejected RoutingStale
                       (''routing namespace for '' @ path @ '' changed: stamped '' @ stamped_namespace @
                        '', current '' @ current))
                else None
            | None \<Rightarrow> None)) paths) t"

definition reject_stale_policy_epoch ::
    "'db rocksdb \<Rightarrow> 'c sm_codec_scheme \<Rightarrow> string \<Rightarrow> lock_policy \<Rightarrow> lock_algorithm \<Rightarrow>
     ('db write_txn, apply_response option) txm" where
  "reject_stale_policy_epoch R C namespace stamped default_algorithm =
     bnd (get_namespace_policy_record_inner (write_store R C) namespace default_algorithm) (\<lambda>(current, _).
     if current = stamped then ret None
     else ret (Some (Rejected PolicyEpochStale
            (''namespace policy for '' @ namespace @ '' changed: stamped epoch '' @ u64_str (lp_epoch stamped) @
             '' '' @ algorithm_str (lp_algorithm stamped) @ '', current epoch '' @ u64_str (lp_epoch current) @
             '' '' @ algorithm_str (lp_algorithm current)))))"

section \<open>The expiry sweep\<close>

definition static_cf_name :: "string \<Rightarrow> cf option" where
  "static_cf_name name = find (\<lambda>cf. cf = name) ALL_CFS"

text \<open>The body of the loop over the due index entries; the loop state is \<open>(reclaimed, may_unblock)\<close>.\<close>

definition gc_reclaim ::
    "'db rocksdb \<Rightarrow> 'c sm_codec_scheme \<Rightarrow> u64 \<Rightarrow> cf \<Rightarrow> bytes \<Rightarrow> ('db write_txn, bool) txm" where
  "gc_reclaim R C now static_cf primary_key =
     bnd (get_raw R static_cf primary_key) (\<lambda>raw.
     let exp = (case raw of
                  Some b \<Rightarrow> (case decode_record C b of
                      Inr (Str _ exp) \<Rightarrow> Some exp | Inr (Bytes _ exp) \<Rightarrow> Some exp | _ \<Rightarrow> None)
                | None \<Rightarrow> None) in
     case exp of
       None \<Rightarrow> ret False
     | Some exp \<Rightarrow>
         if \<not> expired exp now then ret False
         else
           bnd (if static_cf = CF_OWNER_ALIVE \<and> NUL \<notin> set primary_key \<and> utf8_valid primary_key
                then force_release_inner (write_store R C) primary_key else ret ()) (\<lambda>_.
           bnd (if static_cf \<noteq> CF_QUEUE then ret False else expire_entry R C primary_key) (\<lambda>handled.
           bnd (if \<not> handled then delete_raw R static_cf primary_key else ret ()) (\<lambda>_.
           ret True))))"

definition gc_entry ::
    "'db rocksdb \<Rightarrow> 'c sm_codec_scheme \<Rightarrow> u64 \<Rightarrow> bytes \<Rightarrow> u64 \<times> bool \<Rightarrow> ('db write_txn, u64 \<times> bool) txm" where
  "gc_entry R C now key acc =
     (case acc of (reclaimed, may_unblock) \<Rightarrow>
      bnd (case decode_expiry_entry key of
             Some (_, cf, primary_key) \<Rightarrow>
               (case static_cf_name cf of
                  Some static_cf \<Rightarrow>
                    bnd (gc_reclaim R C now static_cf primary_key) (\<lambda>gone.
                    ret (if gone then reclaimed + 1 else reclaimed,
                         may_unblock \<or> static_cf = CF_OWNER_ALIVE \<or> static_cf = CF_QUEUE))
                | None \<Rightarrow> ret (reclaimed, may_unblock))
           | None \<Rightarrow> ret (reclaimed, may_unblock)) (\<lambda>acc'.
      bnd (delete_raw R CF_EXPIRY key) (\<lambda>_.
      ret acc')))"

definition gc_keys_visit :: "u32 \<Rightarrow> bytes list visitor" where
  "gc_keys_visit batch k v keys = (let keys = keys @ [k] in Inr (length keys < unat batch, keys))"

definition gc_sweep ::
    "'db rocksdb \<Rightarrow> 'c sm_codec_scheme \<Rightarrow> u64 \<Rightarrow> u32 \<Rightarrow> ('db write_txn, u32 \<times> u64 \<times> bool) txm" where
  "gc_sweep R C now batch =
     bnd (get_raw R CF_META META_GC_CURSOR_KEY) (\<lambda>cursor.
     bnd (scan_merged R CF_EXPIRY cursor (Some (expiry_scan_upper now)) (gc_keys_visit batch) []) (\<lambda>keys.
     bnd (fold_each (gc_entry R C now) keys (0, False)) (\<lambda>(reclaimed, may_unblock).
     bnd (if keys \<noteq> [] then put_raw R CF_META META_GC_CURSOR_KEY (key_successor (last keys)) else ret ()) (\<lambda>_.
     ret (word_of_nat (length keys), reclaimed, may_unblock)))))"

definition incr_fence_inner :: "'db rocksdb \<Rightarrow> 'c sm_codec_scheme \<Rightarrow> ('db write_txn, i64) txm" where
  "incr_fence_inner R C =
     bnd (read_fence_counter R C) (\<lambda>current.
     let next_val = i64_sat_add current 1 in
     bnd (lift_res (encode_record C (Counter next_val))) (\<lambda>record.
     bnd (put_raw R CF_META META_FENCE_COUNTER_KEY record) (\<lambda>_.
     ret next_val)))"

section \<open>Applying a command\<close>

definition execute_op ::
    "'db rocksdb \<Rightarrow> 'c sm_codec_scheme \<Rightarrow> command \<Rightarrow> u64 \<Rightarrow> lock_algorithm \<Rightarrow> ('db write_txn, apply_response) txm" where
  "execute_op R C cmd now_eff default_algorithm =
     (let T = write_store R C in
      case cmd_op cmd of
        Release namespace owner reqs del_wait \<Rightarrow>
          bnd (release_inner_in_namespace T namespace owner reqs del_wait) (\<lambda>_.
          bnd (sweep_grants_for_paths R C (scoped_freed_paths namespace reqs)) (\<lambda>granted.
          ret (granted_response granted)))
      | ReleaseAll owner del_wait \<Rightarrow>
          bnd (release_all_inner T owner del_wait) (\<lambda>_.
          bnd (dequeue R C owner) (\<lambda>_.
          bnd (sweep_grants R C) (\<lambda>granted.
          ret (granted_response granted))))
      | Renew owner ttl_ms \<Rightarrow> bnd (renew_inner T owner ttl_ms) (\<lambda>outcome. ret (RespRenew outcome))
      | ForceRelease victim \<Rightarrow>
          bnd (force_release_inner T victim) (\<lambda>_.
          bnd (dequeue R C victim) (\<lambda>_.
          bnd (sweep_grants R C) (\<lambda>granted.
          ret (granted_response granted))))
      | SetWaitEdge owner edge ttl_ms \<Rightarrow>
          bnd (set_wait_edge_inner T owner (ce_conflict_owner edge) ttl_ms (ce_metadata edge)) (\<lambda>_. ret RespUnit)
      | ClearWaitEdge owner \<Rightarrow> bnd (clear_wait_edge_inner T owner) (\<lambda>_. ret RespUnit)
      | RequestRevoke owner ttl_ms \<Rightarrow> bnd (request_revoke_inner T owner ttl_ms) (\<lambda>_. ret RespUnit)
      | GcSweep _ batch \<Rightarrow>
          bnd (gc_sweep R C now_eff batch) (\<lambda>(scanned, reclaimed, may_unblock).
          bnd (if may_unblock then sweep_grants R C else ret []) (\<lambda>granted.
          ret (RespGc scanned reclaimed granted)))
      | IncrFence \<Rightarrow> bnd (incr_fence_inner R C) (\<lambda>token. ret (RespIncrFence token))
      | Noop \<Rightarrow> ret RespUnit
      | DirectoryUpdate dir_group voters learners leader \<Rightarrow>
          bnd (apply_directory_update R (group_record_encode C) dir_group
                 \<lparr> gr_voters = voters, gr_learners = learners, gr_leader = leader \<rparr>) (\<lambda>_. ret RespUnit)
      | SetNodeDraining node_id draining \<Rightarrow>
          bnd (apply_set_draining R node_id draining) (\<lambda>_. ret RespUnit)
      | SetNamespacePolicy namespace algorithm \<Rightarrow>
          bnd (get_namespace_policy_record_inner T namespace default_algorithm) (\<lambda>(before, explicit).
          let after = lock_policy_new algorithm (lp_epoch before) in
          bnd (set_namespace_policy_inner T namespace algorithm) (\<lambda>_.
          if explicit \<and> lp_algorithm after = lp_algorithm before then ret RespUnit
          else
            bnd (clear_namespace R C namespace (\<not> explicit)) (\<lambda>cleared.
            ret (namespace_cleared_response cleared))))
      | DeleteNamespacePolicy namespace \<Rightarrow>
          bnd (get_namespace_policy_record_inner T namespace default_algorithm) (\<lambda>(_, explicit).
          bnd (delete_namespace_policy_inner T namespace) (\<lambda>_.
          if explicit
          then bnd (clear_namespace R C namespace False) (\<lambda>cleared. ret (namespace_cleared_response cleared))
          else ret RespUnit))
      | AcquireInNamespace namespace policy args \<Rightarrow>
          bnd (reject_stale_routing R C namespace args) (\<lambda>stale.
          case stale of
            Some resp \<Rightarrow> ret resp
          | None \<Rightarrow>
              bnd (if cmd_request_id cmd \<noteq> None
                   then reject_stale_policy_epoch R C namespace policy default_algorithm else ret None) (\<lambda>moved.
              case moved of
                Some resp \<Rightarrow> ret resp
              | None \<Rightarrow> execute_acquire R C namespace args policy)))"

text \<open>The \<open>matches!\<close> that decides whether the transaction is committed.\<close>

definition commits :: "apply_response \<Rightarrow> bool" where
  "commits resp \<longleftrightarrow>
     (case resp of
        RespAcquire (Conflict _ _ _) \<Rightarrow> False
      | RespAcquire (Lost _ _) \<Rightarrow> False
      | RespRenew (RenewLost _ _) \<Rightarrow> False
      | Rejected _ _ \<Rightarrow> False
      | _ \<Rightarrow> True)"

definition scan_limit_text :: "string \<Rightarrow> nat \<Rightarrow> string" where
  "scan_limit_text operation limit =
     operation @ '' on set would enumerate more than '' @ nat_str limit @ '' live members''"

text \<open>The clock and the applied position, written into whichever transaction is committed.\<close>

definition put_position ::
    "'db rocksdb \<Rightarrow> u64 \<Rightarrow> u64 \<Rightarrow> op \<Rightarrow> bytes option \<Rightarrow> ('db write_txn, unit) txm" where
  "put_position R now_eff last_now op applied_position =
     bnd (if now_eff > last_now \<and> op \<noteq> Noop then put_raw R CF_META META_LAST_NOW_KEY (u64_be now_eff) else ret ()) (\<lambda>_.
     case applied_position of
       Some applied \<Rightarrow> put_raw R CF_META META_LAST_APPLIED_KEY applied
     | None \<Rightarrow> ret ())"

text \<open>What the dedupe table answers: \<open>Some resp\<close> ends the command before it runs.\<close>

definition dedupe_answer ::
    "'db rocksdb \<Rightarrow> 'c sm_codec_scheme \<Rightarrow> request_id \<Rightarrow> u64 \<Rightarrow> ('db write_txn, apply_response option) txm" where
  "dedupe_answer R C rid fingerprint =
     bnd (get_bytes R C CF_DEDUPE (dedupe_key rid)) (\<lambda>cached.
     ret (case cached of
            None \<Rightarrow> None
          | Some cached \<Rightarrow>
              (case decode_dedupe_record C cached of
                 None \<Rightarrow> None
               | Some (cached_fp, resp) \<Rightarrow>
                   if cached_fp \<noteq> fingerprint
                   then Some (Rejected IdempotencyMismatch
                          (''request id '' @ ri_client_id rid @ '':'' @ u64_str (ri_seq rid) @
                           '' was already used by a different command''))
                   else Some resp)))"

definition apply_with_meta ::
    "'db rocksdb \<Rightarrow> 'c sm_codec_scheme \<Rightarrow> 'db \<Rightarrow> group_id \<Rightarrow> command \<Rightarrow> bytes option \<Rightarrow> lock_algorithm \<Rightarrow>
     error + (apply_response \<times> bool \<times> 'db)" where
  "apply_with_meta R C db g cmd applied_position default_algorithm =
     (case read_last_now R db g of
        Inl e \<Rightarrow> Inl e
      | Inr last_now \<Rightarrow>
          let now_eff = max (cmd_now_ms cmd) last_now;
              txn = write_txn_new db g now_eff in
          (case (case cmd_request_id cmd of
                   Some rid \<Rightarrow> map_sum id (\<lambda>fp. Some (rid, fp)) (op_fingerprint C (cmd_op cmd))
                 | None \<Rightarrow> Inr None) of
             Inl e \<Rightarrow> Inl e
           | Inr request \<Rightarrow>
               (case (case request of Some (rid, fp) \<Rightarrow> dedupe_answer R C rid fp | None \<Rightarrow> ret None) txn of
                  Inl e \<Rightarrow> Inl e
                | Inr (Some resp, _) \<Rightarrow> Inr (resp, False, db)
                | Inr (None, txn) \<Rightarrow>
                    (case (case execute_op R C cmd now_eff default_algorithm txn of
                             Inr r \<Rightarrow> Inr r
                           | Inl (SetScanLimitExceeded operation limit) \<Rightarrow>
                               Inr (Rejected ScanLimit (scan_limit_text operation limit), txn)
                           | Inl e \<Rightarrow> Inl e) of
                       Inl e \<Rightarrow> Inl e
                     | Inr (resp, txn) \<Rightarrow>
                         let final =
                               (if commits resp then
                                  bnd (case request of
                                         Some (rid, fp) \<Rightarrow>
                                           bnd (lift_res (encode_dedupe_record C fp resp)) (\<lambda>encoded.
                                           set_bytes R C CF_DEDUPE (dedupe_key rid) encoded DEDUPE_TTL_MS)
                                       | None \<Rightarrow> ret ()) (\<lambda>_.
                                  put_position R now_eff last_now (cmd_op cmd) applied_position) txn
                                else
                                  put_position R now_eff last_now (cmd_op cmd) applied_position
                                    (write_txn_new db g now_eff)) in
                         (case final of
                            Inl e \<Rightarrow> Inl e
                          | Inr (_, txn) \<Rightarrow>
                              (case commit R txn of
                                 Inl e \<Rightarrow> Inl e
                               | Inr (wrote, db') \<Rightarrow> Inr (resp, wrote, db')))))))"

definition apply_committing ::
    "'db rocksdb \<Rightarrow> 'c sm_codec_scheme \<Rightarrow> 'db \<Rightarrow> group_id \<Rightarrow> command \<Rightarrow> error + (apply_response \<times> bool \<times> 'db)" where
  "apply_committing R C db g cmd = apply_with_meta R C db g cmd None default_lock_algorithm"

definition apply_cmd ::
    "'db rocksdb \<Rightarrow> 'c sm_codec_scheme \<Rightarrow> 'db \<Rightarrow> group_id \<Rightarrow> command \<Rightarrow> error + (apply_response \<times> 'db)" where
  "apply_cmd R C db g cmd = map_sum id (\<lambda>(resp, _, db'). (resp, db')) (apply_committing R C db g cmd)"

text \<open>\<open>applied\<close> is the encoded log id.\<close>

definition apply_entry ::
    "'db rocksdb \<Rightarrow> 'c sm_codec_scheme \<Rightarrow> 'db \<Rightarrow> group_id \<Rightarrow> command \<Rightarrow> error + bytes \<Rightarrow> lock_algorithm \<Rightarrow>
     error + (apply_response \<times> 'db)" where
  "apply_entry R C db g cmd applied default_algorithm =
     (case applied of
        Inl e \<Rightarrow> Inl e
      | Inr applied \<Rightarrow>
          map_sum id (\<lambda>(resp, _, db'). (resp, db')) (apply_with_meta R C db g cmd (Some applied) default_algorithm))"

end
