(* ===== verification/Log_Store.thy ===== *)
theory Log_Store
  imports Snapshot State_Machine
begin

text \<open>
  \<open>src/src/raft/log_store.rs\<close> (one group's Raft log, vote and markers in the shared database) and the
  openraft state machine of \<open>src/src/raft/state_machine.rs\<close> (applied position, entry application,
  snapshots). openraft's log ids, votes and memberships are type parameters, its entry is the record
  the code matches on; the bincode functions of these types are a parameter. The asynchronous fsync
  barrier is not part of the model: a call is the database write it performs.
\<close>

section \<open>openraft data\<close>

datatype 'm payload = Blank | Normal command | Membership 'm

record ('l, 'm) entry =
  en_log_id :: 'l
  en_payload :: "'m payload"

record ('l, 's) snapshot_meta =
  sm_last_log_id :: "'l option"
  sm_last_membership :: 's
  sm_snapshot_id :: string

record ('l, 'v, 'm, 's) raft_codec = sm_codec +
  log_index :: "'l \<Rightarrow> u64"
  log_id_encode :: "'l \<Rightarrow> error + bytes"
  log_id_decode :: "bytes \<Rightarrow> error + 'l"
  vote_encode :: "'v \<Rightarrow> error + bytes"
  vote_decode :: "bytes \<Rightarrow> error + 'v"
  entry_rec_encode :: "('l, 'm) entry \<Rightarrow> error + bytes"
  entry_rec_decode :: "bytes \<Rightarrow> error + ('l, 'm) entry"
  membership_encode :: "'s \<Rightarrow> error + bytes"
  membership_decode :: "bytes \<Rightarrow> error + 's"
  membership_default :: 's
  stored_membership :: "'l \<Rightarrow> 'm \<Rightarrow> 's"
  snapshot_meta_encode :: "('l, 's) snapshot_meta \<Rightarrow> error + bytes"
  snapshot_meta_decode :: "bytes \<Rightarrow> error + ('l, 's) snapshot_meta"
  frames :: frame_codec

section \<open>Keys\<close>

definition log_key :: "group_id \<Rightarrow> u64 \<Rightarrow> bytes" where
  "log_key g index = group_key g (u64_be index)"

definition log_range :: "group_id \<Rightarrow> bytes \<times> bytes" where
  "log_range g =
     (let (start, upper) = group_range g in
      (start, case upper of Some u \<Rightarrow> u | None \<Rightarrow> replicate 16 (CHR 0xFF)))"

section \<open>Group metadata\<close>

definition get_meta :: "'db rocksdb \<Rightarrow> 'db \<Rightarrow> group_id \<Rightarrow> (bytes \<Rightarrow> error + 'a) \<Rightarrow> bytes \<Rightarrow> error + 'a option" where
  "get_meta R db g dec key =
     (if \<not> cf_handle R db CF_META then Inl (MissingColumnFamily CF_META)
      else
        (case get_cf R db CF_META (group_key g key) of
           Inl e \<Rightarrow> Inl e
         | Inr None \<Rightarrow> Inr None
         | Inr (Some b) \<Rightarrow> map_sum id Some (dec b)))"

text \<open>\<open>put_cf\<close> of a single key is a batch with that put.\<close>

definition put_meta :: "'db rocksdb \<Rightarrow> 'db \<Rightarrow> group_id \<Rightarrow> ('a \<Rightarrow> error + bytes) \<Rightarrow> bytes \<Rightarrow> 'a \<Rightarrow> error + 'db" where
  "put_meta R db g enc key value =
     (if \<not> cf_handle R db CF_META then Inl (MissingColumnFamily CF_META)
      else
        (case enc value of
           Inl e \<Rightarrow> Inl e
         | Inr b \<Rightarrow> write_opt R db [PutCf CF_META (group_key g key) b]))"

section \<open>The log\<close>

definition last_log_id_on_disk ::
    "'db rocksdb \<Rightarrow> ('l, 'v, 'm, 's, 'c) raft_codec_scheme \<Rightarrow> 'db \<Rightarrow> group_id \<Rightarrow> error + 'l option" where
  "last_log_id_on_disk R C db g =
     (if \<not> cf_handle R db CF_RAFT_LOG then Inl (MissingColumnFamily CF_RAFT_LOG)
      else
        let (start, upper) = log_range g in
        (case seek_for_prev_cf R db CF_RAFT_LOG start upper of
           (None, Some e) \<Rightarrow> Inl e
         | (None, None) \<Rightarrow> Inr None
         | (Some (_, value), _) \<Rightarrow> map_sum id (\<lambda>e. Some (en_log_id e)) (entry_rec_decode C value)))"

datatype bound = Included u64 | Excluded u64 | Unbounded

fun decode_entries ::
    "('l, 'v, 'm, 's, 'c) raft_codec_scheme \<Rightarrow> error option \<Rightarrow> (bytes \<times> bytes) list \<Rightarrow> ('l, 'm) entry list \<Rightarrow>
     error + ('l, 'm) entry list" where
  "decode_entries C status [] entries = (case status of Some e \<Rightarrow> Inl e | None \<Rightarrow> Inr entries)"
| "decode_entries C status ((_, value) # it) entries =
     (case entry_rec_decode C value of
        Inl e \<Rightarrow> Inl e
      | Inr e \<Rightarrow> decode_entries C status it (entries @ [e]))"

definition try_get_log_entries ::
    "'db rocksdb \<Rightarrow> ('l, 'v, 'm, 's, 'c) raft_codec_scheme \<Rightarrow> 'db \<Rightarrow> group_id \<Rightarrow> bound \<Rightarrow> bound \<Rightarrow>
     error + ('l, 'm) entry list" where
  "try_get_log_entries R C db g start_bound end_bound =
     (let start_idx = (case start_bound of Included i \<Rightarrow> i | Excluded i \<Rightarrow> sat_add i 1 | Unbounded \<Rightarrow> 0);
          end_idx = (case end_bound of Included i \<Rightarrow> sat_add i 1 | Excluded i \<Rightarrow> i | Unbounded \<Rightarrow> - 1) in
      if end_idx \<le> start_idx then Inr []
      else if \<not> cf_handle R db CF_RAFT_LOG then Inl (MissingColumnFamily CF_RAFT_LOG)
      else
        let lower = log_key g start_idx;
            upper = (if end_idx = - 1 then snd (log_range g) else log_key g end_idx);
            (it, status) = iter_cf R db CF_RAFT_LOG (Some lower) (Some upper) in
        decode_entries C status it [])"

definition read_vote ::
    "'db rocksdb \<Rightarrow> ('l, 'v, 'm, 's, 'c) raft_codec_scheme \<Rightarrow> 'db \<Rightarrow> group_id \<Rightarrow> error + 'v option" where
  "read_vote R C db g = get_meta R db g (vote_decode C) META_VOTE_KEY"

definition get_log_state ::
    "'db rocksdb \<Rightarrow> ('l, 'v, 'm, 's, 'c) raft_codec_scheme \<Rightarrow> 'db \<Rightarrow> group_id \<Rightarrow> error + ('l option \<times> 'l option)" where
  "get_log_state R C db g =
     (case get_meta R db g (log_id_decode C) META_PURGED_KEY of
        Inl e \<Rightarrow> Inl e
      | Inr last_purged \<Rightarrow>
          (case last_log_id_on_disk R C db g of
             Inl e \<Rightarrow> Inl e
           | Inr on_disk \<Rightarrow>
               Inr (last_purged, case on_disk of Some l \<Rightarrow> Some l | None \<Rightarrow> last_purged)))"

definition save_vote ::
    "'db rocksdb \<Rightarrow> ('l, 'v, 'm, 's, 'c) raft_codec_scheme \<Rightarrow> 'db \<Rightarrow> group_id \<Rightarrow> 'v \<Rightarrow> error + 'db" where
  "save_vote R C db g vote = put_meta R db g (vote_encode C) META_VOTE_KEY vote"

definition save_committed ::
    "'db rocksdb \<Rightarrow> ('l, 'v, 'm, 's, 'c) raft_codec_scheme \<Rightarrow> 'db \<Rightarrow> group_id \<Rightarrow> 'l option \<Rightarrow> error + 'db" where
  "save_committed R C db g committed =
     (case committed of
        Some c \<Rightarrow> put_meta R db g (log_id_encode C) META_COMMITTED_KEY c
      | None \<Rightarrow> Inr db)"

definition read_committed ::
    "'db rocksdb \<Rightarrow> ('l, 'v, 'm, 's, 'c) raft_codec_scheme \<Rightarrow> 'db \<Rightarrow> group_id \<Rightarrow> error + 'l option" where
  "read_committed R C db g = get_meta R db g (log_id_decode C) META_COMMITTED_KEY"

fun append_batch ::
    "('l, 'v, 'm, 's, 'c) raft_codec_scheme \<Rightarrow> group_id \<Rightarrow> ('l, 'm) entry list \<Rightarrow> batch_op list \<Rightarrow> error + batch_op list" where
  "append_batch C g [] batch = Inr batch"
| "append_batch C g (e # es) batch =
     (case entry_rec_encode C e of
        Inl err \<Rightarrow> Inl err
      | Inr b \<Rightarrow> append_batch C g es (batch @ [PutCf CF_RAFT_LOG (log_key g (log_index C (en_log_id e))) b]))"

definition append_entries ::
    "'db rocksdb \<Rightarrow> ('l, 'v, 'm, 's, 'c) raft_codec_scheme \<Rightarrow> 'db \<Rightarrow> group_id \<Rightarrow> ('l, 'm) entry list \<Rightarrow> error + 'db" where
  "append_entries R C db g entries =
     (if \<not> cf_handle R db CF_RAFT_LOG then Inl (MissingColumnFamily CF_RAFT_LOG)
      else
        (case append_batch C g entries [] of
           Inl e \<Rightarrow> Inl e
         | Inr batch \<Rightarrow> write_opt R db batch))"

definition truncate_after ::
    "'db rocksdb \<Rightarrow> ('l, 'v, 'm, 's, 'c) raft_codec_scheme \<Rightarrow> 'db \<Rightarrow> group_id \<Rightarrow> 'l option \<Rightarrow> error + 'db" where
  "truncate_after R C db g last_log_id =
     (let from_index = (case last_log_id of Some l \<Rightarrow> sat_add (log_index C l) 1 | None \<Rightarrow> 0) in
      if \<not> cf_handle R db CF_RAFT_LOG then Inl (MissingColumnFamily CF_RAFT_LOG)
      else delete_range_cf R db CF_RAFT_LOG (log_key g from_index) (snd (log_range g)))"

definition purge ::
    "'db rocksdb \<Rightarrow> ('l, 'v, 'm, 's, 'c) raft_codec_scheme \<Rightarrow> 'db \<Rightarrow> group_id \<Rightarrow> 'l \<Rightarrow> error + 'db" where
  "purge R C db g log_id =
     (case put_meta R db g (log_id_encode C) META_PURGED_KEY log_id of
        Inl e \<Rightarrow> Inl e
      | Inr db1 \<Rightarrow>
          if \<not> cf_handle R db1 CF_RAFT_LOG then Inl (MissingColumnFamily CF_RAFT_LOG)
          else
            let start = log_key g 0; upper = log_key g (sat_add (log_index C log_id) 1) in
            (case delete_range_cf R db1 CF_RAFT_LOG start upper of
               Inl e \<Rightarrow> Inl e
             | Inr db2 \<Rightarrow>
                 Inr (case delete_file_in_range_cf R db2 CF_RAFT_LOG start upper of
                        Inl _ \<Rightarrow> db2
                      | Inr db3 \<Rightarrow> db3)))"

section \<open>The group state machine\<close>

record group_state_machine =
  gs_group :: group_id
  gs_default_algorithm :: lock_algorithm
  gs_snapshot_max_bytes :: u64

definition put_applied ::
    "'db rocksdb \<Rightarrow> ('l, 'v, 'm, 's, 'c) raft_codec_scheme \<Rightarrow> group_state_machine \<Rightarrow> 'db \<Rightarrow> 'l \<Rightarrow> 's option \<Rightarrow> error + 'db" where
  "put_applied R C gs db log_id membership =
     (if \<not> cf_handle R db CF_META then Inl (MissingColumnFamily CF_META)
      else
        (case log_id_encode C log_id of
           Inl e \<Rightarrow> Inl e
         | Inr l \<Rightarrow>
             let batch = [PutCf CF_META (group_key (gs_group gs) META_LAST_APPLIED_KEY) l] in
             (case (case membership of
                      Some m \<Rightarrow>
                        map_sum id (\<lambda>b. batch @ [PutCf CF_META (group_key (gs_group gs) META_MEMBERSHIP_KEY) b])
                          (membership_encode C m)
                    | None \<Rightarrow> Inr batch) of
                Inl e \<Rightarrow> Inl e
              | Inr batch \<Rightarrow> write_opt R db batch)))"

text \<open>Both readers of the applied state, on the database and on a snapshot of it.\<close>

definition applied_state ::
    "'db rocksdb \<Rightarrow> ('l, 'v, 'm, 's, 'c) raft_codec_scheme \<Rightarrow> group_state_machine \<Rightarrow> 'db \<Rightarrow> error + ('l option \<times> 's)" where
  "applied_state R C gs db =
     (case get_meta R db (gs_group gs) (log_id_decode C) META_LAST_APPLIED_KEY of
        Inl e \<Rightarrow> Inl e
      | Inr applied \<Rightarrow>
          (case get_meta R db (gs_group gs) (membership_decode C) META_MEMBERSHIP_KEY of
             Inl e \<Rightarrow> Inl e
           | Inr membership \<Rightarrow>
               Inr (applied, case membership of Some m \<Rightarrow> m | None \<Rightarrow> membership_default C)))"

fun apply_entries ::
    "'db rocksdb \<Rightarrow> ('l, 'v, 'm, 's, 'c) raft_codec_scheme \<Rightarrow> group_state_machine \<Rightarrow> 'db \<Rightarrow> ('l, 'm) entry list \<Rightarrow>
     apply_response list \<Rightarrow> error + (apply_response list \<times> 'db)" where
  "apply_entries R C gs db [] responses = Inr (responses, db)"
| "apply_entries R C gs db (entry # entries) responses =
     (let log_id = en_log_id entry in
      case (case en_payload entry of
              Blank \<Rightarrow> map_sum id (\<lambda>db'. (RespUnit, db')) (put_applied R C gs db log_id None)
            | Normal cmd \<Rightarrow>
                apply_entry R C db (gs_group gs) cmd (log_id_encode C log_id) (gs_default_algorithm gs)
            | Membership m \<Rightarrow>
                map_sum id (\<lambda>db'. (RespUnit, db'))
                  (put_applied R C gs db log_id (Some (stored_membership C log_id m)))) of
        Inl e \<Rightarrow> Inl e
      | Inr (response, db') \<Rightarrow> apply_entries R C gs db' entries (responses @ [response]))"

definition install_snapshot ::
    "'db rocksdb \<Rightarrow> ('l, 'v, 'm, 's, 'c) raft_codec_scheme \<Rightarrow> group_state_machine \<Rightarrow> 'db \<Rightarrow> ('l, 's) snapshot_meta \<Rightarrow> bytes \<Rightarrow>
     error + 'db" where
  "install_snapshot R C gs db meta img =
     (let g = gs_group gs in
      case install_group_image R (frames C) db g img [] of
        Inl e \<Rightarrow> Inl e
      | Inr batch \<Rightarrow>
          if \<not> cf_handle R db CF_META then Inl (MissingColumnFamily CF_META)
          else
            (case (case sm_last_log_id meta of
                     Some l \<Rightarrow>
                       map_sum id (\<lambda>b. batch @ [PutCf CF_META (group_key g META_LAST_APPLIED_KEY) b]) (log_id_encode C l)
                   | None \<Rightarrow> Inr batch) of
               Inl e \<Rightarrow> Inl e
             | Inr batch \<Rightarrow>
                 (case membership_encode C (sm_last_membership meta) of
                    Inl e \<Rightarrow> Inl e
                  | Inr m \<Rightarrow>
                      (case snapshot_meta_encode C meta of
                         Inl e \<Rightarrow> Inl e
                       | Inr mt \<Rightarrow>
                           write_opt R db
                             (batch @ [PutCf CF_META (group_key g META_MEMBERSHIP_KEY) m,
                                       PutCf CF_META (group_key g META_SNAPSHOT_META_KEY) mt,
                                       PutCf CF_META (group_key g META_SNAPSHOT_DATA_KEY) img])))))"

definition get_current_snapshot ::
    "'db rocksdb \<Rightarrow> ('l, 'v, 'm, 's, 'c) raft_codec_scheme \<Rightarrow> group_state_machine \<Rightarrow> 'db \<Rightarrow>
     error + (('l, 's) snapshot_meta \<times> bytes) option" where
  "get_current_snapshot R C gs db =
     (case get_meta R db (gs_group gs) Inr META_SNAPSHOT_META_KEY of
        Inl e \<Rightarrow> Inl e
      | Inr None \<Rightarrow> Inr None
      | Inr (Some meta_bytes) \<Rightarrow>
          (case get_meta R db (gs_group gs) Inr META_SNAPSHOT_DATA_KEY of
             Inl e \<Rightarrow> Inl e
           | Inr None \<Rightarrow> Inr None
           | Inr (Some data) \<Rightarrow> map_sum id (\<lambda>meta. Some (meta, data)) (snapshot_meta_decode C meta_bytes)))"

text \<open>\<open>now\<close> is the wall clock read for the snapshot's name.\<close>

definition build_snapshot ::
    "'db rocksdb \<Rightarrow> ('l, 'v, 'm, 's, 'c) raft_codec_scheme \<Rightarrow> group_state_machine \<Rightarrow> 'db \<Rightarrow> u64 \<Rightarrow>
     error + (('l, 's) snapshot_meta \<times> bytes \<times> 'db)" where
  "build_snapshot R C gs db now =
     (let g = gs_group gs; db_snapshot = db in
      case applied_state R C gs db_snapshot of
        Inl e \<Rightarrow> Inl e
      | Inr (last_applied, membership) \<Rightarrow>
          (case build_group_image_from_snapshot_limited R (frames C) db db_snapshot g
                  (unat (gs_snapshot_max_bytes gs)) of
             Inl e \<Rightarrow> Inl e
           | Inr img \<Rightarrow>
               let snapshot_id = ''g'' @ nat_str (unat g) @ ''-'' @
                     (case last_applied of Some l \<Rightarrow> u64_str (log_index C l) | None \<Rightarrow> ''0'') @ ''-'' @ u64_str now;
                   meta = \<lparr> sm_last_log_id = last_applied, sm_last_membership = membership, sm_snapshot_id = snapshot_id \<rparr> in
               if \<not> cf_handle R db CF_META then Inl (MissingColumnFamily CF_META)
               else
                 (case snapshot_meta_encode C meta of
                    Inl e \<Rightarrow> Inl e
                  | Inr mt \<Rightarrow>
                      (case write_opt R db
                              [PutCf CF_META (group_key g META_SNAPSHOT_META_KEY) mt,
                               PutCf CF_META (group_key g META_SNAPSHOT_DATA_KEY) img] of
                         Inl e \<Rightarrow> Inl e
                       | Inr db' \<Rightarrow> Inr (meta, img, db')))))"

end
