(* ===== verification/Mem_Store.thy ===== *)
theory Mem_Store
  imports Lock_Safety Log_Store "HOL-Library.Code_Target_Nat"
begin

text \<open>
  An in-memory database and a byte codec that satisfy what the development assumes of RocksDB and
  bincode, so that the theorems can be applied to concrete runs of the code.
\<close>

text \<open>A database is the list of its rows; a later write of a row replaces the earlier one.\<close>

type_synonym mem_db = "((cf \<times> bytes) \<times> bytes) list"

definition mem_rows :: "mem_db \<Rightarrow> cf \<Rightarrow> (bytes \<times> bytes) list" where
  "mem_rows d cf = map (\<lambda>((_, k), v). (k, v)) (filter (\<lambda>((cf', _), _). cf' = cf) d)"

definition mem_cts :: "mem_db \<Rightarrow> cf \<Rightarrow> (bytes, bytes) omap" where
  "mem_cts d cf = om_of_list (mem_rows d cf)"

fun mem_write :: "batch_op \<Rightarrow> mem_db \<Rightarrow> mem_db" where
  "mem_write (PutCf cf k v) d = ((cf, k), v) # filter (\<lambda>(r, _). r \<noteq> (cf, k)) d"
| "mem_write (DeleteCf cf k) d = filter (\<lambda>(r, _). r \<noteq> (cf, k)) d"
| "mem_write (DeleteRangeCf cf s e) d = filter (\<lambda>((cf', k), _). \<not> (cf' = cf \<and> s \<le> k \<and> k < e)) d"

definition mem_handle :: "mem_db \<Rightarrow> cf \<Rightarrow> bool" where
  "mem_handle d cf \<longleftrightarrow> cf \<in> set ALL_CFS"

definition mem_get :: "mem_db \<Rightarrow> cf \<Rightarrow> bytes \<Rightarrow> error + bytes option" where
  "mem_get d cf k = Inr (map_of d (cf, k))"

definition mem_iter :: "mem_db \<Rightarrow> cf \<Rightarrow> bytes option \<Rightarrow> bytes option \<Rightarrow> (bytes \<times> bytes) list \<times> error option" where
  "mem_iter d cf lo up = (range_entries (mem_cts d cf) lo up, None)"

definition mem_seek :: "mem_db \<Rightarrow> cf \<Rightarrow> bytes \<Rightarrow> bytes \<Rightarrow> (bytes \<times> bytes) option \<times> error option" where
  "mem_seek d cf lo hi =
     (let es = range_entries (mem_cts d cf) (Some lo) (Some (key_successor hi)) in
      (if es = [] then None else Some (last es), None))"

definition mem_commit :: "mem_db \<Rightarrow> batch_op list \<Rightarrow> error + mem_db" where
  "mem_commit d ops = Inr (fold mem_write ops d)"

definition mem_delete_range :: "mem_db \<Rightarrow> cf \<Rightarrow> bytes \<Rightarrow> bytes \<Rightarrow> error + mem_db" where
  "mem_delete_range d cf s e = Inr (mem_write (DeleteRangeCf cf s e) d)"

definition mem_drop_files :: "mem_db \<Rightarrow> cf \<Rightarrow> bytes \<Rightarrow> bytes \<Rightarrow> error + mem_db" where
  "mem_drop_files d cf s e = Inr d"

definition mem_compact :: "mem_db \<Rightarrow> cf \<Rightarrow> bytes \<Rightarrow> bytes \<Rightarrow> mem_db" where
  "mem_compact d cf s e = d"

definition mem_rocks :: "mem_db rocksdb" where
  "mem_rocks =
     \<lparr> cf_handle = mem_handle, get_cf = mem_get, iter_cf = mem_iter, seek_for_prev_cf = mem_seek,
       write_opt = mem_commit, delete_range_cf = mem_delete_range,
       delete_file_in_range_cf = mem_drop_files, compact_range_cf = mem_compact \<rparr>"

lemmas mem_rocks_defs = mem_rocks_def mem_handle_def mem_get_def mem_iter_def mem_seek_def mem_commit_def
  mem_delete_range_def mem_drop_files_def mem_compact_def

definition mem_empty :: mem_db where
  "mem_empty = []"

lemma mem_cts_lookup [simp]: "om_lookup (mem_cts d cf) k = map_of d (cf, k)"
  by (induction d) (auto simp: mem_cts_def mem_rows_def)

lemma mem_cts_empty [simp]: "mem_cts mem_empty cf = om_empty"
  by (rule om_eqI) (simp add: mem_empty_def)

lemma mem_write_cts: "mem_cts (mem_write op d) = apply_batch_op op (mem_cts d)"
proof (intro ext om_eqI)
  fix cf k
  show "om_lookup (mem_cts (mem_write op d) cf) k = om_lookup (apply_batch_op op (mem_cts d) cf) k"
  proof (cases op)
    case (PutCf c k' v)
    then show ?thesis by (auto simp: map_of_filter_key)
  next
    case (DeleteCf c k')
    then show ?thesis by (auto simp: map_of_filter_key)
  next
    case (DeleteRangeCf c s e)
    then show ?thesis
      using map_of_filter_key[of "\<lambda>(cf', k). \<not> (cf' = c \<and> s \<le> k \<and> k < e)" d "(cf, k)"]
      by (auto simp: case_prod_unfold)
  qed
qed

lemma mem_writes_cts: "mem_cts (fold mem_write ops d) = apply_batch ops (mem_cts d)"
  by (induction ops arbitrary: d) (auto simp: apply_batch_def mem_write_cts)

fun mem_encode :: "stored_record \<Rightarrow> bytes" where
  "mem_encode (Str v e) = CHR ''S'' # u64_be e @ v"
| "mem_encode (Counter n) = CHR ''C'' # int_str n"
| "mem_encode (Bytes v e) = CHR ''B'' # u64_be e @ v"

definition mem_decode :: "bytes \<Rightarrow> error + stored_record" where
  "mem_decode b =
     (case b of
        [] \<Rightarrow> Inl DecodeError
      | tag # r \<Rightarrow>
          if tag = CHR ''S'' then Inr (Str (drop 8 r) (u64_from_be (take 8 r)))
          else if tag = CHR ''B'' then Inr (Bytes (drop 8 r) (u64_from_be (take 8 r)))
          else if tag = CHR ''C'' then (case parse_i64 r of Some n \<Rightarrow> Inr (Counter n) | None \<Rightarrow> Inl DecodeError)
          else Inl DecodeError)"

text \<open>A counter is an \<open>i64\<close>; nothing else is refused.\<close>

definition mem_codec :: codec where
  "mem_codec =
     \<lparr> bincode_encode = (\<lambda>rec. case rec of
         Counter n \<Rightarrow> if - (2 ^ 63) \<le> n \<and> n < 2 ^ 63 then Inr (mem_encode rec) else Inl EncodeError
       | _ \<Rightarrow> Inr (mem_encode rec)),
       bincode_decode = mem_decode \<rparr>"

lemma mem_rocks_ok: "rocksdb_ok mem_rocks mem_cts"
proof -
  have "mem_cts (fold mem_write ops d) = apply_batch ops (mem_cts d)"
    "mem_cts (mem_write (DeleteRangeCf cf s e) d) = apply_batch_op (DeleteRangeCf cf s e) (mem_cts d)" for ops d cf s e
    by (rule mem_writes_cts mem_write_cts)+
  then show ?thesis
    by (auto simp: rocksdb_ok_def mem_rocks_defs Let_def simp del: mem_write.simps apply_batch_op.simps split: option.splits)
      (metis append_butlast_last_id)
qed

lemma mem_decode_encode:
  "(\<forall>n. rec = Counter n \<longrightarrow> - (2 ^ 63) \<le> n \<and> n < 2 ^ 63) \<Longrightarrow> mem_decode (mem_encode rec) = Inr rec"
  by (cases rec) (auto simp: mem_decode_def parse_i64_int_str)

lemma mem_codec_ok: "codec_ok mem_codec"
  unfolding codec_ok_def
proof (intro allI impI)
  fix rec b assume "bincode_encode mem_codec rec = Inr b"
  then have "b = mem_encode rec" and "\<forall>n. rec = Counter n \<longrightarrow> - (2 ^ 63) \<le> n \<and> n < 2 ^ 63"
    by (auto simp: mem_codec_def split: stored_record.splits if_splits)
  with mem_decode_encode show "bincode_decode mem_codec b = Inr rec" by (simp add: mem_codec_def)
qed

section \<open>Concrete runs\<close>

text \<open>
  Code equations for running programs by rewriting. A program is unfolded only once it is given its
  state, bytes of an integer are computed only once the integer is known, and a map keeps its updates:
  a run then does not expand the branches it does not take.
\<close>

lemma u32_be_code [code]: "u32_be w = (if unat w < 4294967296 then be_bytes 4 (unat w) else [])"
  using unat_u32_bound[of w] by (simp add: u32_be_def)

lemma u64_be_code [code]: "u64_be w = (if unat w < 18446744073709551616 then be_bytes 8 (unat w) else [])"
  using unat_u64_bound[of w] by (simp add: u64_be_def)

declare fun_upd_apply [code]

lemmas program_code [code] =
  get_bytes_def[THEN fun_cong] write_get_str_def[THEN fun_cong] write_pexpire_str_def[THEN fun_cong]
  write_del_def[THEN fun_cong] write_srem_def[THEN fun_cong] write_sismember_def[THEN fun_cong]
  owner_alive_def[THEN fun_cong] get_namespace_policy_record_inner_def[THEN fun_cong]
  get_namespace_policy_inner_def[THEN fun_cong] set_namespace_policy_inner_def[THEN fun_cong]
  delete_namespace_policy_inner_def[THEN fun_cong] hold_algorithm_def[THEN fun_cong]
  set_hold_algorithm_def[THEN fun_cong] del_hold_algorithm_def[THEN fun_cong] semaphore_capacity_def[THEN fun_cong]
  set_semaphore_capacity_def[THEN fun_cong] prune_dead_read_owners_def[THEN fun_cong]
  prune_dead_semaphore_owners_def[THEN fun_cong] add_descendant_indexes_def[THEN fun_cong]
  remove_descendant_indexes_def[THEN fun_cong] get_live_write_owner_def[THEN fun_cong]
  find_descendant_write_conflict_def[THEN fun_cong] find_descendant_read_conflict_def[THEN fun_cong]
  apply_release_def[THEN fun_cong] apply_releases_def[THEN fun_cong] release_inner_in_namespace_def[THEN fun_cong]
  release_inner_def[THEN fun_cong] release_held_member_def[THEN fun_cong] release_page_def[THEN fun_cong]
  release_owner_wide_def[THEN fun_cong] release_all_inner_def[THEN fun_cong] force_release_inner_def[THEN fun_cong]
  validate_held_def[THEN fun_cong] validate_new_ancestors_def[THEN fun_cong] validate_new_write_def[THEN fun_cong]
  validate_new_semaphore_def[THEN fun_cong] validate_new_def[THEN fun_cong] validate_acquire_def[THEN fun_cong]
  refresh_portfolio_def[THEN fun_cong] apply_write_acquire_def[THEN fun_cong] apply_acquire_def[THEN fun_cong]
  acquire_inner_in_namespace_def[THEN fun_cong] acquire_inner_with_policy_def[THEN fun_cong]
  acquire_inner_def[THEN fun_cong] renew_inner_def[THEN fun_cong] request_revoke_inner_def[THEN fun_cong]
  assert_fencing_inner_def[THEN fun_cong] read_wait_edge_def[THEN fun_cong] is_blocking_inner_def[THEN fun_cong]
  set_wait_edge_inner_def[THEN fun_cong] clear_wait_edge_inner_def[THEN fun_cong]
  is_owner_alive_inner_def[THEN fun_cong] inspect_path_inner_def[THEN fun_cong]
  list_owner_locks_inner_def[THEN fun_cong] apply_directory_update_def[THEN fun_cong]
  apply_set_draining_def[THEN fun_cong] next_seq_def[THEN fun_cong] set_queue_count_def[THEN fun_cong]
  queue_count_def[THEN fun_cong] reserve_queue_units_def[THEN fun_cong] release_queue_units_def[THEN fun_cong]
  owner_seq_def[THEN fun_cong] read_entry_def[THEN fun_cong] write_path_indexes_def[THEN fun_cong]
  delete_path_indexes_def[THEN fun_cong] expire_entry_def[THEN fun_cong] enqueue_def[THEN fun_cong]
  dequeue_def[THEN fun_cong] queue_clear_namespace_def[THEN fun_cong] owner_holds_or_covers_def[THEN fun_cong]
  blocked_by_earlier_def[THEN fun_cong] grant_sweep_def[THEN fun_cong] grant_sweep_for_paths_def[THEN fun_cong]
  sweep_grants_def[THEN fun_cong] sweep_grants_for_paths_def[THEN fun_cong] read_fence_counter_def[THEN fun_cong]
  mint_fence_if_needed_def[THEN fun_cong] execute_acquire_def[THEN fun_cong] clear_namespace_def[THEN fun_cong]
  reject_stale_policy_epoch_def[THEN fun_cong] gc_reclaim_def[THEN fun_cong] gc_entry_def[THEN fun_cong]
  gc_sweep_def[THEN fun_cong] incr_fence_inner_def[THEN fun_cong] execute_op_def[THEN fun_cong]
  put_position_def[THEN fun_cong] dedupe_answer_def[THEN fun_cong]

definition mem_txn :: "u64 \<Rightarrow> mem_db write_txn" where
  "mem_txn now = write_txn_new mem_empty 0 now"

definition write_args :: "string \<Rightarrow> string \<Rightarrow> i64 \<Rightarrow> acquire_args" where
  "write_args owner path token =
     \<lparr> aa_owner_id = owner, aa_ttl_ms = 5000,
       aa_requests = [\<lparr> lr_path = path, lr_mode = Write, lr_state = New, lr_permits = 0 \<rparr>],
       aa_fencing_token = token, aa_release_requests = [], aa_queue_ttl_ms = 0 \<rparr>"

definition run_outcome :: "error + ('a \<times> 't) \<Rightarrow> 'a option" where
  "run_outcome r = (case r of Inl _ \<Rightarrow> None | Inr (a, _) \<Rightarrow> Some a)"

lemma run_outcomeE: "run_outcome r = Some a \<Longrightarrow> (\<And>t. r = Inr (a, t) \<Longrightarrow> P) \<Longrightarrow> P"
  by (auto simp: run_outcome_def split: sum.splits)

end
