(* ===== verification/Engine_Frame.thy ===== *)
theory Engine_Frame
  imports Lock_Safety
begin

text \<open>
  What the lock engine leaves alone. The engine writes under its own keys only (\<open>engine_key\<close>), so a
  relation between transaction states that those writes respect is respected by every operation of
  the engine: the locale \<open>store_frame\<close>. Interpreted on the write transaction it says that the wait
  queue, the dedupe records, the Raft log and the group's own counters are untouched.
\<close>

section \<open>Programs that stay within a relation\<close>

definition keeps :: "('t \<Rightarrow> 't \<Rightarrow> bool) \<Rightarrow> ('t, 'a) txm \<Rightarrow> bool" where
  "keeps K m \<longleftrightarrow> (\<forall>t a t'. m t = Inr (a, t') \<longrightarrow> K t t')"

lemma keepsD: "keeps K m \<Longrightarrow> m t = Inr (a, t') \<Longrightarrow> K t t'"
  by (simp add: keeps_def)

named_theorems keeps_rules

definition engine_cfs :: "cf set" where
  "engine_cfs = {CF_WRITE_LOCKS, CF_READ_LOCKS, CF_SEMAPHORE, CF_FENCES, CF_DESC_WRITE, CF_DESC_READ, CF_OWNER_ALIVE,
     CF_OWNER_HOLDS, CF_WAIT_EDGES, CF_NAMESPACE_SETTINGS}"

definition engine_key :: "cf \<Rightarrow> bytes \<Rightarrow> bool" where
  "engine_key cf k \<longleftrightarrow> cf \<in> engine_cfs \<or> cf = CF_META \<and> lock_meta_key k"

lemma engine_key_cf [simp]:
  "engine_key CF_WRITE_LOCKS k" "engine_key CF_READ_LOCKS k" "engine_key CF_SEMAPHORE k" "engine_key CF_FENCES k"
  "engine_key CF_DESC_WRITE k" "engine_key CF_DESC_READ k" "engine_key CF_OWNER_ALIVE k" "engine_key CF_OWNER_HOLDS k"
  "engine_key CF_WAIT_EDGES k" "engine_key CF_NAMESPACE_SETTINGS k"
  "engine_key CF_META (hold_algorithm_key o' ms q)" "engine_key CF_META (semaphore_permits_key q)"
  by (simp_all add: engine_key_def engine_cfs_def lock_meta_key_def hold_algorithm_key_def semaphore_permits_key_def)

locale store_frame =
  fixes T :: "'t store_txn" and K :: "'t \<Rightarrow> 't \<Rightarrow> bool"
  assumes K_refl: "K t t" and K_trans: "K t1 t2 \<Longrightarrow> K t2 t3 \<Longrightarrow> K t1 t3"
    and get_str_K: "keeps K (get_str T cf k)"
    and smembers_limited_K: "keeps K (smembers_limited T cf k n)"
    and smembers_page_K: "keeps K (smembers_page T cf k c n)"
    and sismember_K: "keeps K (sismember T cf k m)"
    and has_live_member_K: "keeps K (has_live_member T cf k)"
    and set_str_K: "engine_key cf k \<Longrightarrow> keeps K (set_str T cf k v ttl)"
    and pexpire_str_K: "engine_key cf k \<Longrightarrow> keeps K (pexpire_str T cf k ttl)"
    and del_K: "engine_key cf k \<Longrightarrow> keeps K (del T cf k)"
    and sadd_K: "engine_key cf (member_key k m) \<Longrightarrow> keeps K (sadd T cf k m ttl)"
    and srem_K: "engine_key cf (member_key k m) \<Longrightarrow> keeps K (srem T cf k m)"
begin

declare get_str_K [keeps_rules] smembers_limited_K [keeps_rules] smembers_page_K [keeps_rules]
  sismember_K [keeps_rules] has_live_member_K [keeps_rules] set_str_K [keeps_rules] pexpire_str_K [keeps_rules]
  del_K [keeps_rules] sadd_K [keeps_rules] srem_K [keeps_rules]

lemma keeps_ret [keeps_rules]: "keeps K (ret a)"
  by (simp add: keeps_def K_refl)

lemma keeps_fail [keeps_rules]: "keeps K (fail e)"
  by (simp add: keeps_def fail_def)

lemma keeps_lift [keeps_rules]: "keeps K (lift_res r)"
  by (auto simp: keeps_def lift_res_def K_refl split: sum.splits)

lemma keeps_bnd [keeps_rules]: "keeps K m \<Longrightarrow> (\<And>a. keeps K (f a)) \<Longrightarrow> keeps K (bnd m f)"
  unfolding keeps_def bnd_Inr_iff using K_trans by metis

lemma keeps_if [keeps_rules]: "(b \<Longrightarrow> keeps K m) \<Longrightarrow> (\<not> b \<Longrightarrow> keeps K m') \<Longrightarrow> keeps K (if b then m else m')"
  by simp

lemma keeps_option [keeps_rules]:
  "keeps K m \<Longrightarrow> (\<And>x. keeps K (f x)) \<Longrightarrow> keeps K (case v of None \<Rightarrow> m | Some x \<Rightarrow> f x)"
  by (cases v) simp_all

lemma keeps_pair [keeps_rules]: "(\<And>a b. keeps K (f a b)) \<Longrightarrow> keeps K (case p of (a, b) \<Rightarrow> f a b)"
  by (cases p) simp

lemma keeps_for_each [keeps_rules]: "(\<And>x. keeps K (f x)) \<Longrightarrow> keeps K (for_each f xs)"
  by (induction xs) (auto intro: keeps_ret keeps_bnd)

lemma keeps_first_some [keeps_rules]: "(\<And>x. keeps K (f x)) \<Longrightarrow> keeps K (first_some f xs)"
  by (induction xs) (auto intro!: keeps_ret keeps_bnd keeps_option)

lemma keeps_filter_each [keeps_rules]: "(\<And>x. keeps K (f x)) \<Longrightarrow> keeps K (filter_each f xs)"
  by (induction xs) (auto intro!: keeps_ret keeps_bnd)

lemma keeps_loop_while [keeps_rules]:
  fixes body :: "'c \<Rightarrow> ('t, 'c option) txm"
  assumes "\<And>c. keeps K (body c)"
  shows "keeps K (loop_while body c)"
  unfolding keeps_def
proof (intro allI impI)
  fix t u t' assume "loop_while body c t = Inr (u, t')"
  then obtain k where
    run: "while_option (\<lambda>(k, r). k \<noteq> None \<and> \<not> isl r) (loop_step body) (Some c, Inr t) = Some (k, Inr t')"
    unfolding loop_while_def loop_step_def by (auto split: option.splits sum.splits)
  have "case (k, Inr t' :: error + 't) of (_, Inr s) \<Rightarrow> K t s | _ \<Rightarrow> True"
  proof (rule while_option_rule[OF _ run])
    fix x :: "'c option \<times> (error + 't)"
    assume "case x of (_, Inr s) \<Rightarrow> K t s | _ \<Rightarrow> True" and "case x of (k, r) \<Rightarrow> k \<noteq> None \<and> \<not> isl r"
    then obtain c' s where "x = (Some c', Inr s)" and "K t s" by (cases x; cases "snd x") auto
    then show "case loop_step body x of (_, Inr s) \<Rightarrow> K t s | _ \<Rightarrow> True"
      using K_trans keepsD[OF assms] by (auto simp: loop_step_def split: sum.splits)
  qed (simp add: K_refl)
  then show "K t t'" by simp
qed

section \<open>The operations of the engine\<close>

lemma helpers_keep [keeps_rules]:
  "keeps K (owner_alive T o')" "keeps K (hold_algorithm T o' m q)" "keeps K (set_hold_algorithm T o' m q a ttl)"
  "keeps K (del_hold_algorithm T o' m q)" "keeps K (semaphore_capacity T q)" "keeps K (set_semaphore_capacity T q n)"
  "keeps K (add_descendant_indexes T m q ttl)" "keeps K (remove_descendant_indexes T m q)"
  unfolding owner_alive_def hold_algorithm_def set_hold_algorithm_def del_hold_algorithm_def semaphore_capacity_def
    set_semaphore_capacity_def add_descendant_indexes_def remove_descendant_indexes_def Let_def
  by (cases m; intro keeps_rules; simp)+

lemma policies_keep [keeps_rules]:
  "keeps K (get_namespace_policy_record_inner T ns a)" "keeps K (set_namespace_policy_inner T ns a)"
  "keeps K (delete_namespace_policy_inner T ns)"
proof -
  show get: "keeps K (get_namespace_policy_record_inner T ns a)" for a
    unfolding get_namespace_policy_record_inner_def by (intro keeps_rules)
  show "keeps K (set_namespace_policy_inner T ns a)" "keeps K (delete_namespace_policy_inner T ns)"
    unfolding set_namespace_policy_inner_def delete_namespace_policy_inner_def Let_def
    by (intro keeps_rules get; simp)+
qed

lemma prunes_keep [keeps_rules]:
  "keeps K (prune_dead_read_owners T q)" "keeps K (prune_dead_semaphore_owners T q)" "keeps K (get_live_write_owner T q)"
  unfolding prune_dead_read_owners_def prune_dead_semaphore_owners_def get_live_write_owner_def Let_def
  by (intro keeps_rules; simp)+

lemma descendants_keep [keeps_rules]:
  "keeps K (find_descendant_write_conflict T o' q ns)" "keeps K (find_descendant_read_conflict T o' q ns)"
proof -
  show "keeps K (find_descendant_write_conflict T o' q ns)"
    unfolding find_descendant_write_conflict_def Let_def by (intro keeps_rules; simp)
  have "keeps K (descendant_read_loop T o' pfx ns' seen ds)" for pfx ns' seen ds
    by (induction ds arbitrary: seen) (auto simp: Let_def intro!: keeps_rules)
  then show "keeps K (find_descendant_read_conflict T o' q ns)"
    unfolding find_descendant_read_conflict_def Let_def by (intro keeps_rules)
qed

lemma release_keep [keeps_rules]:
  "keeps K (apply_release T o' ns req (own_prefix o'))" "keeps K (release_held_member T o' item)"
  unfolding apply_release_def release_held_member_def Let_def
  by (cases "rr_mode req"; auto intro!: keeps_rules split: option.split mode.split)+

lemma releases_keep [keeps_rules]:
  "keeps K (apply_releases T o' ns reqs (own_prefix o') (alive_key o'))"
  "keeps K (release_inner_in_namespace T ns o' reqs b)" "keeps K (release_owner_wide T o' b)"
  unfolding apply_releases_def release_inner_in_namespace_def release_owner_wide_def release_page_def Let_def
  by (intro keeps_rules; simp)+

lemma release_all_keep [keeps_rules]: "keeps K (release_all_inner T o' b)" "keeps K (force_release_inner T o')"
  unfolding release_all_inner_def force_release_inner_def by (intro keeps_rules)+

lemma validate_keep [keeps_rules]: "keeps K (validate_acquire T o' token reqs ns policy)"
  unfolding validate_acquire_def validate_held_def validate_new_def validate_new_ancestors_def
    validate_new_write_def validate_new_semaphore_def Let_def
  by (intro keeps_first_some) (auto intro!: keeps_rules split: lock_state.split)

lemma apply_keep [keeps_rules]: "ac_own_pfx ctx = own_prefix (ac_owner ctx) \<Longrightarrow> keeps K (apply_acquire T req ctx)"
  unfolding apply_acquire_def apply_write_acquire_def Let_def
  by (auto intro!: keeps_rules split: lock_state.split)

lemma acquire_keep [keeps_rules]: "keeps K (acquire_inner_in_namespace T args policy ns)"
  unfolding acquire_inner_in_namespace_def refresh_portfolio_def Let_def by (intro keeps_rules; simp)

lemma others_keep [keeps_rules]:
  "keeps K (renew_inner T o' ttl)" "keeps K (request_revoke_inner T o' ttl)"
  "keeps K (set_wait_edge_inner T o' x ttl md)" "keeps K (clear_wait_edge_inner T o')"
  unfolding renew_inner_def request_revoke_inner_def set_wait_edge_inner_def clear_wait_edge_inner_def Let_def
  by (intro keeps_rules; simp)+

end

section \<open>The write transaction\<close>

text \<open>The rows of a transaction outside the keys of the engine, and the expiry index, which records with a
  time to live add to.\<close>

definition engine_frame ::
    "'db rocksdb \<Rightarrow> ('db \<Rightarrow> cf \<Rightarrow> (bytes, bytes) omap) \<Rightarrow> 'db write_txn \<Rightarrow> 'db write_txn \<Rightarrow> bool" where
  "engine_frame R cts t t' \<longleftrightarrow>
     (txn_ok R cts t \<longrightarrow> txn_ok R cts t' \<and> same_txn t t' \<and>
        (\<forall>cf k. cf \<noteq> CF_EXPIRY \<longrightarrow> \<not> engine_key cf k \<longrightarrow>
           om_lookup (txn_view cts t' cf) k = om_lookup (txn_view cts t cf) k))"

lemma engine_frame_refl: "engine_frame R cts t t"
  by (simp add: engine_frame_def)

lemma engine_frame_trans: "engine_frame R cts t1 t2 \<Longrightarrow> engine_frame R cts t2 t3 \<Longrightarrow> engine_frame R cts t1 t3"
  by (auto simp: engine_frame_def intro: same_txn_trans)

lemma put_raw_frame: "engine_key cf k \<or> cf = CF_EXPIRY \<Longrightarrow> keeps (engine_frame R cts) (put_raw R cf k v)"
  using put_raw_view[of R cts] by (auto simp: keeps_def engine_frame_def)

lemma delete_raw_frame: "engine_key cf k \<or> cf = CF_EXPIRY \<Longrightarrow> keeps (engine_frame R cts) (delete_raw R cf k)"
  using delete_raw_view[of R cts] by (auto simp: keeps_def engine_frame_def)

lemma get_raw_frame: "keeps (engine_frame R cts) (get_raw R cf k)"
  using get_raw_view[of R cts] by (auto simp: keeps_def engine_frame_def)

lemma write_get_str_frame: "keeps (engine_frame R cts) (write_get_str R C cf k)"
  using get_raw_frame[of R cts cf k] by (auto simp: keeps_def write_get_str_def bnd_Inr_iff)

lemma put_expiring_frame:
  assumes "engine_key cf k"
  shows "keeps (engine_frame R cts) (\<lambda>t. bnd (lift_res (encode_record C (rec t))) (\<lambda>record.
    bnd (put_raw R cf k record) (\<lambda>_. if 0 < ttl then write_expiry R C (e t) cf k else ret ())) t)"
proof -
  have "keeps (engine_frame R cts) (write_expiry R C x cf k)" for x
    using put_raw_frame[of CF_EXPIRY _ R cts] by (auto simp: keeps_def write_expiry_def Let_def bnd_Inr_iff)
  with put_raw_frame[of cf k R cts] assms show ?thesis
    by (fastforce simp: keeps_def bnd_Inr_iff intro: engine_frame_trans split: if_splits)
qed

lemma write_set_str_frame: "engine_key cf k \<Longrightarrow> keeps (engine_frame R cts) (write_set_str R C cf k v ttl)"
  unfolding write_set_str_def[abs_def] Let_def by (rule put_expiring_frame)

interpretation wf: store_frame "write_store R C" "engine_frame R cts" for R C cts
proof
  show "keeps (engine_frame R cts) (get_str (write_store R C) cf k)" for cf k
    by (simp add: write_get_str_frame)
  show "keeps (engine_frame R cts) (smembers_limited (write_store R C) cf k n)" for cf k n
    by (auto simp: keeps_def write_smembers_limited_def engine_frame_refl)
  show "keeps (engine_frame R cts) (smembers_page (write_store R C) cf k c n)" for cf k c n
    by (auto simp: keeps_def write_smembers_page_def engine_frame_refl)
  show "keeps (engine_frame R cts) (has_live_member (write_store R C) cf k)" for cf k
    by (auto simp: keeps_def write_has_live_member_def engine_frame_refl)
  show "keeps (engine_frame R cts) (sismember (write_store R C) cf k m)" for cf k m
    using get_raw_frame[of R cts cf "member_key k m"] by (auto simp: keeps_def write_sismember_def bnd_Inr_iff)
  show "engine_key cf k \<Longrightarrow> keeps (engine_frame R cts) (set_str (write_store R C) cf k v ttl)" for cf k v ttl
    by (simp add: write_set_str_frame)
  show "engine_key cf k \<Longrightarrow> keeps (engine_frame R cts) (pexpire_str (write_store R C) cf k ttl)" for cf k ttl
    using write_get_str_frame[of R cts C cf k] write_set_str_frame[of cf k R cts C _ ttl]
    by (auto simp: keeps_def write_pexpire_str_def bnd_Inr_iff split: option.splits) (metis engine_frame_trans)
  show "engine_key cf k \<Longrightarrow> keeps (engine_frame R cts) (del (write_store R C) cf k)" for cf k
    by (simp add: write_del_def delete_raw_frame)
  show "engine_key cf (member_key k m) \<Longrightarrow> keeps (engine_frame R cts) (sadd (write_store R C) cf k m ttl)" for cf k m ttl
    unfolding write_store_simps write_sadd_def[abs_def] Let_def by (rule put_expiring_frame)
  show "engine_key cf (member_key k m) \<Longrightarrow> keeps (engine_frame R cts) (srem (write_store R C) cf k m)" for cf k m
    by (simp add: write_srem_def delete_raw_frame)
qed (use engine_frame_refl engine_frame_trans in auto)

end
