(* ===== verification/Lock_Engine.thy ===== *)
theory Lock_Engine
  imports Lock_Safety Mem_Store
begin

text \<open>
  The correctness of the lock engine (\<open>src/src/engine.rs\<close>) run on a write transaction: the facts of
  \<open>Lock_Safety\<close>, proved for any store with the \<open>StoreTxn\<close> contract, read for \<open>WriteTxn\<close>.
\<close>

definition lock_state_of :: "'c codec_scheme \<Rightarrow> ('db \<Rightarrow> cf \<Rightarrow> (bytes, bytes) omap) \<Rightarrow> 'db write_txn \<Rightarrow> lock_table" where
  "lock_state_of C cts t = table (write_state C cts t)"

text \<open>The invariant of a transaction of a group; \<open>sp\<close> says which key paths are semaphores.\<close>

definition engine_inv ::
    "'db rocksdb \<Rightarrow> 'c codec_scheme \<Rightarrow> ('db \<Rightarrow> cf \<Rightarrow> (bytes, bytes) omap) \<Rightarrow> (string \<Rightarrow> bool) \<Rightarrow> 'db write_txn \<Rightarrow> bool" where
  "engine_inv R C cts sp t \<longleftrightarrow>
     write_ok R C cts t \<and> coherent (write_state C cts t) \<and>
     lock_inv sp (lock_state_of C cts t) \<and> own_complete (lock_state_of C cts t)"

text \<open>What the service checks of a request before it reaches the engine.\<close>

definition args_ok :: "(string \<Rightarrow> bool) \<Rightarrow> string \<Rightarrow> lock_policy \<Rightarrow> acquire_args \<Rightarrow> bool" where
  "args_ok sp ns policy args \<longleftrightarrow>
     requests_ok sp ns (lp_algorithm policy) (aa_requests args) \<and> nul_free (aa_owner_id args) \<and>
     (\<forall>r \<in> set (aa_release_requests args). nul_free (rr_path r))"

lemma engine_run:
  assumes "lspec (write_ok R C cts) (write_state C cts) m (lock_state_of C cts t) Q"
    and "engine_inv R C cts sp t" and "m t = Inr (a, t')"
  shows "write_ok R C cts t' \<and> coherent (write_state C cts t') \<and> Q a (lock_state_of C cts t')"
  using lspecD[OF assms(1,3)] assms(2) by (auto simp: engine_inv_def lock_state_of_def)

lemma acquire_run:
  assumes inv: "engine_inv R C cts sp t" and args: "args_ok sp ns policy args"
    and run: "acquire_inner_in_namespace (write_store R C) args policy ns t = Inr (r, t')"
  shows "engine_inv R C cts sp t'" and "acquire_post sp ns args (lock_state_of C cts t) r (lock_state_of C cts t')"
proof -
  have "lspec (write_ok R C cts) (write_state C cts) (acquire_inner_in_namespace (write_store R C) args policy ns)
      (lock_state_of C cts t) (acquire_post sp ns args (lock_state_of C cts t))"
    using inv args by (intro wt.acquire_inner_in_namespace_spec) (auto simp: args_ok_def engine_inv_def)
  from engine_run[OF this inv run]
  show "acquire_post sp ns args (lock_state_of C cts t) r (lock_state_of C cts t')" and "engine_inv R C cts sp t'"
    by (auto simp: engine_inv_def acquire_post_def)
qed

text \<open>A new transaction on an empty database satisfies the invariant.\<close>

lemma coherent_empty: "s_view s = (\<lambda>_ _. None) \<Longrightarrow> coherent s"
  by (auto simp: coherent_def set_coherent_def never_expires_def own_keyed_def)

lemma table_empty:
  assumes "s_view s = (\<lambda>_ _. None)"
  shows "lock_inv sp (table s)" and "own_complete (table s)"
  using assms
  by (auto simp: table_def record_of_def members_of_def lock_inv_def indexed_def separated_def exclusive_def
      marked_def within_capacity_def alg_of_def own_complete_def holds_def default_lock_algorithm_def split: mode.splits)

lemma engine_inv_empty:
  assumes "rocksdb_ok R cts" and "codec_ok C" and "\<And>cf. cts db cf = om_empty"
  shows "engine_inv R C cts sp (write_txn_new db g now)"
proof -
  have "s_view (write_state C cts (write_txn_new db g now)) = (\<lambda>_ _. None)"
    by (simp add: write_state_def view_state_def str_view_def assms(3) fun_eq_iff)
  with coherent_empty table_empty assms(1,2) show ?thesis
    by (simp add: engine_inv_def lock_state_of_def write_ok_def new_txn_ok)
qed

lemma mem_engine_inv: "engine_inv mem_rocks mem_codec mem_cts sp (mem_txn now)"
  unfolding mem_txn_def by (rule engine_inv_empty[OF mem_rocks_ok mem_codec_ok]) simp

section \<open>Acquire\<close>

text \<open>C6: \<open>acquire_inner_in_namespace\<close> keeps the lock invariant whatever it answers (exclusive write
  locks and recursive subtrees, complete descendant indexes and hold sets, semaphores within their
  capacity), and it leaves every hold and the liveness of every other live owner as it was: only dead
  owners are pruned.\<close>

theorem acquire_keeps_invariant:
  assumes "engine_inv R C cts sp t" and "args_ok sp ns policy args"
    and "acquire_inner_in_namespace (write_store R C) args policy ns t = Inr (r, t')"
  shows "engine_inv R C cts sp t' \<and> spares (aa_owner_id args) (lock_state_of C cts t) (lock_state_of C cts t')"
  using acquire_run[OF assms] by (simp add: acquire_post_def)


text \<open>C8: fencing. When an acquire of a write lock answers \<open>Ok\<close>, the token presented is at least the
  one recorded for the path; it is equal to it only when the same owner held the write lock already.
  So the tokens of a path grow strictly from one writer to the next.\<close>

theorem acquire_fences:
  assumes "engine_inv R C cts sp t" and "args_ok sp ns policy args"
    and "acquire_inner_in_namespace (write_store R C) args policy ns t = Inr (AcqOk token, t')"
    and "req \<in> set (aa_requests args)" and "lr_mode req = Write" and "\<not> sp (scoped_path ns (lr_path req))"
    and "parse_fence (l_fence (lock_state_of C cts t) (scoped_path ns (lr_path req))) = Some cur"
  shows "cur \<le> aa_fencing_token args \<and>
    (cur = aa_fencing_token args \<longrightarrow>
      l_wr (lock_state_of C cts t) (scoped_path ns (lr_path req)) = Some (aa_owner_id args))"
  using acquire_run(2)[OF assms(1-3)] assms(4-7)
  unfolding acquire_post_def acquired_def Let_def by (auto simp: fenced_def)

section \<open>Release\<close>

lemma release_run:
  assumes inv: "engine_inv R C cts sp t"
    and names: "nul_free o'" "nul_free ns" "\<forall>r \<in> set reqs. nul_free (rr_path r)"
    and run: "release_inner_in_namespace (write_store R C) ns o' reqs del_wait t = Inr (u, t')"
  shows "write_ok R C cts t' \<and> coherent (write_state C cts t') \<and>
    releases sp o' (lock_state_of C cts t) (lock_state_of C cts t') \<and>
    (\<forall>r \<in> set reqs. \<not> holds (lock_state_of C cts t') o' (rr_mode r) (scoped_path ns (rr_path r))) \<and>
    (\<forall>n q. (n, q) \<notin> released_locks ns reqs \<longrightarrow> holds (lock_state_of C cts t) o' n q \<longrightarrow>
       holds (lock_state_of C cts t') o' n q) \<and>
    l_alive (lock_state_of C cts t') o' = (l_alive (lock_state_of C cts t) o' \<and> l_own (lock_state_of C cts t') o' \<noteq> {})"
  using inv names by (intro engine_run[OF wt.release_inner_in_namespace_spec inv run]) (auto simp: engine_inv_def)

lemma releases_engine_inv:
  assumes "engine_inv R C cts sp t" and "write_ok R C cts t'" and "coherent (write_state C cts t')"
    and "releases sp o' (lock_state_of C cts t) (lock_state_of C cts t')"
  shows "engine_inv R C cts sp t'"
  using assms by (auto simp: engine_inv_def releases_def)

text \<open>C9: \<open>release_inner_in_namespace\<close> frees exactly what it is asked to: afterwards the owner holds
  none of the named locks, it still holds all its others, the other owners' holds are untouched, the
  invariant is kept, and the owner stays alive only while it has a hold left.\<close>

theorem release_frees_named:
  assumes "engine_inv R C cts sp t"
    and "nul_free o'" and "nul_free ns" and "\<forall>r \<in> set reqs. nul_free (rr_path r)"
    and "release_inner_in_namespace (write_store R C) ns o' reqs del_wait t = Inr (u, t')"
  shows "engine_inv R C cts sp t' \<and> spares o' (lock_state_of C cts t) (lock_state_of C cts t') \<and>
    (\<forall>m q. (m, q) \<in> released_locks ns reqs \<longrightarrow> \<not> holds (lock_state_of C cts t') o' m q) \<and>
    (\<forall>m q. (m, q) \<notin> released_locks ns reqs \<longrightarrow>
       holds (lock_state_of C cts t) o' m q \<longrightarrow> holds (lock_state_of C cts t') o' m q) \<and>
    l_alive (lock_state_of C cts t') o' = (l_alive (lock_state_of C cts t) o' \<and> l_own (lock_state_of C cts t') o' \<noteq> {})"
proof -
  note run = release_run[OF assms]
  then have "engine_inv R C cts sp t'" and "spares o' (lock_state_of C cts t) (lock_state_of C cts t')"
    using releases_engine_inv[OF assms(1)] releases_spares by blast+
  with run show ?thesis by (auto simp: released_locks_def)
qed

text \<open>C10: \<open>release_all_inner\<close> (and \<open>force_release_inner\<close>, the same with the wait edge deleted) leaves
  its owner with no hold at all and not alive, and every other owner untouched.\<close>

theorem release_all_frees_everything:
  assumes "engine_inv R C cts sp t" and "nul_free o'"
    and "release_all_inner (write_store R C) o' del_wait t = Inr (u, t')"
  shows "engine_inv R C cts sp t' \<and> spares o' (lock_state_of C cts t) (lock_state_of C cts t') \<and>
    (\<forall>m q. \<not> holds (lock_state_of C cts t') o' m q) \<and> \<not> l_alive (lock_state_of C cts t') o'"
proof -
  have "write_ok R C cts t' \<and> coherent (write_state C cts t') \<and>
    releases sp o' (lock_state_of C cts t) (lock_state_of C cts t') \<and> l_own (lock_state_of C cts t') o' = {} \<and>
    \<not> l_alive (lock_state_of C cts t') o'"
    using assms(1,2)
    by (intro engine_run[OF wt.release_owner_wide_spec assms(1) assms(3)[unfolded release_all_inner_def]])
      (auto simp: engine_inv_def)
  then show ?thesis
    using releases_engine_inv[OF assms(1)] releases_spares no_holds_left[of "lock_state_of C cts t'" o']
    by (auto simp: engine_inv_def)
qed

text \<open>C11: the paging loop of an owner-wide release ends: each page leaves fewer of the owner's keys
  behind the cursor, so the loop cannot run forever however many holds there are.\<close>

theorem release_paging_ends:
  assumes "engine_inv R C cts sp t" and "nul_free o'"
  shows "loop_ends (release_page (write_store R C) o') None t"
  using assms by (intro wt.release_loop_ends) (auto simp: engine_inv_def lock_state_of_def)

section \<open>Witnesses\<close>

text \<open>On an empty database, alice takes \<open>h:/a\<close> for writing with token 7; what follows starts there.\<close>

abbreviation demo_policy where
  "demo_policy \<equiv> lock_policy_from_algorithm RecursiveRw"

abbreviation demo_path where
  "demo_path \<equiv> scoped_path ''h'' ''h:/a''"

abbreviation demo_acquire where
  "demo_acquire owner token \<equiv>
     acquire_inner_in_namespace (write_store mem_rocks mem_codec) (write_args owner ''h:/a'' token) demo_policy ''h''"

abbreviation demo_state where
  "demo_state \<equiv> lock_state_of mem_codec mem_cts"

abbreviation demo_inv where
  "demo_inv \<equiv> engine_inv mem_rocks mem_codec mem_cts (\<lambda>_. False)"

lemma demo_args_ok: "nul_free owner \<Longrightarrow> args_ok (\<lambda>_. False) ''h'' demo_policy (write_args owner ''h:/a'' token)"
  by (simp add: args_ok_def requests_ok_def write_args_def lock_policy_from_algorithm_def lock_policy_new_def)

lemma demo_outcome: "run_outcome (demo_acquire ''alice'' 7 (mem_txn 1000)) = Some (AcqOk 7)"
  by code_simp

text \<open>The transaction after it, and what holds of it.\<close>

definition demo_txn :: "mem_db write_txn" where
  "demo_txn = (case demo_acquire ''alice'' 7 (mem_txn 1000) of Inr (_, t) \<Rightarrow> t | Inl _ \<Rightarrow> mem_txn 1000)"

lemma demo_first: "demo_acquire ''alice'' 7 (mem_txn 1000) = Inr (AcqOk 7, demo_txn)"
  using demo_outcome by (auto simp: run_outcome_def demo_txn_def split: sum.splits)

lemma demo_txn_inv: "demo_inv demo_txn"
  by (rule acquire_run(1)[OF mem_engine_inv demo_args_ok demo_first]) simp

lemma demo_txn_holds:
  "l_fence (demo_state demo_txn) demo_path = Some (int_str 7) \<and> holds (demo_state demo_txn) ''alice'' Write demo_path"
proof -
  have "acquire_post (\<lambda>_. False) ''h'' (write_args ''alice'' ''h:/a'' 7) (demo_state (mem_txn 1000)) (AcqOk 7) (demo_state demo_txn)"
    by (rule acquire_run(2)[OF mem_engine_inv demo_args_ok demo_first]) simp
  moreover have "''alice'' \<notin> l_sem (demo_state demo_txn) demo_path"
    using demo_txn_inv by (auto simp: engine_inv_def lock_inv_def separated_def)
  ultimately show ?thesis
    by (simp add: acquire_post_def acquired_def Let_def write_args_def released_locks_def granted_def)
qed

theorem acquire_keeps_invariant_witness:
  "\<exists>t'. demo_acquire ''bob'' 9 demo_txn = Inr (Conflict ''h:/a'' ''alice'' WriteLocked, t') \<and> demo_inv t'"
proof -
  have "run_outcome (bnd (demo_acquire ''alice'' 7) (\<lambda>_. demo_acquire ''bob'' 9) (mem_txn 1000)) =
      Some (Conflict ''h:/a'' ''alice'' WriteLocked)"
    by code_simp
  then obtain t' where "demo_acquire ''bob'' 9 demo_txn = Inr (Conflict ''h:/a'' ''alice'' WriteLocked, t')"
    by (rule run_outcomeE) (auto simp: bnd_def demo_first)
  with acquire_keeps_invariant[OF demo_txn_inv demo_args_ok this] show ?thesis by simp
qed


theorem acquire_fences_witness:
  "run_outcome (demo_acquire ''alice'' 8 demo_txn) = Some (AcqOk 8) \<and> (7 :: i64) \<le> aa_fencing_token (write_args ''alice'' ''h:/a'' 8)"
proof -
  have "run_outcome (bnd (demo_acquire ''alice'' 7) (\<lambda>_. demo_acquire ''alice'' 8) (mem_txn 1000)) = Some (AcqOk 8)"
    by code_simp
  then obtain t' where run: "demo_acquire ''alice'' 8 demo_txn = Inr (AcqOk 8, t')"
    by (rule run_outcomeE) (auto simp: bnd_def demo_first)
  have "7 \<le> aa_fencing_token (write_args ''alice'' ''h:/a'' 8)"
    using acquire_fences[OF demo_txn_inv demo_args_ok run, where cur = 7] demo_txn_holds
    by (simp add: write_args_def parse_fence_def parse_i64_int_str)
  with run show ?thesis by (simp add: run_outcome_def)
qed

abbreviation demo_release where
  "demo_release \<equiv> release_inner_in_namespace (write_store mem_rocks mem_codec) ''h'' ''alice''
     [\<lparr> rr_path = ''h:/a'', rr_mode = Write \<rparr>] True"

theorem release_frees_named_witness:
  "\<exists>t'. demo_release demo_txn = Inr ((), t') \<and> \<not> holds (demo_state t') ''alice'' Write demo_path"
proof -
  have "run_outcome (bnd (demo_acquire ''alice'' 7) (\<lambda>_. demo_release) (mem_txn 1000)) = Some ()" by code_simp
  then obtain t' where run: "demo_release demo_txn = Inr ((), t')"
    by (rule run_outcomeE) (auto simp: bnd_def demo_first)
  with release_frees_named[OF demo_txn_inv _ _ _ run] show ?thesis by (auto simp: released_locks_def)
qed

theorem release_all_frees_everything_witness:
  "\<exists>t'. release_all_inner (write_store mem_rocks mem_codec) ''alice'' True demo_txn = Inr ((), t') \<and>
    \<not> holds (demo_state t') ''alice'' Write demo_path"
proof -
  have "run_outcome (bnd (demo_acquire ''alice'' 7)
      (\<lambda>_. release_all_inner (write_store mem_rocks mem_codec) ''alice'' True) (mem_txn 1000)) = Some ()" by code_simp
  then obtain t' where run: "release_all_inner (write_store mem_rocks mem_codec) ''alice'' True demo_txn = Inr ((), t')"
    by (rule run_outcomeE) (auto simp: bnd_def demo_first)
  with release_all_frees_everything[OF demo_txn_inv _ run] show ?thesis by auto
qed

theorem release_paging_ends_witness: "loop_ends (release_page (write_store mem_rocks mem_codec) ''alice'') None demo_txn"
  by (rule release_paging_ends[OF demo_txn_inv]) simp

end
