(* ===== verification/Group_Safety.thy ===== *)
theory Group_Safety
  imports Engine_Frame Lock_Engine
begin

text \<open>
  Safety of the replicated state machine (\<open>src/src/queue.rs\<close>, \<open>src/src/raft/state_machine.rs\<close>): every
  operation of the wait queue, the expiry sweep, the namespace transitions and every command keeps
  the invariant of the lock engine, so it holds of every database a log of commands leads to.
\<close>

section \<open>Records that fade\<close>

text \<open>
  The liveness records, the wait edges and the namespace settings come and go without touching a lock:
  the invariant rests on the other records of the engine only. From \<open>s\<close> to \<open>s'\<close> those are the same, or
  gone after they had expired.
\<close>

definition hard_key :: "cf \<Rightarrow> bytes \<Rightarrow> bool" where
  "hard_key cf k \<longleftrightarrow> engine_key cf k \<and> cf \<notin> {CF_OWNER_ALIVE, CF_WAIT_EDGES, CF_NAMESPACE_SETTINGS}"

definition faded :: "store_state \<Rightarrow> store_state \<Rightarrow> bool" where
  "faded s s' \<longleftrightarrow>
     (\<forall>cf k. hard_key cf k \<longrightarrow> s_view s' cf k = s_view s cf k \<or>
        s_view s' cf k = None \<and> (\<forall>v e. s_view s cf k = Some (v, e) \<longrightarrow> expired e (s_now s)))"

lemma hard_key_cf [simp]:
  "hard_key CF_WRITE_LOCKS k" "hard_key CF_READ_LOCKS k" "hard_key CF_SEMAPHORE k" "hard_key CF_FENCES k"
  "hard_key CF_DESC_WRITE k" "hard_key CF_DESC_READ k" "hard_key CF_OWNER_HOLDS k"
  "\<not> hard_key CF_OWNER_ALIVE k" "\<not> hard_key CF_WAIT_EDGES k" "\<not> hard_key CF_NAMESPACE_SETTINGS k"
  "hard_key CF_META k \<longleftrightarrow> lock_meta_key k"
  by (simp_all add: hard_key_def) (simp add: engine_key_def engine_cfs_def)

lemma not_expired_zero [simp]: "\<not> expired 0 now"
  by (simp add: expired_def)

lemma fadedD:
  assumes "faded s s'" and "hard_key cf k"
  shows "s_view s' cf k = s_view s cf k \<or>
    s_view s' cf k = None \<and> (\<forall>v e. s_view s cf k = Some (v, e) \<longrightarrow> expired e (s_now s))"
  using assms unfolding faded_def by blast

lemma faded_view:
  assumes "faded s s'" and "hard_key cf k" and "\<And>v e. s_view s cf k = Some (v, e) \<Longrightarrow> e = 0"
  shows "s_view s' cf k = s_view s cf k"
  using fadedD[OF assms(1,2)] assms(3) by (cases "s_view s cf k") auto

lemma faded_Some: "faded s s' \<Longrightarrow> hard_key cf k \<Longrightarrow> s_view s' cf k = Some x \<Longrightarrow> s_view s cf k = Some x"
  using fadedD[of s s' cf k] by auto

definition hard_cf :: "cf \<Rightarrow> bool" where
  "hard_cf cf \<longleftrightarrow> (\<forall>k. hard_key cf k)"

lemma hard_cf_simps [simp]:
  "hard_cf CF_READ_LOCKS" "hard_cf CF_SEMAPHORE" "hard_cf CF_DESC_WRITE" "hard_cf CF_DESC_READ" "hard_cf CF_OWNER_HOLDS"
  by (simp_all add: hard_cf_def)

lemma faded_set_coherent:
  "set_coherent P s cf \<Longrightarrow> faded s s' \<Longrightarrow> hard_cf cf \<Longrightarrow> set_coherent P s' cf"
  unfolding set_coherent_def hard_cf_def using faded_Some[of s s' cf] by blast

lemma faded_never_expires:
  "never_expires P s cf K \<Longrightarrow> faded s s' \<Longrightarrow> (\<And>k. K k \<Longrightarrow> hard_key cf k) \<Longrightarrow> never_expires P s' cf K"
  unfolding never_expires_def using faded_Some[of s s' cf] by blast

lemma faded_coherent:
  assumes "coherent s" and "faded s s'"
  shows "coherent s'"
proof -
  note c = assms(1)[unfolded coherent_def]
  have "set_coherent nul_free s' cf" if "cf \<in> {CF_READ_LOCKS, CF_SEMAPHORE, CF_DESC_WRITE, CF_DESC_READ}" for cf
    using c that by (intro faded_set_coherent[OF _ assms(2)]) auto
  moreover have "set_coherent member_ok s' CF_OWNER_HOLDS"
    using c by (intro faded_set_coherent[OF _ assms(2)]) auto
  moreover have "never_expires nul_free s' CF_WRITE_LOCKS nul_free" "never_expires (\<lambda>_. True) s' CF_FENCES nul_free"
    "never_expires (\<lambda>_. True) s' CF_META lock_meta_key"
    using c by (auto intro!: faded_never_expires[OF _ assms(2)])
  moreover have "own_keyed s'"
    using c faded_Some[OF assms(2), of CF_OWNER_HOLDS] by (auto simp: own_keyed_def)
  ultimately show ?thesis unfolding coherent_def by blast
qed

lemma faded_members:
  assumes "set_coherent P s cf" and "faded s s'" and "hard_cf cf"
  shows "members_of s' cf = members_of s cf"
proof (rule ext, rule set_eqI)
  fix q m
  have "s_view s' cf (member_key (q @ [NUL]) m) = s_view s cf (member_key (q @ [NUL]) m)" if "nul_free q"
    using assms that by (intro faded_view[OF assms(2)]) (auto simp: hard_cf_def set_coherent_def)
  then show "m \<in> members_of s' cf q \<longleftrightarrow> m \<in> members_of s cf q" by (simp add: members_of_def)
qed

lemma faded_record:
  assumes "never_expires P s cf K" and "faded s s'" and "K k" and "hard_key cf k"
  shows "record_of s' cf k = record_of s cf k"
  using assms faded_view[OF assms(2,4)] by (simp add: record_of_def never_expires_def)

lemma faded_table:
  assumes c: "coherent s" and f: "faded s s'"
  shows "table s' =
    (table s)\<lparr>l_hold_keys := s_raw s' CF_OWNER_HOLDS, l_alive := l_alive (table s'), l_now := s_now s'\<rparr>"
proof -
  have sets: "set_coherent nul_free s CF_READ_LOCKS" "set_coherent nul_free s CF_SEMAPHORE"
    "set_coherent nul_free s CF_DESC_WRITE" "set_coherent nul_free s CF_DESC_READ" "set_coherent member_ok s CF_OWNER_HOLDS"
    and wr: "never_expires nul_free s CF_WRITE_LOCKS nul_free" and fe: "never_expires (\<lambda>_. True) s CF_FENCES nul_free"
    and meta: "never_expires (\<lambda>_. True) s CF_META lock_meta_key"
    using c by (auto simp: coherent_def)
  note mem = sets[THEN faded_members[OF _ f]]
  have "record_of s' CF_WRITE_LOCKS (wr_key q) = record_of s CF_WRITE_LOCKS (wr_key q)" if "nul_free q" for q
    using that by (intro faded_record[OF wr f]) (auto simp: wr_key_def)
  moreover have "record_of s' CF_FENCES (fence_key q) = record_of s CF_FENCES (fence_key q)" if "nul_free q" for q
    using that by (intro faded_record[OF fe f]) (auto simp: fence_key_def)
  moreover have "record_of s' CF_META k = record_of s CF_META k" if "lock_meta_key k" for k
    using that by (intro faded_record[OF meta f]) auto
  ultimately show ?thesis
    using mem
    by (simp add: table_def lock_meta_key_def hold_algorithm_key_def semaphore_permits_key_def fun_eq_iff cong: if_cong)
qed

lemma hold_keys_simps [simp]:
  "lock_inv sp (L\<lparr>l_hold_keys := X, l_alive := A, l_now := n\<rparr>) = lock_inv sp L"
  "own_complete (L\<lparr>l_hold_keys := X, l_alive := A, l_now := n\<rparr>) = own_complete L"
  by (simp_all add: lock_inv_def indexed_def separated_def exclusive_def marked_def within_capacity_def cap_of_def alg_of_def
      own_complete_def holds_def named_def fun_eq_iff cong: mode.case_cong)

lemma faded_inv:
  assumes "coherent s" and "faded s s'"
  shows "lock_inv sp (table s') = lock_inv sp (table s)" and "own_complete (table s') = own_complete (table s)"
  by (subst faded_table[OF assms], simp)+

section \<open>The invariant of a group\<close>

definition queue_codec_ok :: "'c queue_codec_scheme \<Rightarrow> bool" where
  "queue_codec_ok C \<longleftrightarrow> (\<forall>e b. entry_encode C e = Inr b \<longrightarrow> entry_decode C b = Inr e)"

text \<open>A parked request passed the checks of a request, and is filed under its own owner.\<close>

definition entry_ok :: "(string \<Rightarrow> bool) \<Rightarrow> queue_entry \<Rightarrow> bool" where
  "entry_ok sp en \<longleftrightarrow>
     args_ok sp (qe_namespace en) (qe_policy en) (qe_args en) \<and> qe_owner en = aa_owner_id (qe_args en)"

definition stored_entry :: "'c queue_codec_scheme \<Rightarrow> bytes \<Rightarrow> queue_entry option" where
  "stored_entry C b =
     (case decode_record C b of Inr (Bytes v _) \<Rightarrow> decode_queue_entry C v | _ \<Rightarrow> None)"

definition queue_ok :: "'c queue_codec_scheme \<Rightarrow> (string \<Rightarrow> bool) \<Rightarrow> (bytes, bytes) omap \<Rightarrow> bool" where
  "queue_ok C sp m \<longleftrightarrow> (\<forall>k b en. om_lookup m k = Some b \<longrightarrow> stored_entry C b = Some en \<longrightarrow> entry_ok sp en)"

definition group_inv ::
    "'db rocksdb \<Rightarrow> 'c queue_codec_scheme \<Rightarrow> ('db \<Rightarrow> cf \<Rightarrow> (bytes, bytes) omap) \<Rightarrow> (string \<Rightarrow> bool) \<Rightarrow> 'db write_txn \<Rightarrow> bool" where
  "group_inv R C cts sp t \<longleftrightarrow>
     engine_inv R C cts sp t \<and> queue_codec_ok C \<and> queue_ok C sp (txn_view cts t CF_QUEUE)"

lemma group_invD:
  assumes "group_inv R C cts sp t"
  shows "engine_inv R C cts sp t" and "queue_codec_ok C" and "queue_ok C sp (txn_view cts t CF_QUEUE)"
    and "txn_ok R cts t" and "codec_ok C" and "rocksdb_ok R cts"
  using assms by (auto simp: group_inv_def engine_inv_def write_ok_def txn_ok_def)

text \<open>The engine leaves the queue alone.\<close>

lemma engine_group_inv:
  assumes "group_inv R C cts sp t" and "engine_frame R cts t t'" and "engine_inv R C cts sp t'"
  shows "group_inv R C cts sp t'"
proof -
  have "om_lookup (txn_view cts t' CF_QUEUE) k = om_lookup (txn_view cts t CF_QUEUE) k" for k
    using assms(2) group_invD(4)[OF assms(1)] by (auto simp: engine_frame_def engine_key_def engine_cfs_def)
  with assms show ?thesis by (simp add: group_inv_def queue_ok_def)
qed

text \<open>Everything else changes no record of the engine, except that it deletes expired ones.\<close>

definition aux_change ::
    "'c codec_scheme \<Rightarrow> ('db \<Rightarrow> cf \<Rightarrow> (bytes, bytes) omap) \<Rightarrow> 'db write_txn \<Rightarrow> 'db write_txn \<Rightarrow> bool" where
  "aux_change C cts t t' \<longleftrightarrow>
     (\<forall>cf k. hard_key cf k \<longrightarrow>
        om_lookup (txn_view cts t' cf) k = om_lookup (txn_view cts t cf) k \<or>
        om_lookup (txn_view cts t' cf) k = None \<and>
        (\<forall>b v e. om_lookup (txn_view cts t cf) k = Some b \<longrightarrow> decode_record C b = Inr (Str v e) \<longrightarrow>
           expired e (wt_now_ms t)))"

lemma aux_change_faded:
  assumes "aux_change C cts t t'"
  shows "faded (write_state C cts t) (write_state C cts t')"
  unfolding faded_def
proof (intro conjI allI impI)
  fix cf k assume "hard_key cf k"
  then have "om_lookup (txn_view cts t' cf) k = om_lookup (txn_view cts t cf) k \<or>
      om_lookup (txn_view cts t' cf) k = None \<and>
        (\<forall>b v e. om_lookup (txn_view cts t cf) k = Some b \<longrightarrow> decode_record C b = Inr (Str v e) \<longrightarrow> expired e (wt_now_ms t))"
    using assms unfolding aux_change_def by blast
  then show "s_view (write_state C cts t') cf k = s_view (write_state C cts t) cf k \<or>
      s_view (write_state C cts t') cf k = None \<and>
      (\<forall>v e. s_view (write_state C cts t) cf k = Some (v, e) \<longrightarrow> expired e (s_now (write_state C cts t)))"
    by (auto simp: write_state_def view_state_def str_view_def str_record_def split: option.splits sum.splits stored_record.splits)
qed

lemma aux_change_engine_inv:
  assumes "engine_inv R C cts sp t" and "aux_change C cts t t'" and "txn_ok R cts t'"
  shows "engine_inv R C cts sp t'"
  using assms faded_coherent[OF _ aux_change_faded[OF assms(2)]] faded_inv[OF _ aux_change_faded[OF assms(2)]]
  by (simp add: engine_inv_def write_ok_def lock_state_of_def)

lemma aux_group_inv:
  assumes "group_inv R C cts sp t" and "aux_change C cts t t'" and "txn_ok R cts t'"
    and "queue_ok C sp (txn_view cts t' CF_QUEUE)"
  shows "group_inv R C cts sp t'"
  using assms aux_change_engine_inv by (auto simp: group_inv_def)

section \<open>Programs that keep the invariant\<close>

text \<open>\<open>safe I m Q\<close>: run in a transaction with \<open>I\<close>, the program stays in that transaction (its database, its group
  and its clock), keeps \<open>I\<close> and returns a value with \<open>Q\<close>, if it returns one.\<close>

definition safe ::
    "('db write_txn \<Rightarrow> bool) \<Rightarrow> ('db write_txn, 'a) txm \<Rightarrow> ('a \<Rightarrow> bool) \<Rightarrow> bool" where
  "safe I m Q \<longleftrightarrow> (\<forall>t a t'. I t \<longrightarrow> m t = Inr (a, t') \<longrightarrow> I t' \<and> same_txn t t' \<and> Q a)"

named_theorems safe_rules

lemma safeD: "safe I m Q \<Longrightarrow> m t = Inr (a, t') \<Longrightarrow> I t \<Longrightarrow> I t' \<and> same_txn t t' \<and> Q a"
  unfolding safe_def by blast

lemma safe_conseq: "safe I m Q \<Longrightarrow> (\<And>a. Q a \<Longrightarrow> Q' a) \<Longrightarrow> safe I m Q'"
  unfolding safe_def by blast

lemma safe_ret [safe_rules]: "Q a \<Longrightarrow> safe I (ret a) Q"
  by (simp add: safe_def)

lemma safe_fail [safe_rules]: "safe I (fail e) Q"
  by (simp add: safe_def fail_def)

lemma safe_lift: "(\<And>a. r = Inr a \<Longrightarrow> Q a) \<Longrightarrow> safe I (lift_res r) Q"
  by (auto simp: safe_def lift_res_def split: sum.splits)

lemma safe_bnd: "safe I m P \<Longrightarrow> (\<And>a. P a \<Longrightarrow> safe I (f a) Q) \<Longrightarrow> safe I (bnd m f) Q"
  unfolding safe_def bnd_Inr_iff by (metis same_txn_trans)

lemma safe_then [safe_rules]: "safe I m (\<lambda>_. True) \<Longrightarrow> (\<And>a. safe I (f a) Q) \<Longrightarrow> safe I (bnd m f) Q"
  unfolding safe_def bnd_Inr_iff by (metis same_txn_trans)

lemma safe_if [safe_rules]: "(b \<Longrightarrow> safe I m Q) \<Longrightarrow> (\<not> b \<Longrightarrow> safe I m' Q) \<Longrightarrow> safe I (if b then m else m') Q"
  by simp

lemma safe_option [safe_rules]:
  "(v = None \<Longrightarrow> safe I m Q) \<Longrightarrow> (\<And>x. v = Some x \<Longrightarrow> safe I (f x) Q) \<Longrightarrow> safe I (case v of None \<Rightarrow> m | Some x \<Rightarrow> f x) Q"
  by (cases v) simp_all

lemma safe_pair [safe_rules]: "(\<And>a b. p = (a, b) \<Longrightarrow> safe I (f a b) Q) \<Longrightarrow> safe I (case p of (a, b) \<Rightarrow> f a b) Q"
  by (cases p) simp

lemma safe_for_each: "(\<And>x. x \<in> set xs \<Longrightarrow> safe I (f x) (\<lambda>_. True)) \<Longrightarrow> Q () \<Longrightarrow> safe I (for_each f xs) Q"
  by (induction xs) (auto intro!: safe_rules)

lemma safe_first_some:
  "(\<And>x. x \<in> set xs \<Longrightarrow> safe I (f x) (\<lambda>r. \<forall>b. r = Some b \<longrightarrow> Q (Some b))) \<Longrightarrow> Q None \<Longrightarrow> safe I (first_some f xs) Q"
  by (induction xs) (auto intro!: safe_ret safe_option safe_bnd[where P = "\<lambda>r. \<forall>b. r = Some b \<longrightarrow> Q (Some b)"])

lemma safe_fold_each:
  "J acc \<Longrightarrow> (\<And>x acc. x \<in> set xs \<Longrightarrow> J acc \<Longrightarrow> safe I (f x acc) J) \<Longrightarrow> safe I (fold_each f xs acc) J"
  by (induction xs arbitrary: acc) (auto intro!: safe_ret intro: safe_bnd)

lemma safe_readI:
  "(\<And>t a t'. I t \<Longrightarrow> m t = Inr (a, t') \<Longrightarrow> I t' \<and> same_txn t t' \<and> Q a) \<Longrightarrow> safe I m Q"
  unfolding safe_def by blast

section \<open>Reads and writes outside the engine\<close>

definition raw_ok :: "'c queue_codec_scheme \<Rightarrow> (string \<Rightarrow> bool) \<Rightarrow> bytes \<Rightarrow> bool" where
  "raw_ok C sp b \<longleftrightarrow> (\<forall>en. stored_entry C b = Some en \<longrightarrow> entry_ok sp en)"

lemma queue_ok_raw: "queue_ok C sp m \<longleftrightarrow> (\<forall>k b. om_lookup m k = Some b \<longrightarrow> raw_ok C sp b)"
  by (auto simp: queue_ok_def raw_ok_def)

lemma group_inv_same:
  assumes "group_inv R C cts sp t" and "same_txn t t'" and "txn_view cts t' = txn_view cts t" and "txn_ok R cts t'"
  shows "group_inv R C cts sp t'"
  using assms by (intro aux_group_inv[OF assms(1)]) (auto simp: aux_change_def group_inv_def)

lemma get_raw_safe:
  "safe (group_inv R C cts sp) (get_raw R cf k) (\<lambda>raw. cf = CF_QUEUE \<longrightarrow> (\<forall>b. raw = Some b \<longrightarrow> raw_ok C sp b))"
proof (rule safe_readI)
  fix t raw t' assume inv: "group_inv R C cts sp t" and get: "get_raw R cf k t = Inr (raw, t')"
  note g = get_raw_view[OF group_invD(4)[OF inv] get]
  from group_inv_same[OF inv g(4,2,3)] g(1,4) group_invD(3)[OF inv]
  show "group_inv R C cts sp t' \<and> same_txn t t' \<and> (cf = CF_QUEUE \<longrightarrow> (\<forall>b. raw = Some b \<longrightarrow> raw_ok C sp b))"
    by (auto simp: queue_ok_raw)
qed

lemma get_raw_safe' [safe_rules]: "safe (group_inv R C cts sp) (get_raw R cf k) (\<lambda>_. True)"
  by (rule safe_conseq[OF get_raw_safe]) simp

lemma write_get_str_safe [safe_rules]: "safe (group_inv R C cts sp) (write_get_str R C' cf k) (\<lambda>_. True)"
  using get_raw_safe'[of R C cts sp cf k] by (auto simp: safe_def write_get_str_def bnd_Inr_iff)

lemma write_sismember_safe [safe_rules]: "safe (group_inv R C cts sp) (write_sismember R C' cf k m) (\<lambda>_. True)"
  using get_raw_safe'[of R C cts sp cf "member_key k m"] by (auto simp: safe_def write_sismember_def bnd_Inr_iff)

lemma get_bytes_raw:
  assumes "get_bytes R C cf k t = Inr (r, t')"
  obtains raw where "get_raw R cf k t = Inr (raw, t')"
    and "\<And>v. r = Some v \<Longrightarrow> \<exists>b e. raw = Some b \<and> decode_record C b = Inr (Bytes v e) \<and> \<not> expired e (wt_now_ms t')"
proof -
  from assms obtain raw t1 where raw: "get_raw R cf k t = Inr (raw, t1)" and rest: "(case raw of None \<Rightarrow> ret None
      | Some raw \<Rightarrow> bnd (lift_res (decode_record C raw)) (\<lambda>rec t. case rec of
          Bytes v exp \<Rightarrow> Inr (if \<not> expired exp (wt_now_ms t) then Some v else None, t) | _ \<Rightarrow> Inr (None, t))) t1 = Inr (r, t')"
    by (auto simp: get_bytes_def bnd_Inr_iff)
  show thesis
  proof (cases raw)
    case None
    with rest raw that show ?thesis by auto
  next
    case (Some b)
    with rest obtain rec where "decode_record C b = Inr rec" and "(case rec of
        Bytes v exp \<Rightarrow> Inr (if \<not> expired exp (wt_now_ms t1) then Some v else None, t1) | _ \<Rightarrow> Inr (None, t1)) = (Inr (r, t') :: error + _)"
      by (auto simp: bnd_Inr_iff)
    then show ?thesis
      using that raw Some by (cases rec) (auto split: if_splits)
  qed
qed

lemma get_bytes_safe:
  "safe (group_inv R C cts sp) (get_bytes R C cf k) (\<lambda>r. cf = CF_QUEUE \<longrightarrow>
     (\<forall>v en. r = Some v \<longrightarrow> decode_queue_entry C v = Some en \<longrightarrow> entry_ok sp en))"
proof (rule safe_readI)
  fix t r t' assume inv: "group_inv R C cts sp t" and "get_bytes R C cf k t = Inr (r, t')"
  then obtain raw where raw: "get_raw R cf k t = Inr (raw, t')"
    and r: "\<And>v. r = Some v \<Longrightarrow> \<exists>b e. raw = Some b \<and> decode_record C b = Inr (Bytes v e) \<and> \<not> expired e (wt_now_ms t')"
    by (auto elim: get_bytes_raw)
  from safeD[OF get_raw_safe raw inv] r
  show "group_inv R C cts sp t' \<and> same_txn t t' \<and> (cf = CF_QUEUE \<longrightarrow>
      (\<forall>v en. r = Some v \<longrightarrow> decode_queue_entry C v = Some en \<longrightarrow> entry_ok sp en))"
    by (fastforce simp: raw_ok_def stored_entry_def)
qed

lemma get_bytes_safe' [safe_rules]: "safe (group_inv R C cts sp) (get_bytes R C cf k) (\<lambda>_. True)"
  by (rule safe_conseq[OF get_bytes_safe]) simp

lemma scan_list_inv:
  assumes "scan_list visit es s = Inr s'" and "J s"
    and "\<And>k b s go s'. (k, b) \<in> set es \<Longrightarrow> J s \<Longrightarrow> visit k b s = Inr (go, s') \<Longrightarrow> J s'"
  shows "J s'"
  using assms
proof (induction es arbitrary: s)
  case (Cons e es)
  obtain k b where e: "e = (k, b)" by (cases e)
  with Cons.prems obtain go s1 where v: "visit k b s = Inr (go, s1)"
    and rest: "if go then scan_list visit es s1 = Inr s' else s' = s1"
    by (auto simp: visit_then_def split: sum.splits if_splits)
  have "J s1" using Cons.prems(2,3) v e by (meson list.set_intros(1))
  with rest Cons show ?case by (metis list.set_intros(2))
qed simp

lemma scan_merged_safe:
  assumes "J s" and "\<And>k b s go s'. (cf = CF_QUEUE \<Longrightarrow> raw_ok C sp b) \<Longrightarrow> J s \<Longrightarrow> visit k b s = Inr (go, s') \<Longrightarrow> J s'"
  shows "safe (group_inv R C cts sp) (scan_merged R cf lo up visit s) J"
proof (rule safe_readI)
  fix t s' t' assume inv: "group_inv R C cts sp t" and scan: "scan_merged R cf lo up visit s t = Inr (s', t')"
  note v = scan_merged_view[OF group_invD(4)[OF inv] scan]
  have "J s'"
  proof (rule scan_list_inv[OF v(2), where J = J])
    show "J s" by (rule assms(1))
  next
    fix k b s go s' assume "(k, b) \<in> set (range_entries (txn_view cts t cf) lo up)" and J: "J s" "visit k b s = Inr (go, s')"
    then have "cf = CF_QUEUE \<Longrightarrow> raw_ok C sp b"
      using group_invD(3)[OF inv] by (auto simp: range_entries_def om_entries_iff queue_ok_raw)
    from assms(2)[OF this J] show "J s'" .
  qed
  with inv v(1) show "group_inv R C cts sp t' \<and> same_txn t t' \<and> J s'" by simp
qed

lemma scan_merged_safe' [safe_rules]: "safe (group_inv R C cts sp) (scan_merged R cf lo up visit s) (\<lambda>_. True)"
  by (rule scan_merged_safe) simp_all

lemma put_raw_safe [safe_rules]:
  assumes "\<not> hard_key cf k" and "cf = CF_QUEUE \<longrightarrow> raw_ok C sp v"
  shows "safe (group_inv R C cts sp) (put_raw R cf k v) (\<lambda>_. True)"
proof (rule safe_readI)
  fix t u t' assume inv: "group_inv R C cts sp t" and put: "put_raw R cf k v t = Inr (u, t')"
  note p = put_raw_view[OF group_invD(4)[OF inv] put]
  have "queue_ok C sp (txn_view cts t' CF_QUEUE)"
    using group_invD(3)[OF inv] assms(2) by (auto simp: p(3) queue_ok_raw)
  then show "group_inv R C cts sp t' \<and> same_txn t t' \<and> True"
    using p assms(1) by (intro conjI aux_group_inv[OF inv]) (auto simp: aux_change_def)
qed

lemma delete_raw_gone:
  assumes inv: "group_inv R C cts sp t" and del: "delete_raw R cf k t = Inr (u, t')"
    and gone: "hard_key cf k \<longrightarrow> (\<forall>b v e. om_lookup (txn_view cts t cf) k = Some b \<longrightarrow> decode_record C b = Inr (Str v e) \<longrightarrow>
           expired e (wt_now_ms t))"
  shows "group_inv R C cts sp t' \<and> same_txn t t'"
proof -
  note p = delete_raw_view[OF group_invD(4)[OF inv] del]
  have "queue_ok C sp (txn_view cts t' CF_QUEUE)"
    using group_invD(3)[OF inv] by (auto simp: p(3) queue_ok_raw split: if_splits)
  then show ?thesis
    using p gone by (intro conjI aux_group_inv[OF inv]) (auto simp: aux_change_def)
qed

lemma delete_raw_safe [safe_rules]:
  "\<not> hard_key cf k \<Longrightarrow> safe (group_inv R C cts sp) (delete_raw R cf k) (\<lambda>_. True)"
  using delete_raw_gone[of R C cts sp _ cf k] by (auto simp: safe_def)

lemma not_hard_key [simp]:
  "\<not> hard_key CF_QUEUE k" "\<not> hard_key CF_DEDUPE k" "\<not> hard_key CF_EXPIRY k"
  by (simp_all add: hard_key_def engine_key_def engine_cfs_def)

lemma write_del_safe [safe_rules]: "safe (group_inv R C cts sp) (write_del R CF_QUEUE k) (\<lambda>_. True)"
  unfolding write_del_def by (rule delete_raw_safe) simp

lemma raw_ok_str: "codec_ok C \<Longrightarrow> encode_record C (Str v e) = Inr b \<Longrightarrow> raw_ok C sp b"
  by (simp add: raw_ok_def stored_entry_def codec_okD)

lemma raw_ok_bytes:
  "codec_ok C \<Longrightarrow> encode_record C (Bytes v e) = Inr b \<Longrightarrow> (\<And>en. decode_queue_entry C v = Some en \<Longrightarrow> entry_ok sp en) \<Longrightarrow>
     raw_ok C sp b"
  by (simp add: raw_ok_def stored_entry_def codec_okD)

lemma write_expiry_safe [safe_rules]: "safe (group_inv R C cts sp) (write_expiry R C' e cf k) (\<lambda>_. True)"
  by (rule safe_readI) (auto simp: write_expiry_def Let_def bnd_Inr_iff dest: safeD[OF put_raw_safe[of CF_EXPIRY], rotated 2])

lemma put_expiring_safe:
  assumes "\<not> hard_key cf k"
    and "\<And>t b. codec_ok C \<Longrightarrow> encode_record C (rec t) = Inr b \<Longrightarrow> cf = CF_QUEUE \<Longrightarrow> raw_ok C sp b"
  shows "safe (group_inv R C cts sp) (\<lambda>t. bnd (lift_res (encode_record C (rec t))) (\<lambda>record.
    bnd (put_raw R cf k record) (\<lambda>_. if 0 < ttl then write_expiry R C (e t) cf k else ret ())) t) (\<lambda>_. True)"
proof (rule safe_readI)
  fix t u t' assume inv: "group_inv R C cts sp t"
    and run: "bnd (lift_res (encode_record C (rec t))) (\<lambda>record.
      bnd (put_raw R cf k record) (\<lambda>_. if 0 < ttl then write_expiry R C (e t) cf k else ret ())) t = Inr (u, t')"
  then obtain b t1 where b: "encode_record C (rec t) = Inr b" and put: "put_raw R cf k b t = Inr ((), t1)"
    and rest: "(if 0 < ttl then write_expiry R C (e t) cf k else ret ()) t1 = Inr (u, t')"
    by (auto simp: bnd_Inr_iff)
  have "cf = CF_QUEUE \<longrightarrow> raw_ok C sp b" using assms(2)[OF group_invD(5)[OF inv] b] by blast
  note p = safeD[OF put_raw_safe[OF assms(1) this] put inv]
  have "safe (group_inv R C cts sp) (if 0 < ttl then write_expiry R C (e t) cf k else ret ()) (\<lambda>_. True)"
    by (intro safe_rules TrueI)
  from safeD[OF this rest] p show "group_inv R C cts sp t' \<and> same_txn t t' \<and> True"
    by (blast intro: same_txn_trans)
qed

lemma write_set_str_safe [safe_rules]:
  "\<not> hard_key cf k \<Longrightarrow> safe (group_inv R C cts sp) (write_set_str R C cf k v ttl) (\<lambda>_. True)"
  unfolding write_set_str_def[abs_def] Let_def by (rule put_expiring_safe) (auto intro: raw_ok_str)

lemma set_bytes_safe [safe_rules]:
  "\<not> hard_key cf k \<Longrightarrow> (cf = CF_QUEUE \<longrightarrow> (\<forall>en. decode_queue_entry C v = Some en \<longrightarrow> entry_ok sp en)) \<Longrightarrow>
     safe (group_inv R C cts sp) (set_bytes R C cf k v ttl) (\<lambda>_. True)"
  unfolding set_bytes_def[abs_def] Let_def by (rule put_expiring_safe) (auto intro: raw_ok_bytes)

end
