(* ===== verification/Queue_Safety.thy ===== *)
theory Queue_Safety
  imports Group_Safety
begin

text \<open>
  The wait queue (\<open>src/src/queue.rs\<close>) keeps the invariant of its group: its own rows hold requests that
  passed the checks, and a grant sweep runs the engine on such requests only.
\<close>

lemma safe_state: "(\<And>t. safe I (m t) Q) \<Longrightarrow> safe I (\<lambda>t. m t t) Q"
  unfolding safe_def by blast

lemma not_lock_meta [simp]:
  "\<not> lock_meta_key META_QUEUE_SEQ_KEY" "\<not> lock_meta_key META_QUEUE_COUNT_KEY"
  "\<not> lock_meta_key META_FENCE_COUNTER_KEY" "\<not> lock_meta_key META_GC_CURSOR_KEY"
  "\<not> lock_meta_key META_LAST_NOW_KEY" "\<not> lock_meta_key META_LAST_APPLIED_KEY"
  "\<not> lock_meta_key (group_record_key g)" "\<not> lock_meta_key (draining_key n)"
  by (simp_all add: lock_meta_key_def META_QUEUE_SEQ_KEY_def META_QUEUE_COUNT_KEY_def
      META_FENCE_COUNTER_KEY_def META_GC_CURSOR_KEY_def META_LAST_NOW_KEY_def META_LAST_APPLIED_KEY_def
      group_record_key_def draining_key_def)

lemma lift_safe [safe_rules]: "safe I (lift_res r) (\<lambda>_. True)"
  by (rule safe_lift) simp

lemma loops_safe [safe_rules]:
  "(\<And>x. x \<in> set xs \<Longrightarrow> safe I (f x) (\<lambda>_. True)) \<Longrightarrow> safe I (for_each f xs) (\<lambda>_. True)"
  "(\<And>x. x \<in> set xs \<Longrightarrow> safe I (g x) (\<lambda>_. True)) \<Longrightarrow> safe I (first_some g xs) (\<lambda>_. True)"
  "(\<And>x acc. x \<in> set xs \<Longrightarrow> safe I (h x acc) (\<lambda>_. True)) \<Longrightarrow> safe I (fold_each h xs a) (\<lambda>_. True)"
  by (simp_all add: safe_for_each safe_first_some safe_fold_each)

declare TrueI [safe_rules]

section \<open>Counters, entries and indexes\<close>

lemma owner_seq_safe [safe_rules]: "safe (group_inv R C cts sp) (owner_seq R C o') (\<lambda>_. True)"
  unfolding owner_seq_def by (intro safe_rules)

lemma read_entry_safe:
  "safe (group_inv R C cts sp) (read_entry R C seq) (\<lambda>r. \<forall>en. r = Some en \<longrightarrow> entry_ok sp en)"
  unfolding read_entry_def
  by (rule safe_bnd[OF get_bytes_safe], rule safe_ret) (auto simp: bind_eq_Some_conv)

lemma read_entry_safe' [safe_rules]: "safe (group_inv R C cts sp) (read_entry R C seq) (\<lambda>_. True)"
  by (rule safe_conseq[OF read_entry_safe]) simp

lemma path_indexes_safe [safe_rules]:
  "safe (group_inv R C cts sp) (delete_path_indexes R en) (\<lambda>_. True)"
  "safe (group_inv R C cts sp) (write_path_indexes R C en ttl) (\<lambda>_. True)"
  unfolding delete_path_indexes_def write_path_indexes_def
  by (rule safe_for_each; clarsimp; intro safe_rules; simp)+

lemma set_queue_count_safe [safe_rules]: "safe (group_inv R C cts sp) (set_queue_count R C n) (\<lambda>_. True)"
  unfolding set_queue_count_def by (intro safe_rules) simp_all

lemma queue_count_safe [safe_rules]: "safe (group_inv R C cts sp) (queue_count R C) (\<lambda>_. True)"
  unfolding queue_count_def by (intro safe_rules)

lemma units_safe [safe_rules]:
  "safe (group_inv R C cts sp) (reserve_queue_units R C m n) (\<lambda>_. True)"
  "safe (group_inv R C cts sp) (release_queue_units R C n) (\<lambda>_. True)"
  unfolding reserve_queue_units_def release_queue_units_def Let_def by (intro safe_rules; simp)+

lemma next_seq_safe [safe_rules]: "safe (group_inv R C cts sp) (next_seq R C) (\<lambda>_. True)"
  unfolding next_seq_def Let_def by (intro safe_rules) simp_all

lemma expire_entry_safe [safe_rules]: "safe (group_inv R C cts sp) (expire_entry R C k) (\<lambda>_. True)"
  unfolding expire_entry_def
  by (auto intro!: safe_rules split: sum.split stored_record.split)

lemma dequeue_safe [safe_rules]: "safe (group_inv R C cts sp) (dequeue R C o') (\<lambda>_. True)"
  unfolding dequeue_def by (intro safe_rules)

lemma encode_entry_ok:
  "queue_codec_ok C \<Longrightarrow> entry_encode C en = Inr b \<Longrightarrow> decode_queue_entry C b = Some en"
  by (simp add: queue_codec_ok_def decode_queue_entry_def)

lemma store_entry_safe:
  assumes "entry_ok sp en" and "safe (group_inv R C cts sp) k Q"
  shows "safe (group_inv R C cts sp)
    (bnd (lift_res (entry_encode C en)) (\<lambda>b. bnd (set_bytes R C CF_QUEUE key b ttl) (\<lambda>_. k))) Q"
proof (rule safe_readI)
  fix t a t' assume inv: "group_inv R C cts sp t"
    and run: "bnd (lift_res (entry_encode C en)) (\<lambda>b. bnd (set_bytes R C CF_QUEUE key b ttl) (\<lambda>_. k)) t = Inr (a, t')"
  then obtain b where b: "entry_encode C en = Inr b"
    and rest: "bnd (set_bytes R C CF_QUEUE key b ttl) (\<lambda>_. k) t = Inr (a, t')"
    by (auto simp: bnd_Inr_iff)
  have "safe (group_inv R C cts sp) (bnd (set_bytes R C CF_QUEUE key b ttl) (\<lambda>_. k)) Q"
    using encode_entry_ok[OF group_invD(2)[OF inv] b] assms by (intro safe_then set_bytes_safe) auto
  from safeD[OF this rest inv] show "group_inv R C cts sp t' \<and> same_txn t t' \<and> Q a" .
qed

lemma enqueue_safe:
  assumes "args_ok sp ns policy args"
  shows "safe (group_inv R C cts sp) (enqueue R C ns args policy) (\<lambda>_. True)"
  unfolding enqueue_def Let_def
proof (rule safe_then[OF owner_seq_safe], rule safe_then, goal_cases)
  case (1 found)
  show ?case by (intro safe_rules)
next
  case (2 found slot)
  obtain seq units where [simp]: "slot = (seq, units)" by (cases slot)
  show ?case
    unfolding \<open>slot = (seq, units)\<close> prod.case
    by (rule safe_then[OF units_safe(1)], rule store_entry_safe)
      (use assms in \<open>simp add: entry_ok_def\<close>, intro safe_rules, simp)
qed

section \<open>Scans\<close>

abbreviation all_ok :: "(string \<Rightarrow> bool) \<Rightarrow> queue_entry list \<Rightarrow> bool" where
  "all_ok sp es \<equiv> \<forall>en \<in> set es. entry_ok sp en"

lemma live_entry_ok: "raw_ok C sp b \<Longrightarrow> live_entry C now b = Some en \<Longrightarrow> entry_ok sp en"
  by (auto simp: raw_ok_def stored_entry_def live_entry_def split: sum.splits stored_record.splits if_splits)

lemma queue_scan_visit_ok:
  assumes "queue_scan_visit C now k v s = Inr (b, s')" and "raw_ok C sp v" and "all_ok sp (fst s)"
  shows "all_ok sp (fst s')"
proof (cases s)
  case (Pair out raw)
  with assms show ?thesis
    using live_entry_ok[OF assms(2), of now]
    by (cases "decode_queue_entry_seq k"; cases "live_entry C now v") (auto simp: queue_scan_visit_def)
qed

lemma queue_scan_safe: "safe (group_inv R C cts sp) (queue_scan R C) (all_ok sp)"
  unfolding queue_scan_def[abs_def]
proof (rule safe_state, rule safe_bnd)
  fix t
  show "safe (group_inv R C cts sp) (scan_merged R CF_QUEUE (Some queue_entry_lower) (Some queue_entry_upper)
      (queue_scan_visit C (wt_now_ms t)) ([], 0)) (\<lambda>s. all_ok sp (fst s))"
    by (rule scan_merged_safe) (simp_all add: queue_scan_visit_ok)
qed (auto intro!: safe_ret split: prod.split)

lemma scan_all_safe: "safe (group_inv R C cts sp) (scan_all R C) (all_ok sp)"
  unfolding scan_all_def[abs_def]
  by (rule safe_state, rule scan_merged_safe)
    (auto simp: scan_all_visit_def split: option.splits if_splits dest: live_entry_ok)

lemma queue_clear_namespace_safe [safe_rules]:
  "safe (group_inv R C cts sp) (queue_clear_namespace R C ns legacy preserved) (\<lambda>_. True)"
  unfolding queue_clear_namespace_def Let_def
  by (rule safe_bnd[OF scan_all_safe], rule safe_fold_each) (auto intro!: safe_rules)

lemma seqs_scan_safe:
  "safe (group_inv R C cts sp) (\<lambda>t. bnd (scan_merged R CF_QUEUE lo up (visit t) s)
     (\<lambda>(raw, exceeded, out). if exceeded then fail e else ret out) t) (\<lambda>_. True)"
  by (rule safe_state[where m = "\<lambda>t. bnd (scan_merged R CF_QUEUE lo up (visit t) s)
     (\<lambda>(raw, exceeded, out). if exceeded then fail e else ret out)"], intro safe_rules)

lemma collect_safe [safe_rules]:
  "safe (group_inv R C cts sp) (collect_exact_path_seqs R C p out) (\<lambda>_. True)"
  "safe (group_inv R C cts sp) (collect_prefixed_path_seqs R C p out) (\<lambda>_. True)"
  unfolding collect_exact_path_seqs_def[abs_def] collect_prefixed_path_seqs_def[abs_def] Let_def
  by (rule seqs_scan_safe, cases "queue_index_prefix_range p") (simp only: prod.case seqs_scan_safe)

lemma owner_holds_or_covers_safe [safe_rules]:
  "safe (group_inv R C cts sp) (owner_holds_or_covers R C o' p m alg) (\<lambda>_. True)"
  unfolding owner_holds_or_covers_def by (intro safe_rules)

lemma blocked_by_earlier_safe [safe_rules]:
  "safe (group_inv R C cts sp) (blocked_by_earlier R C ns args policy) (\<lambda>_. True)"
  unfolding blocked_by_earlier_def Let_def by (intro safe_rules) (auto split: prod.split intro!: safe_rules)

section \<open>Grant sweeps\<close>

definition tries_ok :: "('db write_txn \<Rightarrow> bool) \<Rightarrow> (string \<Rightarrow> bool) \<Rightarrow> 'db write_txn try_acquire \<Rightarrow> bool" where
  "tries_ok I sp attempt \<longleftrightarrow> (\<forall>ns args policy. args_ok sp ns policy args \<longrightarrow> safe I (attempt ns args policy) (\<lambda>_. True))"

lemma safe_outcome:
  assumes "\<And>fences. safe I (f fences) Q" and "\<And>owner path reason. safe I (g owner path reason) Q"
    and "\<And>path reason. safe I (h path reason) Q" and "\<And>owner path reason position. safe I (k owner path reason position) Q"
  shows "safe I (case outcome of AcqOk fences \<Rightarrow> f fences | Conflict owner path reason \<Rightarrow> g owner path reason
    | Lost path reason \<Rightarrow> h path reason | Queued owner path reason position \<Rightarrow> k owner path reason position) Q"
  using assms by (cases outcome) simp_all

lemma run_grant_sweep_safe:
  assumes "tries_ok (group_inv R C cts sp) sp attempt" and "all_ok sp es"
  shows "safe (group_inv R C cts sp) (run_grant_sweep R C attempt es reserved notify) (\<lambda>_. True)"
  using assms(2)
proof (induction es arbitrary: reserved notify)
  case (Cons en es)
  then have attempt: "safe (group_inv R C cts sp) (attempt (qe_namespace en) (qe_args en) (qe_policy en)) (\<lambda>_. True)"
    and IH: "\<And>reserved notify. safe (group_inv R C cts sp) (run_grant_sweep R C attempt es reserved notify) (\<lambda>_. True)"
    using assms(1) by (auto simp: tries_ok_def entry_ok_def)
  show ?case
    unfolding run_grant_sweep.simps Let_def
    by (intro safe_if IH safe_then[OF attempt] safe_outcome) (intro IH safe_rules)+
qed (auto intro: safe_ret)

lemma grant_sweep_safe:
  assumes "tries_ok (group_inv R C cts sp) sp attempt"
  shows "safe (group_inv R C cts sp) (grant_sweep R C attempt) (\<lambda>_. True)"
  unfolding grant_sweep_def by (rule safe_bnd[OF queue_scan_safe run_grant_sweep_safe[OF assms]])

lemma grant_sweep_for_paths_safe:
  assumes "tries_ok (group_inv R C cts sp) sp attempt"
  shows "safe (group_inv R C cts sp) (grant_sweep_for_paths R C attempt freed) (\<lambda>_. True)"
proof -
  have entries: "safe (group_inv R C cts sp) (fold_each (\<lambda>seq entries.
      bnd (read_entry R C seq) (\<lambda>e. ret (case e of Some entry \<Rightarrow> entries @ [entry] | None \<Rightarrow> entries))) seqs []) (all_ok sp)" for seqs
    by (rule safe_fold_each) (auto intro!: safe_bnd[OF read_entry_safe] safe_ret split: option.splits)
  show ?thesis
    unfolding grant_sweep_for_paths_def
    apply (rule safe_if, (intro safe_rules)[1], rule safe_then)
     apply (rule loops_safe)
     apply (intro safe_rules)
    apply (rule safe_if, (intro safe_rules)[1])
    apply (rule safe_bnd[OF entries])
    apply (rule run_grant_sweep_safe[OF assms])
    apply assumption
    done
qed

end
