(* ===== verification/Machine_Safety.thy ===== *)
theory Machine_Safety
  imports Queue_Safety Log_Store
begin

text \<open>
  Every command of the state machine (\<open>src/src/raft/state_machine.rs\<close>) keeps the invariant of its group,
  so it holds of every database that a log of commands leads to, whatever the order of the commands.
\<close>

section \<open>Engine operations\<close>

lemma engine_safe:
  assumes "keeps (engine_frame R cts) m"
    and "\<And>t a t'. engine_inv R C cts sp t \<Longrightarrow> m t = Inr (a, t') \<Longrightarrow> engine_inv R C cts sp t'"
  shows "safe (group_inv R C cts sp) m (\<lambda>_. True)"
proof (rule safe_readI)
  fix t a t' assume inv: "group_inv R C cts sp t" and run: "m t = Inr (a, t')"
  from engine_group_inv[OF inv keepsD[OF assms(1) run] assms(2)[OF group_invD(1)[OF inv] run]]
    keepsD[OF assms(1) run] group_invD(4)[OF inv]
  show "group_inv R C cts sp t' \<and> same_txn t t' \<and> True" by (simp add: engine_frame_def)
qed

lemma acquire_safe:
  "args_ok sp ns policy args \<Longrightarrow>
     safe (group_inv R C cts sp) (acquire_inner_in_namespace (write_store R C) args policy ns) (\<lambda>_. True)"
  by (rule engine_safe[OF wf.acquire_keep]) (rule acquire_run(1))

lemma release_safe:
  assumes "nul_free o'" and "nul_free ns" and "\<forall>r \<in> set reqs. nul_free (rr_path r)"
  shows "safe (group_inv R C cts sp) (release_inner_in_namespace (write_store R C) ns o' reqs del_wait) (\<lambda>_. True)"
proof (rule engine_safe)
  show "keeps (engine_frame R cts) (release_inner_in_namespace (write_store R C) ns o' reqs del_wait)"
    by (rule wf.releases_keep)
  show "engine_inv R C cts sp t'" if inv: "engine_inv R C cts sp t"
    and run: "release_inner_in_namespace (write_store R C) ns o' reqs del_wait t = Inr (a, t')" for t a t'
    using release_run[OF inv assms run] by (blast intro: releases_engine_inv[OF inv])
qed

lemma release_all_run:
  assumes inv: "engine_inv R C cts sp t" and "nul_free o'"
    and run: "release_owner_wide (write_store R C) o' del_wait t = Inr (u, t')"
  shows "engine_inv R C cts sp t'"
proof -
  have "lock_inv sp (lock_state_of C cts t)" using inv by (simp add: engine_inv_def)
  from engine_run[OF wt.release_owner_wide_spec[OF assms(2) this] inv run]
  show ?thesis by (blast intro: releases_engine_inv[OF inv])
qed

lemma release_all_safe:
  assumes "nul_free o'"
  shows "safe (group_inv R C cts sp) (release_all_inner (write_store R C) o' del_wait) (\<lambda>_. True)"
    and "safe (group_inv R C cts sp) (force_release_inner (write_store R C) o') (\<lambda>_. True)"
  using wf.release_all_keep[of R cts C o'] release_all_run[OF _ assms]
  by (auto intro!: engine_safe simp: release_all_inner_def force_release_inner_def)

lemma write_has_live_member_safe [safe_rules]: "safe (group_inv R C cts sp) (write_has_live_member R C' cf k) (\<lambda>_. True)"
  by (auto simp: safe_def write_has_live_member_def)

lemma write_pexpire_str_safe [safe_rules]:
  "\<not> hard_key cf k \<Longrightarrow> safe (group_inv R C cts sp) (write_pexpire_str R C cf k ttl) (\<lambda>_. True)"
  unfolding write_pexpire_str_def by (intro safe_rules)

lemma write_del_soft_safe: "\<not> hard_key cf k \<Longrightarrow> safe (group_inv R C cts sp) (write_del R cf k) (\<lambda>_. True)"
  unfolding write_del_def by (rule delete_raw_safe)

lemma renew_safe [safe_rules]: "safe (group_inv R C cts sp) (renew_inner (write_store R C) o' ttl) (\<lambda>_. True)"
  unfolding renew_inner_def Let_def write_store_simps by (intro safe_rules) simp

lemma revoke_safe [safe_rules]: "safe (group_inv R C cts sp) (request_revoke_inner (write_store R C) o' ttl) (\<lambda>_. True)"
  unfolding request_revoke_inner_def write_store_simps by (intro safe_rules) simp

lemma wait_edge_safe [safe_rules]:
  "safe (group_inv R C cts sp) (set_wait_edge_inner (write_store R C) o' x ttl md) (\<lambda>_. True)"
  "safe (group_inv R C cts sp) (clear_wait_edge_inner (write_store R C) o') (\<lambda>_. True)"
  unfolding set_wait_edge_inner_def clear_wait_edge_inner_def write_store_simps
  by (rule write_set_str_safe write_del_soft_safe, simp)+

lemma policy_safe [safe_rules]:
  "safe (group_inv R C cts sp) (get_namespace_policy_record_inner (write_store R C) ns alg) (\<lambda>_. True)"
  "safe (group_inv R C cts sp) (delete_namespace_policy_inner (write_store R C) ns) (\<lambda>_. True)"
  unfolding get_namespace_policy_record_inner_def delete_namespace_policy_inner_def write_store_simps
  by (intro safe_rules write_del_soft_safe; simp)+

lemma set_policy_safe [safe_rules]:
  "safe (group_inv R C cts sp) (set_namespace_policy_inner (write_store R C) ns alg) (\<lambda>_. True)"
  unfolding set_namespace_policy_inner_def Let_def write_store_simps by (intro safe_rules) simp

section \<open>Acquire\<close>

lemma tries_ok_waiter: "tries_ok (group_inv R C cts sp) sp (try_waiter R C)"
  by (simp add: tries_ok_def try_waiter_def acquire_safe)

lemma sweeps_safe [safe_rules]:
  "safe (group_inv R C cts sp) (sweep_grants R C) (\<lambda>_. True)"
  "safe (group_inv R C cts sp) (sweep_grants_for_paths R C freed) (\<lambda>_. True)"
  unfolding sweep_grants_def sweep_grants_for_paths_def
  by (rule grant_sweep_safe grant_sweep_for_paths_safe, rule tries_ok_waiter)+

lemma fence_counter_safe [safe_rules]:
  "safe (group_inv R C cts sp) (read_fence_counter R C) (\<lambda>_. True)"
  "safe (group_inv R C cts sp) (incr_fence_inner R C) (\<lambda>_. True)"
  unfolding incr_fence_inner_def read_fence_counter_def Let_def by (intro safe_rules; simp)+

lemma mint_safe:
  "safe (group_inv R C cts sp) (mint_fence_if_needed R C ns args alg) (\<lambda>a. \<exists>token. a = args\<lparr>aa_fencing_token := token\<rparr>)"
proof -
  have "\<exists>token. args = args\<lparr>aa_fencing_token := token\<rparr>" by (rule exI[of _ "aa_fencing_token args"]) simp
  then show ?thesis
    unfolding mint_fence_if_needed_def Let_def
    by (intro safe_if safe_ret safe_then safe_rules) (auto intro: safe_ret)
qed

lemma args_ok_token [simp]: "args_ok sp ns policy (args\<lparr>aa_fencing_token := token\<rparr>) = args_ok sp ns policy args"
  by (simp add: args_ok_def)

lemma execute_acquire_safe:
  assumes "args_ok sp ns policy args"
  shows "safe (group_inv R C cts sp) (execute_acquire R C ns args policy) (\<lambda>_. True)"
  unfolding execute_acquire_def Let_def
proof (rule safe_bnd[OF mint_safe], goal_cases)
  case (1 a)
  then have ok: "args_ok sp ns policy a" using assms by auto
  note rules = enqueue_safe[OF ok] acquire_safe[OF ok]
  show ?case by (intro safe_outcome rules safe_rules)
qed

section \<open>Namespace transitions\<close>

lemma double_nul_nul_free: "nul_free q \<Longrightarrow> double_nul (q @ NUL # NUL # r) = Some (length q)"
proof (induction q)
  case (Cons c q)
  then show ?case by (cases q) auto
qed simp

lemma parse_member_namespace: "parse_member m = Some h \<Longrightarrow> nul_free (hl_namespace h)"
  by (auto simp: parse_member_def held_lock_new_def split: option.splits if_splits dest!: split_once_SomeD)

text \<open>A row of the hold sets names a NUL-free owner, namespace and path.\<close>

lemma hold_row_nul_free:
  assumes coh: "coherent (write_state C cts t)"
    and row: "om_lookup (txn_view cts t CF_OWNER_HOLDS) k = Some b" "hold_row C (wt_now_ms t) k b = Some (owner, held)"
  shows "nul_free owner \<and> nul_free (hl_namespace held) \<and> nul_free (hl_path held)"
proof -
  from row(2) obtain sep m e where sep: "double_nul k = Some sep" "owner = take sep k"
    and dec: "decode_record C b = Inr (Str m e)" and held: "parse_member m = Some held"
    by (auto simp: hold_row_def Let_def decode_record_lenient_def decode_record_def live_str_def bind_eq_Some_conv
        split: option.splits if_splits sum.splits stored_record.splits)
  have "s_view (write_state C cts t) CF_OWNER_HOLDS k = Some (m, e)"
    using row(1) dec by (simp add: write_state_def view_state_def str_view_def str_record_def)
  moreover have "own_keyed (write_state C cts t)" "set_coherent member_ok (write_state C cts t) CF_OWNER_HOLDS"
    using coh by (auto simp: coherent_def)
  ultimately obtain q where q: "nul_free q" "k = member_key (q @ [NUL]) m" and "member_ok m"
    unfolding own_keyed_def set_coherent_def by metis
  with sep held double_nul_nul_free[OF q(1), of m] parse_member_namespace[OF held] show ?thesis
    by (auto simp: member_key_def member_prefix_def member_ok_def)
qed

definition holds_nul_free :: "(string \<times> string \<times> string \<times> string) list \<Rightarrow> bool" where
  "holds_nul_free hs \<longleftrightarrow> (\<forall>(owner, ns, m, p) \<in> set hs. nul_free owner \<and> nul_free ns \<and> nul_free p)"

lemma collect_holds_safe:
  "safe (group_inv R C cts sp) (collect_namespace_holds R C ns legacy preserved) holds_nul_free"
proof (rule safe_readI)
  fix t hs t' assume inv: "group_inv R C cts sp t"
    and run: "collect_namespace_holds R C ns legacy preserved t = Inr (hs, t')"
  note v = scan_merged_view[OF group_invD(4)[OF inv] run[unfolded collect_namespace_holds_def]]
  have coh: "coherent (write_state C cts t)" using group_invD(1)[OF inv] by (simp add: engine_inv_def)
  have "holds_nul_free hs"
  proof (rule scan_list_inv[OF v(2), where J = holds_nul_free])
    fix k b s go s' assume "(k, b) \<in> set (range_entries (txn_view cts t CF_OWNER_HOLDS) None None)"
      and J: "holds_nul_free s" and visit: "namespace_holds_visit C (wt_now_ms t) ns legacy preserved k b s = Inr (go, s')"
    then have "om_lookup (txn_view cts t CF_OWNER_HOLDS) k = Some b" by (simp add: range_entries_def om_entries_iff)
    from hold_row_nul_free[OF coh this] J visit show "holds_nul_free s'"
      by (auto simp: namespace_holds_visit_def holds_nul_free_def Let_def split: option.splits if_splits)
  qed (simp add: holds_nul_free_def)
  with inv v(1) show "group_inv R C cts sp t' \<and> same_txn t t' \<and> holds_nul_free hs" by simp
qed

definition grouped_nul_free :: "(string \<times> string, rel_req list) omap \<Rightarrow> bool" where
  "grouped_nul_free m \<longleftrightarrow> (\<forall>ns owner reqs. om_lookup m (ns, owner) = Some reqs \<longrightarrow>
     nul_free ns \<and> nul_free owner \<and> (\<forall>r \<in> set reqs. nul_free (rr_path r)))"

lemma grouped_insert:
  assumes "grouped_nul_free m" and "nul_free ns" and "nul_free owner" and "nul_free p"
  shows "grouped_nul_free (om_insert (ns, owner)
    ((case om_lookup m (ns, owner) of Some rs \<Rightarrow> rs | None \<Rightarrow> []) @ [\<lparr> rr_path = p, rr_mode = md \<rparr>]) m)"
  using assms by (cases "om_lookup m (ns, owner)") (auto simp: grouped_nul_free_def)

lemma group_holds_nul_free:
  assumes "holds_nul_free hs"
  shows "grouped_nul_free (group_holds hs)"
proof -
  have "grouped_nul_free (fold (\<lambda>(owner, held_namespace, mode, path) by_owner.
       let m = (if mode = ''read'' then Read else Write);
           k = (held_namespace, owner);
           reqs = (case om_lookup by_owner k of Some rs \<Rightarrow> rs | None \<Rightarrow> []) in
       om_insert k (reqs @ [\<lparr> rr_path = path, rr_mode = m \<rparr>]) by_owner) hs m)"
    if "grouped_nul_free m" for m
    using assms that
    by (induction hs arbitrary: m) (auto simp: holds_nul_free_def Let_def intro!: grouped_insert)
  from this[of om_empty] show ?thesis by (simp add: group_holds_def grouped_nul_free_def)
qed

lemma clear_namespace_safe [safe_rules]:
  "safe (group_inv R C cts sp) (clear_namespace R C ns legacy) (\<lambda>_. True)"
  unfolding clear_namespace_def
proof (rule safe_then, goal_cases)
  case 1
  show ?case
    by (intro safe_if safe_rules safe_state[where m = "\<lambda>t. scan_merged R CF_NAMESPACE_SETTINGS None None
        (preserved_visit C (wt_now_ms t) ns) []"])
next
  case (2 preserved)
  show ?case
  proof (rule safe_bnd[OF collect_holds_safe], rule safe_then, goal_cases)
    case (1 hs)
    then have "grouped_nul_free (group_holds hs)" by (rule group_holds_nul_free)
    then show ?case
      by (intro loops_safe)
        (auto simp: grouped_nul_free_def om_entries_iff intro!: safe_then release_safe safe_ret)
  next
    case (2 hs affected)
    show ?case by (intro safe_rules)
  qed
qed

section \<open>The expiry sweep\<close>

lemma safe_clock:
  "safe I m Q \<Longrightarrow> safe (\<lambda>t. I t \<and> wt_now_ms t = now) m Q"
  unfolding safe_def same_txn_def by metis

text \<open>A record is reclaimed after it expired; that of an owner takes the owner's locks with it.\<close>

lemma gc_delete_safe:
  assumes inv: "group_inv R C cts sp t" and now: "wt_now_ms t = now" and raw: "get_raw R cf k t = Inr (Some b, t1)"
    and dead: "\<And>v e. decode_record C b = Inr (Str v e) \<Longrightarrow> expired e now" and del: "delete_raw R cf k t1 = Inr (u, t2)"
  shows "group_inv R C cts sp t2 \<and> same_txn t t2"
proof -
  note v = get_raw_view[OF group_invD(4)[OF inv] raw]
  from safeD[OF get_raw_safe' raw inv] have inv1: "group_inv R C cts sp t1" by simp
  have "group_inv R C cts sp t2 \<and> same_txn t1 t2"
    using v now dead by (intro delete_raw_gone[OF inv1 del]) (auto simp: same_txn_def)
  with v(4) show ?thesis by (blast intro: same_txn_trans)
qed

lemma gc_reclaim_safe:
  "safe (\<lambda>t. group_inv R C cts sp t \<and> wt_now_ms t = now) (gc_reclaim R C now cf k) (\<lambda>_. True)"
proof (cases "cf = CF_OWNER_ALIVE \<or> cf = CF_QUEUE")
  case True
  then have soft: "\<not> hard_key cf k" by auto
  show ?thesis
    unfolding gc_reclaim_def Let_def by (rule safe_clock, intro release_all_safe safe_rules soft) simp_all
next
  case False
  show ?thesis
  proof (rule safe_readI)
    fix t a t' assume inv: "group_inv R C cts sp t \<and> wt_now_ms t = now" and run: "gc_reclaim R C now cf k t = Inr (a, t')"
    then have "group_inv R C cts sp t' \<and> same_txn t t'"
      using False
      by (auto simp: gc_reclaim_def Let_def bnd_Inr_iff split: option.splits sum.splits stored_record.splits if_splits
          dest: safeD[OF get_raw_safe'] elim: gc_delete_safe[THEN conjunct1] gc_delete_safe[THEN conjunct2])
    then show "(group_inv R C cts sp t' \<and> wt_now_ms t' = now) \<and> same_txn t t' \<and> True"
      using inv by (simp add: same_txn_def)
  qed
qed

lemma gc_entry_safe:
  "safe (\<lambda>t. group_inv R C cts sp t \<and> wt_now_ms t = now) (gc_entry R C now key acc) (\<lambda>_. True)"
  unfolding gc_entry_def
  by (intro safe_pair safe_then safe_option safe_ret TrueI gc_reclaim_safe safe_clock[OF delete_raw_safe]) simp

lemma gc_sweep_safe:
  "safe (\<lambda>t. group_inv R C cts sp t \<and> wt_now_ms t = now) (gc_sweep R C now batch) (\<lambda>_. True)"
  unfolding gc_sweep_def
  by (intro safe_then safe_pair safe_if safe_ret TrueI loops_safe gc_entry_safe
      safe_clock[OF get_raw_safe'] safe_clock[OF scan_merged_safe'] safe_clock[OF put_raw_safe]) simp_all

section \<open>Commands\<close>

text \<open>
  What the service checks of an operation before it is proposed. \<open>sp\<close> says which key paths are semaphores:
  the algorithm stamped on an acquire agrees with it.
\<close>

definition op_ok :: "(string \<Rightarrow> bool) \<Rightarrow> op \<Rightarrow> bool" where
  "op_ok sp op \<longleftrightarrow>
     (case op of
        Release ns owner reqs _ \<Rightarrow> nul_free owner \<and> nul_free ns \<and> (\<forall>r \<in> set reqs. nul_free (rr_path r))
      | ReleaseAll owner _ \<Rightarrow> nul_free owner
      | ForceRelease owner \<Rightarrow> nul_free owner
      | AcquireInNamespace ns policy args \<Rightarrow> args_ok sp ns policy args
      | _ \<Rightarrow> True)"

lemma directory_safe [safe_rules]:
  "safe (group_inv R C cts sp) (apply_directory_update R enc g rec) (\<lambda>_. True)"
  "safe (group_inv R C cts sp) (apply_set_draining R n b) (\<lambda>_. True)"
  unfolding apply_directory_update_def apply_set_draining_def by (intro safe_rules; simp)+

lemma stale_safe [safe_rules]:
  "safe (group_inv R C cts sp) (reject_stale_routing R C ns args) (\<lambda>_. True)"
  "safe (group_inv R C cts sp) (reject_stale_policy_epoch R C ns policy alg) (\<lambda>_. True)"
proof -
  let ?m = "\<lambda>t. bnd (scan_merged R CF_NAMESPACE_SETTINGS None None (routing_roots_visit C (wt_now_ms t)) [])"
  have "safe (group_inv R C cts sp) (\<lambda>t. ?m t f t) (\<lambda>_. True)"
    if "\<And>a. safe (group_inv R C cts sp) (f a) (\<lambda>_. True)" for f :: "_ \<Rightarrow> (_, apply_response option) txm"
    by (rule safe_state[where m = "\<lambda>t. ?m t f"]) (intro safe_then scan_merged_safe' that)
  note scan = this
  show "safe (group_inv R C cts sp) (reject_stale_routing R C ns args) (\<lambda>_. True)"
    unfolding reject_stale_routing_def[abs_def] Let_def by (rule scan) (intro safe_rules)
  show "safe (group_inv R C cts sp) (reject_stale_policy_epoch R C ns policy alg) (\<lambda>_. True)"
    unfolding reject_stale_policy_epoch_def by (intro safe_rules)
qed

lemma execute_op_safe:
  assumes "op_ok sp (cmd_op cmd)" and "\<And>n batch. cmd_op cmd \<noteq> GcSweep n batch"
  shows "safe (group_inv R C cts sp) (execute_op R C cmd now alg) (\<lambda>_. True)"
proof (cases "cmd_op cmd")
  case (AcquireInNamespace ns policy args)
  then have ok: "args_ok sp ns policy args" using assms(1) by (simp add: op_ok_def)
  show ?thesis
    unfolding execute_op_def Let_def AcquireInNamespace op.case by (intro execute_acquire_safe[OF ok] safe_rules)
next
  case (Release ns o' reqs del_wait)
  then have ok: "nul_free o'" "nul_free ns" "\<forall>r \<in> set reqs. nul_free (rr_path r)"
    using assms(1) by (auto simp: op_ok_def)
  show ?thesis unfolding execute_op_def Let_def Release op.case by (intro release_safe[OF ok] safe_rules)
next
  case (ReleaseAll o' del_wait)
  then have ok: "nul_free o'" using assms(1) by (simp add: op_ok_def)
  show ?thesis unfolding execute_op_def Let_def ReleaseAll op.case by (intro release_all_safe[OF ok] safe_rules)
next
  case (ForceRelease o')
  then have ok: "nul_free o'" using assms(1) by (simp add: op_ok_def)
  show ?thesis unfolding execute_op_def Let_def ForceRelease op.case by (intro release_all_safe[OF ok] safe_rules)
next
  case (GcSweep n batch)
  then show ?thesis using assms(2) by blast
qed (unfold execute_op_def Let_def, simp_all only: op.case, (intro safe_rules)+)

lemma execute_op_run:
  assumes ok: "op_ok sp (cmd_op cmd)" and inv: "group_inv R C cts sp t"
    and run: "execute_op R C cmd (wt_now_ms t) alg t = Inr (resp, t')"
  shows "group_inv R C cts sp t' \<and> same_txn t t'"
proof (cases "\<exists>n batch. cmd_op cmd = GcSweep n batch")
  case True
  then obtain n batch where op: "cmd_op cmd = GcSweep n batch" by blast
  from run obtain r t1 where gc: "gc_sweep R C (wt_now_ms t) batch t = Inr (r, t1)"
    and rest: "(case r of (scanned, reclaimed, may_unblock) \<Rightarrow>
        bnd (if may_unblock then sweep_grants R C else ret []) (\<lambda>granted. ret (RespGc scanned reclaimed granted))) t1 = Inr (resp, t')"
    by (auto simp: execute_op_def op bnd_Inr_iff)
  have inv1: "group_inv R C cts sp t1" and same: "same_txn t t1" using safeD[OF gc_sweep_safe gc] inv by auto
  have after: "safe (group_inv R C cts sp) (case r of (scanned, reclaimed, may_unblock) \<Rightarrow>
      bnd (if may_unblock then sweep_grants R C else ret []) (\<lambda>granted. ret (RespGc scanned reclaimed granted))) (\<lambda>_. True)"
    by (intro safe_rules)
  from safeD[OF after rest inv1] same show ?thesis by (blast intro: same_txn_trans)
next
  case False
  then have "safe (group_inv R C cts sp) (execute_op R C cmd (wt_now_ms t) alg) (\<lambda>_. True)"
    by (intro execute_op_safe[OF ok]) simp
  from safeD[OF this run inv] show ?thesis by simp
qed

section \<open>Databases\<close>

text \<open>The rows of group \<open>g\<close> satisfy the invariant; the clock of the transaction that reads them does not matter.\<close>

definition db_inv ::
    "'db rocksdb \<Rightarrow> 'c queue_codec_scheme \<Rightarrow> ('db \<Rightarrow> cf \<Rightarrow> (bytes, bytes) omap) \<Rightarrow> (string \<Rightarrow> bool) \<Rightarrow> group_id \<Rightarrow> 'db \<Rightarrow> bool" where
  "db_inv R C cts sp g d \<longleftrightarrow> group_inv R C cts sp (write_txn_new d g 0)"

lemma group_inv_view:
  assumes "group_inv R C cts sp t" and "txn_view cts t' = txn_view cts t" and "txn_ok R cts t'"
  shows "group_inv R C cts sp t'"
  using assms by (intro aux_group_inv[OF assms(1)]) (auto simp: aux_change_def group_inv_def)

lemma db_inv_view:
  assumes "group_inv R C cts sp t" and "\<And>cf. group_view g (cts d cf) = txn_view cts t cf"
  shows "db_inv R C cts sp g d"
  using assms group_invD(6)[OF assms(1)] unfolding db_inv_def by (intro group_inv_view[OF assms(1)]) (auto simp: new_txn_ok)

lemma db_inv_txn: "db_inv R C cts sp g d \<Longrightarrow> group_inv R C cts sp (write_txn_new d g now)"
  unfolding db_inv_def by (rule group_inv_view) (auto simp: new_txn_ok dest: group_invD(6))

lemma commit_inv:
  assumes "group_inv R C cts sp t" and "commit R t = Inr (w, d)"
  shows "db_inv R C cts sp (wt_group t) d" and "db_inv R C cts sp g (wt_db t) \<Longrightarrow> g \<noteq> wt_group t \<Longrightarrow> db_inv R C cts sp g d"
proof -
  note v = commit_view(2,3)[OF group_invD(4)[OF assms(1)] assms(2)]
  show "db_inv R C cts sp (wt_group t) d" by (rule db_inv_view[OF assms(1) v(1)])
  show "db_inv R C cts sp g d" if "db_inv R C cts sp g (wt_db t)" and "g \<noteq> wt_group t"
    using that v(2) by (intro db_inv_view[OF db_inv_txn[OF that(1), of 0]]) simp
qed

lemma put_position_safe [safe_rules]: "safe (group_inv R C cts sp) (put_position R now last_now op applied) (\<lambda>_. True)"
  unfolding put_position_def by (intro safe_rules; simp)

lemma dedupe_answer_safe [safe_rules]: "safe (group_inv R C cts sp) (dedupe_answer R C rid fp) (\<lambda>_. True)"
  unfolding dedupe_answer_def by (intro safe_rules)

definition request_of :: "'c sm_codec_scheme \<Rightarrow> command \<Rightarrow> error + (request_id \<times> u64) option" where
  "request_of C cmd =
     (case cmd_request_id cmd of
        Some rid \<Rightarrow> map_sum id (\<lambda>fp. Some (rid, fp)) (op_fingerprint C (cmd_op cmd))
      | None \<Rightarrow> Inr None)"

definition dedupe_step ::
    "'db rocksdb \<Rightarrow> 'c sm_codec_scheme \<Rightarrow> (request_id \<times> u64) option \<Rightarrow> ('db write_txn, apply_response option) txm" where
  "dedupe_step R C request = (case request of Some (rid, fp) \<Rightarrow> dedupe_answer R C rid fp | None \<Rightarrow> ret None)"

definition record_step ::
    "'db rocksdb \<Rightarrow> 'c sm_codec_scheme \<Rightarrow> (request_id \<times> u64) option \<Rightarrow> apply_response \<Rightarrow> ('db write_txn, unit) txm" where
  "record_step R C request resp =
     (case request of
        Some (rid, fp) \<Rightarrow>
          bnd (lift_res (encode_dedupe_record C fp resp)) (\<lambda>encoded.
          set_bytes R C CF_DEDUPE (dedupe_key rid) encoded DEDUPE_TTL_MS)
      | None \<Rightarrow> ret ())"

text \<open>
  What one application of a command comes to: the dedupe table answers and nothing is written; or the
  operation runs and everything it wrote is committed with the answer and the position; or it is refused
  and a transaction with the position alone is committed.
\<close>

lemma apply_with_meta_cases:
  assumes run: "apply_with_meta R C db g cmd applied alg = Inr (resp, wrote, db')"
  obtains last_now request ans t1 where "read_last_now R db g = Inr last_now" and "request_of C cmd = Inr request"
    and "dedupe_step R C request (write_txn_new db g (max (cmd_now_ms cmd) last_now)) = Inr (ans, t1)"
    and "(ans = Some resp \<and> \<not> wrote \<and> db' = db) \<or>
      (ans = None \<and> commits resp \<and>
        (\<exists>t2 t3. execute_op R C cmd (max (cmd_now_ms cmd) last_now) alg t1 = Inr (resp, t2) \<and>
           bnd (record_step R C request resp) (\<lambda>_. put_position R (max (cmd_now_ms cmd) last_now) last_now (cmd_op cmd) applied) t2
             = Inr ((), t3) \<and> commit R t3 = Inr (wrote, db'))) \<or>
      (ans = None \<and> \<not> commits resp \<and>
        ((\<exists>t2. execute_op R C cmd (max (cmd_now_ms cmd) last_now) alg t1 = Inr (resp, t2)) \<or>
         (\<exists>what limit. execute_op R C cmd (max (cmd_now_ms cmd) last_now) alg t1 = Inl (SetScanLimitExceeded what limit) \<and>
            resp = Rejected ScanLimit (scan_limit_text what limit))) \<and>
        (\<exists>t3. put_position R (max (cmd_now_ms cmd) last_now) last_now (cmd_op cmd) applied
             (write_txn_new db g (max (cmd_now_ms cmd) last_now)) = Inr ((), t3) \<and> commit R t3 = Inr (wrote, db')))"
proof -
  from run obtain last_now where last: "read_last_now R db g = Inr last_now"
    by (auto simp: apply_with_meta_def split: sum.splits)
  define now where "now = max (cmd_now_ms cmd) last_now"
  from run last obtain request where req: "request_of C cmd = Inr request"
    by (auto simp: apply_with_meta_def request_of_def Let_def split: sum.splits)
  from run last req obtain ans t1 where ans: "dedupe_step R C request (write_txn_new db g now) = Inr (ans, t1)"
    by (auto simp: apply_with_meta_def request_of_def[symmetric] dedupe_step_def[symmetric] now_def[symmetric] Let_def
        split: sum.splits)
  show thesis
  proof (cases ans)
    case (Some r)
    with run last req ans show ?thesis
      by (intro that[OF last req ans[unfolded now_def]])
        (auto simp: apply_with_meta_def request_of_def[symmetric] dedupe_step_def[symmetric] now_def[symmetric] Let_def)
  next
    case None
    note eqs = request_of_def[symmetric] dedupe_step_def[symmetric] record_step_def[symmetric] now_def[symmetric]
    have last': "read_last_now R db g = Inr last_now" using last .
    have none: "dedupe_step R C request (write_txn_new db g now) = Inr (None, t1)" using ans None by simp
    have "(\<exists>t2. execute_op R C cmd now alg t1 = Inr (resp, t2) \<and> (commits resp \<longrightarrow>
          (\<exists>t3. bnd (record_step R C request resp) (\<lambda>_. put_position R now last_now (cmd_op cmd) applied) t2 = Inr ((), t3) \<and>
             commit R t3 = Inr (wrote, db')))) \<or>
        (\<exists>what limit. execute_op R C cmd now alg t1 = Inl (SetScanLimitExceeded what limit) \<and>
            resp = Rejected ScanLimit (scan_limit_text what limit))"
      using run last req none
      by (auto simp: apply_with_meta_def eqs Let_def split: sum.splits error.splits if_splits)
    moreover have "\<not> commits resp \<Longrightarrow> \<exists>t3. put_position R now last_now (cmd_op cmd) applied (write_txn_new db g now) = Inr ((), t3) \<and>
        commit R t3 = Inr (wrote, db')"
      using run last req none
      by (auto simp: apply_with_meta_def eqs Let_def split: sum.splits error.splits if_splits)
    moreover have "\<not> commits (Rejected ScanLimit x)" for x by (simp add: commits_def)
    ultimately show ?thesis
      using None by (intro that[OF last req ans[unfolded now_def]]) (auto simp: now_def)
  qed
qed

lemma record_step_safe [safe_rules]: "safe (group_inv R C cts sp) (record_step R C request resp) (\<lambda>_. True)"
  unfolding record_step_def by (intro safe_rules) simp_all

lemma dedupe_step_safe [safe_rules]: "safe (group_inv R C cts sp) (dedupe_step R C request) (\<lambda>_. True)"
  unfolding dedupe_step_def by (intro safe_rules)

lemma new_txn_simps [simp]:
  "wt_db (write_txn_new db g now) = db" "wt_group (write_txn_new db g now) = g" "wt_now_ms (write_txn_new db g now) = now"
  by (simp_all add: write_txn_new_def)

text \<open>The transaction an application commits, if it commits one.\<close>

lemma apply_commits:
  assumes run: "apply_with_meta R C db g cmd applied alg = Inr (resp, wrote, db')"
    and ok: "op_ok sp (cmd_op cmd)" and inv: "db_inv R C cts sp g db"
  shows "db' = db \<or> (\<exists>t. group_inv R C cts sp t \<and> wt_group t = g \<and> wt_db t = db \<and> commit R t = Inr (wrote, db'))"
  using run
proof (cases rule: apply_with_meta_cases)
  case (1 last_now request ans t1)
  define now where "now = max (cmd_now_ms cmd) last_now"
  have new: "group_inv R C cts sp (write_txn_new db g now)" by (rule db_inv_txn[OF inv])
  note t1 = safeD[OF dedupe_step_safe 1(3) new[unfolded now_def]]
  have t1': "group_inv R C cts sp t1" "wt_db t1 = db" "wt_group t1 = g" "wt_now_ms t1 = now"
    using t1 by (auto simp: same_txn_def now_def)
  from 1(4) consider "db' = db"
    | t2 t3 where "execute_op R C cmd now alg t1 = Inr (resp, t2)"
        "bnd (record_step R C request resp) (\<lambda>_. put_position R now last_now (cmd_op cmd) applied) t2 = Inr ((), t3)"
        "commit R t3 = Inr (wrote, db')"
    | t3 where "put_position R now last_now (cmd_op cmd) applied (write_txn_new db g now) = Inr ((), t3)"
        "commit R t3 = Inr (wrote, db')"
    unfolding now_def by blast
  then show ?thesis
  proof cases
    case 1
    then show ?thesis by simp
  next
    case 2
    note e = execute_op_run[OF ok t1'(1), unfolded t1'(4), OF 2(1)]
    have "safe (group_inv R C cts sp) (bnd (record_step R C request resp) (\<lambda>_. put_position R now last_now (cmd_op cmd) applied)) (\<lambda>_. True)"
      by (intro safe_rules)
    from safeD[OF this 2(2)] e 2(3) t1' show ?thesis by (auto simp: same_txn_def)
  next
    case 3
    from safeD[OF put_position_safe 3(1) new] 3(2) show ?thesis by (auto simp: same_txn_def)
  qed
qed

lemma apply_with_meta_inv:
  assumes "apply_with_meta R C db g cmd applied alg = Inr (resp, wrote, db')"
    and "op_ok sp (cmd_op cmd)" and inv: "\<And>h. db_inv R C cts sp h db"
  shows "db_inv R C cts sp h db'"
  using apply_commits[OF assms(1,2) inv] commit_inv[of R C cts sp _ wrote db'] inv by (cases "h = g") auto

end
