(* ===== verification/Raft_State.thy ===== *)
theory Raft_State
  imports Machine_Safety
begin

text \<open>
  The rows of a group that its log determines (\<open>group_state\<close>), apart from the rows Raft keeps for itself.
  The writes of the log store and of the applied position (\<open>src/src/raft/log_store.rs\<close>,
  \<open>src/src/raft/state_machine.rs\<close>) leave them alone, and the destruction of a group
  (\<open>src/src/store_rocksdb.rs\<close>) removes those of that group only.
\<close>

section \<open>The replicated rows of a group\<close>

definition state_key :: "cf \<Rightarrow> bytes \<Rightarrow> bool" where
  "state_key cf k \<longleftrightarrow> cf \<in> set STATE_CFS \<or> cf = CF_META \<and> k \<notin> set RAFT_META_KEYS"

definition group_state :: "('db \<Rightarrow> cf \<Rightarrow> (bytes, bytes) omap) \<Rightarrow> 'db \<Rightarrow> group_id \<Rightarrow> cf \<Rightarrow> bytes \<Rightarrow> bytes option" where
  "group_state cts d g cf k = (if state_key cf k then om_lookup (cts d cf) (group_key g k) else None)"

lemma raft_meta_not_lock: "k \<in> set RAFT_META_KEYS \<Longrightarrow> \<not> lock_meta_key k"
  by (auto simp: RAFT_META_KEYS_def lock_meta_key_def key_defs)

lemma hard_state_key: "hard_key cf k \<Longrightarrow> state_key cf k"
  by (auto simp: hard_key_def engine_key_def engine_cfs_def state_key_def STATE_CFS_def dest: raft_meta_not_lock)

lemma group_stateD:
  assumes "group_state cts d' h = group_state cts d g" and "state_key cf k"
  shows "om_lookup (cts d' cf) (group_key h k) = om_lookup (cts d cf) (group_key g k)"
  using assms(2) fun_cong[OF fun_cong[OF assms(1)], of cf k] by (simp add: group_state_def)

text \<open>The invariant is a property of the replicated rows; the expiry index does not matter to it.\<close>

lemma db_inv_rows:
  assumes inv: "db_inv R C cts sp g d"
    and same: "\<And>cf k. state_key cf k \<Longrightarrow> cf \<noteq> CF_EXPIRY \<Longrightarrow>
      om_lookup (cts d' cf) (group_key h k) = om_lookup (cts d cf) (group_key g k)"
  shows "db_inv R C cts sp h d'"
proof -
  let ?t = "write_txn_new d g 0" and ?t' = "write_txn_new d' h 0"
  have "hard_key cf k \<Longrightarrow> cf \<noteq> CF_EXPIRY" for cf k by auto
  then have "aux_change C cts ?t ?t'" using hard_state_key same by (auto simp: aux_change_def)
  moreover have "txn_ok R cts ?t'" using inv by (auto simp: db_inv_def new_txn_ok dest: group_invD(6))
  moreover have "queue_ok C sp (txn_view cts ?t' CF_QUEUE)"
    using inv same[of CF_QUEUE] by (auto simp: db_inv_def group_inv_def queue_ok_def state_key_def STATE_CFS_def)
  ultimately show ?thesis using inv unfolding db_inv_def by (blast intro: aux_group_inv)
qed

lemma db_inv_state:
  assumes "db_inv R C cts sp g d" and "group_state cts d' h = group_state cts d g"
  shows "db_inv R C cts sp h d'"
  using group_stateD[OF assms(2)] by (rule db_inv_rows[OF assms(1)])

section \<open>Batches that leave the replicated rows alone\<close>

text \<open>An operation of a batch that touches Raft's own rows only.\<close>

fun raft_op :: "batch_op \<Rightarrow> bool" where
  "raft_op (PutCf cf k v) \<longleftrightarrow> cf = CF_RAFT_LOG \<or> cf = CF_META \<and> (\<exists>g m. m \<in> set RAFT_META_KEYS \<and> k = group_key g m)"
| "raft_op (DeleteCf cf k) \<longleftrightarrow> cf = CF_RAFT_LOG"
| "raft_op (DeleteRangeCf cf s e) \<longleftrightarrow> cf = CF_RAFT_LOG"

lemma raft_cf_not_state [simp]: "state_key CF_RAFT_LOG k \<longleftrightarrow> False"
  by (simp add: state_key_def STATE_CFS_def cf_defs)

lemma raft_op_state:
  assumes "raft_op op" and "state_key cf k"
  shows "om_lookup (apply_batch_op op c cf) (group_key g k) = om_lookup (c cf) (group_key g k)"
proof -
  have "cf \<noteq> CF_RAFT_LOG" using assms(2) by (metis raft_cf_not_state)
  moreover have "cf = CF_META \<Longrightarrow> k \<notin> set RAFT_META_KEYS"
    using assms(2) by (auto simp: state_key_def STATE_CFS_def)
  ultimately show ?thesis using assms(1) by (cases op) auto
qed

lemma raft_batch_state:
  assumes "\<forall>op \<in> set ops. raft_op op" and "state_key cf k"
  shows "om_lookup (apply_batch ops c cf) (group_key g k) = om_lookup (c cf) (group_key g k)"
  using assms(1) unfolding apply_batch_def
  by (induction ops arbitrary: c) (auto simp: raft_op_state[OF _ assms(2)])

lemma raft_batch_write_state:
  assumes "rocksdb_ok R cts" and "write_opt R d ops = Inr d'" and "\<forall>op \<in> set ops. raft_op op"
  shows "group_state cts d' = group_state cts d"
  using rocksdb_okD(4)[OF assms(1,2)] raft_batch_state[OF assms(3)] by (simp add: group_state_def fun_eq_iff)

lemma raft_range_state:
  assumes "rocksdb_ok R cts" and "delete_range_cf R d CF_RAFT_LOG s e = Inr d'"
  shows "group_state cts d' = group_state cts d"
  using rocksdb_okD(5)[OF assms] raft_op_state[of "DeleteRangeCf CF_RAFT_LOG s e"] by (simp add: group_state_def fun_eq_iff)

lemma files_lookup:
  assumes "rocksdb_ok R cts" and "delete_file_in_range_cf R d cf s e = Inr d'"
  shows "\<not> (cf' = cf \<and> s \<le> x \<and> x < e) \<Longrightarrow> om_lookup (cts d' cf') x = om_lookup (cts d cf') x"
    and "om_lookup (cts d cf') x = None \<Longrightarrow> om_lookup (cts d' cf') x = None"
proof -
  have "om_lookup (cts d' cf') x \<in> (if cf' = cf \<and> s \<le> x \<and> x < e
      then {None, om_lookup (cts d cf') x} else {om_lookup (cts d cf') x})"
    using assms unfolding rocksdb_ok_def by blast
  then show "\<not> (cf' = cf \<and> s \<le> x \<and> x < e) \<Longrightarrow> om_lookup (cts d' cf') x = om_lookup (cts d cf') x"
    and "om_lookup (cts d cf') x = None \<Longrightarrow> om_lookup (cts d' cf') x = None"
    by (auto split: if_splits)
qed

lemma raft_files_state:
  assumes "rocksdb_ok R cts" and "delete_file_in_range_cf R d CF_RAFT_LOG s e = Inr d'"
  shows "group_state cts d' = group_state cts d"
proof -
  have "cf' \<noteq> CF_RAFT_LOG \<Longrightarrow> om_lookup (cts d' cf') k = om_lookup (cts d cf') k" for cf' k
    using files_lookup(1)[OF assms] by blast
  then show ?thesis unfolding group_state_def fun_eq_iff by (metis raft_cf_not_state)
qed

section \<open>The log store\<close>

lemma raft_meta_keys [simp]:
  "META_VOTE_KEY \<in> set RAFT_META_KEYS" "META_COMMITTED_KEY \<in> set RAFT_META_KEYS"
  "META_LAST_APPLIED_KEY \<in> set RAFT_META_KEYS" "META_MEMBERSHIP_KEY \<in> set RAFT_META_KEYS"
  "META_PURGED_KEY \<in> set RAFT_META_KEYS" "META_SNAPSHOT_META_KEY \<in> set RAFT_META_KEYS"
  "META_SNAPSHOT_DATA_KEY \<in> set RAFT_META_KEYS"
  by (simp_all add: RAFT_META_KEYS_def)

lemma put_meta_state:
  assumes "rocksdb_ok R cts" and "put_meta R d g enc key v = Inr d'" and "key \<in> set RAFT_META_KEYS"
  shows "group_state cts d' = group_state cts d"
  using assms raft_batch_write_state[OF assms(1), of d _ d'] by (auto simp: put_meta_def split: if_splits sum.splits)

lemma append_batch_ops:
  "append_batch C g es batch = Inr batch' \<Longrightarrow> \<forall>op \<in> set batch. raft_op op \<Longrightarrow> \<forall>op \<in> set batch'. raft_op op"
  by (induction C g es batch rule: append_batch.induct) (auto split: sum.splits)

lemma put_applied_batch:
  assumes "put_applied R C gs d log_id membership = Inr d'"
  obtains ops where "write_opt R d ops = Inr d'" and "\<forall>op \<in> set ops. raft_op op"
proof (cases membership)
  case None
  with assms obtain l where "write_opt R d [PutCf CF_META (group_key (gs_group gs) META_LAST_APPLIED_KEY) l] = Inr d'"
    by (auto simp: put_applied_def Let_def split: if_splits sum.splits)
  then show ?thesis by (rule that) simp
next
  case (Some m)
  with assms obtain l b where "write_opt R d [PutCf CF_META (group_key (gs_group gs) META_LAST_APPLIED_KEY) l,
      PutCf CF_META (group_key (gs_group gs) META_MEMBERSHIP_KEY) b] = Inr d'"
    by (cases "membership_encode C m") (auto simp: put_applied_def Let_def split: if_splits sum.splits)
  then show ?thesis by (rule that) simp
qed

lemma log_store_state:
  assumes R: "rocksdb_ok R cts"
  shows "save_vote R C d g vote = Inr d' \<Longrightarrow> group_state cts d' = group_state cts d"
    and "save_committed R C d g committed = Inr d' \<Longrightarrow> group_state cts d' = group_state cts d"
    and "append_entries R C d g es = Inr d' \<Longrightarrow> group_state cts d' = group_state cts d"
    and "truncate_after R C d g l = Inr d' \<Longrightarrow> group_state cts d' = group_state cts d"
    and "purge R C d g log_id = Inr d' \<Longrightarrow> group_state cts d' = group_state cts d"
    and "put_applied R C gs d log_id' membership = Inr d' \<Longrightarrow> group_state cts d' = group_state cts d"
proof -
  show "save_vote R C d g vote = Inr d' \<Longrightarrow> group_state cts d' = group_state cts d"
    using put_meta_state[OF R _ raft_meta_keys(1)] by (simp add: save_vote_def)
  show "save_committed R C d g committed = Inr d' \<Longrightarrow> group_state cts d' = group_state cts d"
    using put_meta_state[OF R _ raft_meta_keys(2)] by (auto simp: save_committed_def split: option.splits)
  show "append_entries R C d g es = Inr d' \<Longrightarrow> group_state cts d' = group_state cts d"
    using append_batch_ops[of C g es "[]"] raft_batch_write_state[OF R]
    by (auto simp: append_entries_def split: if_splits sum.splits)
  show "truncate_after R C d g l = Inr d' \<Longrightarrow> group_state cts d' = group_state cts d"
    using raft_range_state[OF R] by (auto simp: truncate_after_def Let_def split: if_splits)
  show "purge R C d g log_id = Inr d' \<Longrightarrow> group_state cts d' = group_state cts d"
    using put_meta_state[OF R _ raft_meta_keys(5)] raft_range_state[OF R] raft_files_state[OF R]
    by (fastforce simp: purge_def Let_def split: if_splits sum.splits)
  show "put_applied R C gs d log_id' membership = Inr d' \<Longrightarrow> group_state cts d' = group_state cts d"
    by (erule put_applied_batch) (rule raft_batch_write_state[OF R])
qed

end
