(* ===== verification/Snapshot_Transfer.thy ===== *)
theory Snapshot_Transfer
  imports Raft_State
begin

text \<open>
  Snapshots (\<open>src/src/raft/snapshot.rs\<close>): the image built of a group, installed on any other database,
  gives that database exactly the replicated rows of the group, and leaves the other groups alone.
\<close>

section \<open>Rows and frames\<close>

definition frame_codec_ok :: "frame_codec \<Rightarrow> bool" where
  "frame_codec_ok F \<longleftrightarrow> (\<forall>f b. frame_encode F f = Inr b \<longrightarrow> frame_decode F b = Inr f)"

fun fold_res :: "('a \<Rightarrow> 's \<Rightarrow> error + 's) \<Rightarrow> 'a list \<Rightarrow> 's \<Rightarrow> error + 's" where
  "fold_res f [] s = Inr s"
| "fold_res f (x # xs) s = (case f x s of Inl e \<Rightarrow> Inl e | Inr s' \<Rightarrow> fold_res f xs s')"

abbreviation group_rows :: "('db \<Rightarrow> cf \<Rightarrow> (bytes, bytes) omap) \<Rightarrow> 'db \<Rightarrow> group_id \<Rightarrow> cf \<Rightarrow> (bytes \<times> bytes) list" where
  "group_rows cts d g cf \<equiv> om_entries (group_view g (cts d cf))"

lemma group_range_rows: "range_entries m (Some (group_prefix g)) (prefix_upper_bound (group_prefix g)) =
    map (scope_entry g) (om_entries (group_view g m))"
  using group_range_entries[of m g None None] by (simp add: scoped_lo_def scoped_up_def range_entries_def in_bounds_def)

lemma scan_group_loop_rows:
  assumes "scan_group_loop (group_prefix g) status visit (map (scope_entry g) rows) s = Inr s'"
  shows "fold_res (\<lambda>(k, v). visit k v) rows s = Inr s' \<and> status = None"
  using assms by (induction rows arbitrary: s) (auto simp: scope_entry_def group_key_def group_prefix_def split: option.splits sum.splits)

lemma scan_group_rows:
  assumes R: "rocksdb_ok R cts"
  shows "scan_group_cf R d cf g visit s = Inr s' \<Longrightarrow> fold_res (\<lambda>(k, v). visit k v) (group_rows cts d g cf) s = Inr s'"
    and "scan_group_cf_snapshot R d sn cf g visit s = Inr s' \<Longrightarrow>
      fold_res (\<lambda>(k, v). visit k v) (group_rows cts sn g cf) s = Inr s'"
proof -
  have "fold_res (\<lambda>(k, v). visit k v) (group_rows cts d g cf) s = Inr s'"
    if it: "iter_cf R d cf (Some (group_prefix g)) (prefix_upper_bound (group_prefix g)) = (it, status)"
      and loop: "scan_group_loop (group_prefix g) status visit it s = Inr s'" for d it status
  proof (cases status)
    case None
    with rocksdb_okD(2)[OF R it[unfolded None]] loop show ?thesis
      by (simp add: group_range_rows scan_group_loop_rows)
  next
    case (Some e)
    from rocksdb_okD(3)[OF R it[unfolded Some]] obtain n where "it = take n (map (scope_entry g) (group_rows cts d g cf))"
      unfolding group_range_rows by (metis append_eq_conv_conj prefix_def)
    then have "it = map (scope_entry g) (take n (group_rows cts d g cf))" by (simp add: take_map)
    with loop scan_group_loop_rows[of g status visit "take n (group_rows cts d g cf)"] Some show ?thesis by auto
  qed
  then show "scan_group_cf R d cf g visit s = Inr s' \<Longrightarrow> fold_res (\<lambda>(k, v). visit k v) (group_rows cts d g cf) s = Inr s'"
    and "scan_group_cf_snapshot R d sn cf g visit s = Inr s' \<Longrightarrow>
      fold_res (\<lambda>(k, v). visit k v) (group_rows cts sn g cf) s = Inr s'"
    by (auto simp: scan_group_cf_def scan_group_cf_snapshot_def Let_def split: if_splits prod.splits)
qed

fun encode_frames :: "frame_codec \<Rightarrow> frame list \<Rightarrow> bytes option" where
  "encode_frames F [] = Some []"
| "encode_frames F (f # fs) =
     (case frame_encode F f of
        Inl _ \<Rightarrow> None
      | Inr e \<Rightarrow>
          if length e < 2 ^ 32 then map_option (\<lambda>r. u32_be (word_of_nat (length e)) @ e @ r) (encode_frames F fs) else None)"

lemma encode_frames_append:
  "encode_frames F fs = Some a \<Longrightarrow> encode_frames F gs = Some b \<Longrightarrow> encode_frames F (fs @ gs) = Some (a @ b)"
  by (induction fs arbitrary: a) (auto split: sum.splits if_splits)

abbreviation row_frame :: "nat \<Rightarrow> bytes \<times> bytes \<Rightarrow> frame" where
  "row_frame idx kv \<equiv> \<lparr> fr_cf = idx, fr_key = fst kv, fr_value = snd kv \<rparr>"

lemma push_rows_frames:
  assumes "fold_res (\<lambda>(k, v) img. if P k then Inr img else push_row F n idx k v img) rows img = Inr img'"
  shows "\<exists>bs. encode_frames F (map (row_frame idx) (filter (\<lambda>(k, _). \<not> P k) rows)) = Some bs \<and> img' = img @ bs"
  using assms
proof (induction rows arbitrary: img)
  case (Cons kv rows)
  obtain k v where kv: "kv = (k, v)" by (cases kv)
  show ?case
  proof (cases "P k")
    case False
    with Cons.prems kv obtain e where "frame_encode F (row_frame idx (k, v)) = Inr e" "length e < 2 ^ 32"
      and "fold_res (\<lambda>(k, v) img. if P k then Inr img else push_row F n idx k v img) rows
        (img @ u32_be (word_of_nat (length e)) @ e) = Inr img'"
      by (auto simp: push_row_def push_frame_def split: sum.splits if_splits)
    with Cons.IH False kv show ?thesis by fastforce
  qed (use Cons kv in auto)
qed simp

lemma u32_be_nonempty [simp]: "u32_be w \<noteq> []"
  by (metis length_u32_be list.size(3) zero_neq_numeral)

lemma for_each_frames:
  assumes "frame_codec_ok F" and "encode_frames F fs = Some bs"
  shows "for_each_frame_loop F visit bs s = fold_res visit fs s"
  using assms(2)
proof (induction fs arbitrary: bs s)
  case Nil
  then show ?case by (simp add: for_each_frame_loop.simps)
next
  case (Cons f fs)
  then obtain e r where e: "frame_encode F f = Inr e" "length e < 2 ^ 32" and r: "encode_frames F fs = Some r"
    and bs: "bs = u32_be (word_of_nat (length e)) @ e @ r"
    by (auto split: sum.splits if_splits)
  have "from_be (u32_be (word_of_nat (length e))) = length e"
    using e(2) by (simp add: u32_be_def from_be_be_bytes unat_u32_bound unat_of_nat)
  moreover have "frame_decode F e = Inr f" using e assms(1) by (simp add: frame_codec_ok_def)
  ultimately show ?case
    using Cons.IH[OF r] bs by (subst for_each_frame_loop.simps) (simp add: Let_def split: sum.splits)
qed

section \<open>Building\<close>

definition cf_frames :: "('db \<Rightarrow> cf \<Rightarrow> (bytes, bytes) omap) \<Rightarrow> 'db \<Rightarrow> group_id \<Rightarrow> (nat \<times> cf) list \<Rightarrow> frame list" where
  "cf_frames cts d g cfs = concat (map (\<lambda>(i, cf). map (row_frame i) (group_rows cts d g cf)) cfs)"

definition state_frames :: "('db \<Rightarrow> cf \<Rightarrow> (bytes, bytes) omap) \<Rightarrow> 'db \<Rightarrow> group_id \<Rightarrow> frame list" where
  "state_frames cts d g = cf_frames cts d g (enumerate 0 STATE_CFS) @
     map (row_frame META_CF_MARKER) (filter (\<lambda>(k, _). k \<notin> set RAFT_META_KEYS) (group_rows cts d g CF_META))"

lemma push_state_cfs_frames:
  assumes R: "rocksdb_ok R cts" and "push_state_cfs R F d sn g n cfs img = Inr img'" and "\<forall>(i, cf) \<in> set cfs. i < 256"
  shows "\<exists>bs. encode_frames F (cf_frames cts sn g cfs) = Some bs \<and> img' = img @ bs"
  using assms(2,3)
proof (induction cfs arbitrary: img)
  case (Cons c cfs)
  obtain i cf where c: "c = (i, cf)" by (cases c)
  with Cons.prems obtain img1 where scan: "scan_group_cf_snapshot R d sn cf g (push_row F n i) img = Inr img1"
    and rest: "push_state_cfs R F d sn g n cfs img1 = Inr img'"
    by (auto split: sum.splits)
  from push_rows_frames[of "\<lambda>_. False" F n i, simplified, OF scan_group_rows(2)[OF R scan]]
  obtain a where "encode_frames F (map (row_frame i) (group_rows cts sn g cf)) = Some a" "img1 = img @ a"
    by auto
  moreover from Cons.IH[OF rest] Cons.prems(2)
  obtain b where "encode_frames F (cf_frames cts sn g cfs) = Some b" "img' = img1 @ b" by auto
  ultimately show ?case using c encode_frames_append by (fastforce simp: cf_frames_def)
qed (simp add: cf_frames_def)

lemma build_image_frames:
  assumes R: "rocksdb_ok R cts" and "build_group_image_from_snapshot_limited R F d sn g n = Inr img"
  shows "\<exists>bs. encode_frames F (state_frames cts sn g) = Some bs \<and> img = IMAGE_MAGIC @ bs"
proof -
  from assms(2) obtain img1 where cfs: "push_state_cfs R F d sn g n (enumerate 0 STATE_CFS) IMAGE_MAGIC = Inr img1"
    and meta: "scan_group_cf_snapshot R d sn CF_META g (\<lambda>key value img.
        if key \<in> set RAFT_META_KEYS then Inr img else push_row F n META_CF_MARKER key value img) img1 = Inr img"
    by (auto simp: build_group_image_from_snapshot_limited_def split: sum.splits)
  have small: "\<forall>(i, cf) \<in> set (enumerate 0 STATE_CFS). i < 256"
    by (auto simp: STATE_CFS_def enumerate_eq_zip)
  from push_state_cfs_frames[OF R cfs small] obtain a
    where "encode_frames F (cf_frames cts sn g (enumerate 0 STATE_CFS)) = Some a" "img1 = IMAGE_MAGIC @ a" by blast
  moreover from push_rows_frames[OF scan_group_rows(2)[OF R meta]]
  obtain b where "encode_frames F (map (row_frame META_CF_MARKER)
      (filter (\<lambda>(k, _). k \<notin> set RAFT_META_KEYS) (group_rows cts sn g CF_META))) = Some b" "img = img1 @ b" by blast
  ultimately show ?thesis unfolding state_frames_def using encode_frames_append by fastforce
qed

section \<open>Installing\<close>

definition frame_row :: "group_id \<Rightarrow> frame \<Rightarrow> (cf \<times> bytes) \<times> bytes" where
  "frame_row g f = ((if fr_cf f = META_CF_MARKER then CF_META else STATE_CFS ! fr_cf f, group_key g (fr_key f)), fr_value f)"

abbreviation put_row :: "(cf \<times> bytes) \<times> bytes \<Rightarrow> batch_op" where
  "put_row r \<equiv> PutCf (fst (fst r)) (snd (fst r)) (snd r)"

lemma install_frames_batch:
  "fold_res (install_frame R d g) fs batch = Inr batch' \<Longrightarrow> batch' = batch @ map (\<lambda>f. put_row (frame_row g f)) fs"
  by (induction fs arbitrary: batch)
    (fastforce simp: install_frame_def frame_row_def Let_def split: sum.splits if_splits)+

lemma wipe_cfs_batch:
  "wipe_cfs R d gp upper cfs batch = Inr batch' \<Longrightarrow> batch' = batch @ map (\<lambda>cf. DeleteRangeCf cf gp upper) cfs"
  by (induction cfs arbitrary: batch) (fastforce split: if_splits)+

lemma delete_rows_batch:
  "fold_res (\<lambda>(k, v) batch. Inr (if P k then batch @ [DeleteCf cf (group_key g k)] else batch)) rows batch =
     Inr (batch @ map (\<lambda>(k, _). DeleteCf cf (group_key g k)) (filter (\<lambda>(k, _). P k) rows))"
  by (induction rows arbitrary: batch) auto

definition wipe_upper :: "group_id \<Rightarrow> bytes" where
  "wipe_upper g = (case prefix_upper_bound (group_prefix g) of Some u \<Rightarrow> u | None \<Rightarrow> replicate 16 (CHR 0xFF))"

lemma install_image_batch:
  assumes R: "rocksdb_ok R cts" and F: "frame_codec_ok F" and fs: "encode_frames F fs = Some bs"
    and "install_group_image R F d g (IMAGE_MAGIC @ bs) batch = Inr batch'"
  shows "batch' = batch @ map (\<lambda>cf. DeleteRangeCf cf (group_prefix g) (wipe_upper g)) STATE_CFS @
    map (\<lambda>(k, _). DeleteCf CF_META (group_key g k)) (filter (\<lambda>(k, _). k \<notin> set RAFT_META_KEYS) (group_rows cts d g CF_META)) @
    map (\<lambda>f. put_row (frame_row g f)) fs"
proof -
  from assms(4) obtain b1 b2 where w: "wipe_cfs R d (group_prefix g) (wipe_upper g) STATE_CFS batch = Inr b1"
    and m: "scan_group_cf R d CF_META g
        (\<lambda>key _ batch. Inr (if key \<notin> set RAFT_META_KEYS then batch @ [DeleteCf CF_META (group_key g key)] else batch)) b1 = Inr b2"
    and f: "for_each_frame F (IMAGE_MAGIC @ bs) (install_frame R d g) b2 = Inr batch'"
    by (auto simp: install_group_image_def Let_def wipe_upper_def split: sum.splits if_splits)
  have "for_each_frame_loop F (install_frame R d g) bs b2 = Inr batch'" using f by (simp add: for_each_frame_def)
  then have "batch' = b2 @ map (\<lambda>f. put_row (frame_row g f)) fs"
    unfolding for_each_frames[OF F fs] by (rule install_frames_batch)
  with wipe_cfs_batch[OF w] scan_group_rows(1)[OF R m] show ?thesis by (simp add: delete_rows_batch)
qed

section \<open>The effect of a batch\<close>

lemma apply_batch_append: "apply_batch (xs @ ys) c = apply_batch ys (apply_batch xs c)"
  by (simp add: apply_batch_def)

lemma apply_batch_snoc [simp]: "apply_batch [] c = c" "apply_batch (xs @ [op]) c = apply_batch_op op (apply_batch xs c)"
  by (simp_all add: apply_batch_def)

lemma puts_lookup:
  "om_lookup (apply_batch (map put_row rs) c cf) x =
     (case map_of (rev rs) (cf, x) of Some v \<Rightarrow> Some v | None \<Rightarrow> om_lookup (c cf) x)"
  by (induction rs rule: rev_induct) (auto simp: apply_batch_append[symmetric] split: option.splits)

lemma wipes_lookup:
  "om_lookup (apply_batch (map (\<lambda>cf. DeleteRangeCf cf lo up) cfs) c cf) x =
     (if cf \<in> set cfs \<and> lo \<le> x \<and> x < up then None else om_lookup (c cf) x)"
  by (induction cfs rule: rev_induct) auto

lemma deletes_lookup:
  "om_lookup (apply_batch (map (\<lambda>(k, _). DeleteCf cf (group_key g k)) rows) c cf') x =
     (if cf' = cf \<and> (\<exists>(k, _) \<in> set rows. x = group_key g k) then None else om_lookup (c cf') x)"
  by (induction rows rule: rev_induct) auto

lemma map_of_functional:
  assumes "\<And>a b b'. (a, b) \<in> set xs \<Longrightarrow> (a, b') \<in> set xs \<Longrightarrow> b = b'"
  shows "map_of xs a = Some b \<longleftrightarrow> (a, b) \<in> set xs"
  using assms by (metis map_of_SomeD weak_map_of_SomeI)

text \<open>The rows an image stands for.\<close>

lemma in_cf_frames:
  "f \<in> set (cf_frames cts d g cfs) \<longleftrightarrow>
     (\<exists>i cf k v. (i, cf) \<in> set cfs \<and> om_lookup (cts d cf) (group_key g k) = Some v \<and> f = row_frame i (k, v))"
  unfolding cf_frames_def by (simp add: image_iff Bex_def split_paired_Ex om_entries_iff) blast

lemma in_state_frames:
  "f \<in> set (state_frames cts d g) \<longleftrightarrow>
     (\<exists>i k v. i < length STATE_CFS \<and> om_lookup (cts d (STATE_CFS ! i)) (group_key g k) = Some v \<and> f = row_frame i (k, v)) \<or>
     (\<exists>k v. k \<notin> set RAFT_META_KEYS \<and> om_lookup (cts d CF_META) (group_key g k) = Some v \<and> f = row_frame META_CF_MARKER (k, v))"
proof -
  have "f \<in> set (map (row_frame META_CF_MARKER) (filter (\<lambda>(k, _). k \<notin> set RAFT_META_KEYS) (group_rows cts d g CF_META))) \<longleftrightarrow>
     (\<exists>k v. k \<notin> set RAFT_META_KEYS \<and> om_lookup (cts d CF_META) (group_key g k) = Some v \<and> f = row_frame META_CF_MARKER (k, v))"
    by (simp add: image_iff Bex_def split_paired_Ex om_entries_iff) blast
  then show ?thesis
    unfolding state_frames_def set_append Un_iff in_cf_frames by (simp add: in_set_enumerate_eq)
qed

lemma frame_row_simps:
  "i < length STATE_CFS \<Longrightarrow> frame_row g \<lparr> fr_cf = i, fr_key = k, fr_value = v \<rparr> = ((STATE_CFS ! i, group_key g k), v)"
  "frame_row g \<lparr> fr_cf = META_CF_MARKER, fr_key = k, fr_value = v \<rparr> = ((CF_META, group_key g k), v)"
  by (auto simp: frame_row_def STATE_CFS_def META_CF_MARKER_def)

lemma state_frame_rows:
  "((cf, x), v) \<in> set (map (frame_row g) (state_frames cts d g')) \<longleftrightarrow>
     (\<exists>k. x = group_key g k \<and> group_state cts d g' cf k = Some v)"
  (is "?L \<longleftrightarrow> ?R")
proof
  assume ?L
  then obtain f where "f \<in> set (state_frames cts d g')" and row: "frame_row g f = ((cf, x), v)" by auto
  then show ?R
    unfolding in_state_frames fst_conv snd_conv
  proof (elim disjE exE conjE, goal_cases)
    case (1 i k w)
    then show ?case by (intro exI[of _ k]) (auto simp: frame_row_simps(1) group_state_def state_key_def)
  next
    case (2 k w)
    then show ?case by (intro exI[of _ k]) (auto simp: frame_row_simps(2) group_state_def state_key_def)
  qed
next
  assume ?R
  then obtain k where x: "x = group_key g k" and st: "state_key cf k" and v: "om_lookup (cts d cf) (group_key g' k) = Some v"
    by (auto simp: group_state_def split: if_splits)
  from st consider i where "i < length STATE_CFS" "cf = STATE_CFS ! i" | "cf = CF_META" "k \<notin> set RAFT_META_KEYS"
    by (auto simp: state_key_def in_set_conv_nth)
  then show ?L
  proof cases
    case 1
    with v have "row_frame i (k, v) \<in> set (state_frames cts d g')" unfolding in_state_frames by blast
    from imageI[OF this, of "frame_row g"] show ?thesis
      unfolding fst_conv snd_conv frame_row_simps(1)[OF 1(1)] set_map using 1 x by simp
  next
    case 2
    with v have "row_frame META_CF_MARKER (k, v) \<in> set (state_frames cts d g')" unfolding in_state_frames by blast
    from imageI[OF this, of "frame_row g"] show ?thesis
      unfolding fst_conv snd_conv frame_row_simps(2) set_map using 2 x by simp
  qed
qed

section \<open>The transfer\<close>

lemma prefix_upper_bound_group: "prefix_upper_bound (group_prefix g) = None \<Longrightarrow> g = SYS_GROUP"
proof -
  assume "prefix_upper_bound (group_prefix g) = None"
  then have "prefix (group_prefix g) x \<longleftrightarrow> group_prefix g \<le> x" for x
    using prefix_upper_bound_range[of "group_prefix g" x] by (simp add: in_key_range_def)
  moreover have "group_prefix g \<le> group_prefix SYS_GROUP"
    using u32_be_less[of SYS_GROUP g] by (simp add: group_prefix_def SYS_GROUP_def not_less[symmetric])
  ultimately have "prefix (group_prefix g) (group_prefix SYS_GROUP)" by blast
  then obtain zs where zs: "u32_be SYS_GROUP = u32_be g @ zs" by (auto simp: group_prefix_def prefix_def)
  have "length zs = 0" using arg_cong[OF zs, of length] by simp
  with zs have "u32_be SYS_GROUP = u32_be g" by simp
  then show "g = SYS_GROUP" unfolding u32_be_inj by (rule sym)
qed

text \<open>The range a wipe covers: all rows of the group, and of the system group, whose prefix is the largest
  there is, those below twelve bytes \<open>0xFF\<close>.\<close>

definition wipe_covers :: "('db \<Rightarrow> cf \<Rightarrow> (bytes, bytes) omap) \<Rightarrow> 'db \<Rightarrow> group_id \<Rightarrow> bool" where
  "wipe_covers cts d g \<longleftrightarrow> g \<noteq> SYS_GROUP \<or>
     (\<forall>cf \<in> set STATE_CFS. \<forall>k. om_lookup (cts d cf) (group_key g k) \<noteq> None \<longrightarrow> k < replicate 12 (CHR 0xFF))"

lemma u32_be_top: "u32_be (- 1) = replicate 4 (CHR 0xFF)"
proof -
  have c: "char_of (255 :: nat) = CHR 0xFF" by (simp add: char_of_def bit_0)
  have four: "(4 :: nat) = Suc (Suc (Suc (Suc 0)))" by simp
  have "be_bytes 4 4294967295 = replicate 4 (CHR 0xFF)"
    unfolding four be_bytes.simps replicate.simps by (simp add: c)
  then show ?thesis by (simp add: u32_be_def)
qed

lemma wipe_range:
  "g \<noteq> SYS_GROUP \<Longrightarrow> (group_prefix g \<le> group_key h k \<and> group_key h k < wipe_upper g) \<longleftrightarrow> h = g"
  "(group_prefix SYS_GROUP \<le> group_key h k \<and> group_key h k < wipe_upper SYS_GROUP) \<longleftrightarrow>
     h = SYS_GROUP \<and> k < replicate 12 (CHR 0xFF)"
proof -
  have pre: "prefix (group_prefix g) (group_key h k) \<longleftrightarrow> h = g" for g
    by (auto simp: group_prefix_def group_key_def prefix_def append_eq_append_conv)
  show "(group_prefix g \<le> group_key h k \<and> group_key h k < wipe_upper g) \<longleftrightarrow> h = g" if "g \<noteq> SYS_GROUP"
    using prefix_upper_bound_group[of g] that prefix_upper_bound_range[of "group_prefix g" "group_key h k"]
    by (auto simp: wipe_upper_def in_key_range_def pre split: option.splits)
  have top: "prefix_upper_bound_rev (replicate n (CHR 0xFF)) = None" for n by (induction n) simp_all
  have up: "wipe_upper SYS_GROUP = group_prefix SYS_GROUP @ replicate 12 (CHR 0xFF)"
    by (simp add: wipe_upper_def SYS_GROUP_def group_prefix_def u32_be_top prefix_upper_bound_def top
        replicate_add[symmetric])
  show "(group_prefix SYS_GROUP \<le> group_key h k \<and> group_key h k < wipe_upper SYS_GROUP) \<longleftrightarrow>
     h = SYS_GROUP \<and> k < replicate 12 (CHR 0xFF)"
  proof (cases "h = SYS_GROUP")
    case True
    then show ?thesis by (simp add: up group_key_def group_prefix_def)
  next
    case False
    then have "h < SYS_GROUP" by (simp add: SYS_GROUP_def word_order.not_eq_extremum)
    then have "group_key h k < group_key SYS_GROUP []" by (rule group_key_less_other)
    then show ?thesis using False by (auto simp: group_key_def group_prefix_def)
  qed
qed

text \<open>
  A snapshot built of group \<open>g\<close> on one database and installed on another: the other database then has
  the replicated rows the first one had when it was built, and its other groups are as they were.
\<close>

lemma installed_state:
  assumes R: "rocksdb_ok R cts" and F: "frame_codec_ok F" and fs: "encode_frames F (state_frames cts src g) = Some bs"
    and inst: "install_group_image R F d g (IMAGE_MAGIC @ bs) [] = Inr batch" and cov: "wipe_covers cts d g"
    and raft: "\<forall>op \<in> set extra. raft_op op" and st: "state_key cf k"
  shows "om_lookup (apply_batch (batch @ extra) (cts d) cf) (group_key h k) =
    (if h = g then group_state cts src g cf k else om_lookup (cts d cf) (group_key h k))"
proof -
  let ?rows = "filter (\<lambda>(k, _). k \<notin> set RAFT_META_KEYS) (group_rows cts d g CF_META)"
  let ?puts = "map (frame_row g) (state_frames cts src g)"
  define c0 where "c0 = apply_batch (map (\<lambda>cf. DeleteRangeCf cf (group_prefix g) (wipe_upper g)) STATE_CFS) (cts d)"
  define c1 where "c1 = apply_batch (map (\<lambda>(k, _). DeleteCf CF_META (group_key g k)) ?rows) c0"
  have "om_lookup (apply_batch (batch @ extra) (cts d) cf) (group_key h k) =
      (case map_of (rev ?puts) (cf, group_key h k) of Some v \<Rightarrow> Some v | None \<Rightarrow> om_lookup (c1 cf) (group_key h k))"
    using install_image_batch[OF R F fs inst] puts_lookup[of ?puts c1 cf]
    by (simp add: raft_batch_state[OF raft st] apply_batch_append c0_def c1_def comp_def)
  moreover have "map_of (rev ?puts) (cf, group_key h k) = (if h = g then group_state cts src g cf k else None)"
  proof -
    have "map_of (rev ?puts) (cf, group_key h k) = Some v \<longleftrightarrow> ((cf, group_key h k), v) \<in> set (rev ?puts)" for v
      by (rule map_of_functional) (auto simp: state_frame_rows simp del: set_map)
    then have "map_of (rev ?puts) (cf, group_key h k) = Some v \<longleftrightarrow> h = g \<and> group_state cts src g cf k = Some v" for v
      unfolding set_rev state_frame_rows by auto
    then show ?thesis by (metis (full_types) option.exhaust)
  qed
  moreover have "om_lookup (c1 cf) (group_key h k) = (if h = g then None else om_lookup (cts d cf) (group_key h k))"
  proof (cases "cf = CF_META")
    case True
    then have "k \<notin> set RAFT_META_KEYS" "cf \<notin> set STATE_CFS" using st by (auto simp: state_key_def STATE_CFS_def)
    with True show ?thesis
      unfolding c1_def c0_def deletes_lookup wipes_lookup by (auto simp: om_entries_iff)
  next
    case False
    then have cf: "cf \<in> set STATE_CFS" using st by (simp add: state_key_def)
    show ?thesis
      using cf cov wipe_range(1)[of g h k] wipe_range(2)[of h k] False
      unfolding c1_def c0_def deletes_lookup wipes_lookup wipe_covers_def by auto
  qed
  ultimately show ?thesis by (auto split: option.splits)
qed

lemma install_snapshot_batch:
  assumes "install_snapshot R C gs d meta img = Inr d'"
  obtains batch extra where "install_group_image R (frames C) d (gs_group gs) img [] = Inr batch"
    and "write_opt R d (batch @ extra) = Inr d'" and "\<forall>op \<in> set extra. raft_op op"
proof -
  from assms obtain batch where b: "install_group_image R (frames C) d (gs_group gs) img [] = Inr batch"
    by (auto simp: install_snapshot_def Let_def split: sum.splits)
  show thesis
  proof (cases "sm_last_log_id meta")
    case None
    with assms b obtain m mt where "write_opt R d (batch @ [PutCf CF_META (group_key (gs_group gs) META_MEMBERSHIP_KEY) m,
        PutCf CF_META (group_key (gs_group gs) META_SNAPSHOT_META_KEY) mt,
        PutCf CF_META (group_key (gs_group gs) META_SNAPSHOT_DATA_KEY) img]) = Inr d'"
      by (auto simp: install_snapshot_def Let_def split: sum.splits if_splits)
    then show ?thesis by (rule that[OF b]) simp
  next
    case (Some l)
    with assms b obtain a m mt where "write_opt R d (batch @ [PutCf CF_META (group_key (gs_group gs) META_LAST_APPLIED_KEY) a,
        PutCf CF_META (group_key (gs_group gs) META_MEMBERSHIP_KEY) m,
        PutCf CF_META (group_key (gs_group gs) META_SNAPSHOT_META_KEY) mt,
        PutCf CF_META (group_key (gs_group gs) META_SNAPSHOT_DATA_KEY) img]) = Inr d'"
      by (cases "log_id_encode C l") (auto simp: install_snapshot_def Let_def split: sum.splits if_splits)
    then show ?thesis by (rule that[OF b]) simp
  qed
qed

lemma build_snapshot_image:
  assumes "build_snapshot R C gs d now = Inr (meta, img, d')"
  obtains a b where "build_group_image_from_snapshot_limited R (frames C) d d (gs_group gs) (unat (gs_snapshot_max_bytes gs)) = Inr img"
    and "write_opt R d [PutCf CF_META (group_key (gs_group gs) META_SNAPSHOT_META_KEY) a,
           PutCf CF_META (group_key (gs_group gs) META_SNAPSHOT_DATA_KEY) b] = Inr d'"
  using assms by (auto simp: build_snapshot_def Let_def split: sum.splits if_splits prod.splits)

lemma build_snapshot_state:
  assumes "rocksdb_ok R cts" and "build_snapshot R C gs d now = Inr (meta, img, d')"
  shows "group_state cts d' = group_state cts d"
  using assms(2) by (rule build_snapshot_image) (erule raft_batch_write_state[OF assms(1)], simp)

lemma snapshot_transfer_state:
  assumes R: "rocksdb_ok R cts" and F: "frame_codec_ok (frames C)"
    and build: "build_group_image_from_snapshot_limited R (frames C) src sn (gs_group gs) n = Inr img"
    and inst: "install_snapshot R C gs d meta img = Inr d'" and cov: "wipe_covers cts d (gs_group gs)"
  shows "group_state cts d' h = (if h = gs_group gs then group_state cts sn h else group_state cts d h)"
proof -
  obtain bs where fs: "encode_frames (frames C) (state_frames cts sn (gs_group gs)) = Some bs" and img: "img = IMAGE_MAGIC @ bs"
    using build_image_frames[OF R build] by blast
  obtain batch extra where b: "install_group_image R (frames C) d (gs_group gs) img [] = Inr batch"
    and w: "write_opt R d (batch @ extra) = Inr d'" and raft: "\<forall>op \<in> set extra. raft_op op"
    using inst by (rule install_snapshot_batch)
  note row = installed_state[OF R F fs b[unfolded img] cov raft]
  show ?thesis
  proof (intro ext)
    fix cf k
    show "group_state cts d' h cf k = (if h = gs_group gs then group_state cts sn h else group_state cts d h) cf k"
      using row[of cf k h] rocksdb_okD(4)[OF R w] by (cases "state_key cf k") (auto simp: group_state_def)
  qed
qed

section \<open>Destroying a group\<close>

lemma destroy_cfs_state:
  assumes R: "rocksdb_ok R cts" and "destroy_cfs R s e cfs d = Inr d'"
  shows "om_lookup (cts d' cf) x = (if cf \<in> set cfs \<and> s \<le> x \<and> x < e then None else om_lookup (cts d cf) x)"
  using assms(2)
proof (induction cfs arbitrary: d)
  case (Cons c cfs)
  then obtain d1 where d1: "delete_range_cf R d c s e = Inr d1"
    and rest: "destroy_cfs R s e cfs (case delete_file_in_range_cf R d1 c s e of Inl _ \<Rightarrow> d1 | Inr d2 \<Rightarrow> d2) = Inr d'"
    by (auto split: if_splits sum.splits)
  have range: "om_lookup (cts d1 cf) x = (if cf = c \<and> s \<le> x \<and> x < e then None else om_lookup (cts d cf) x)"
    using rocksdb_okD(5)[OF R d1] by auto
  have "om_lookup (cts (case delete_file_in_range_cf R d1 c s e of Inl _ \<Rightarrow> d1 | Inr d2 \<Rightarrow> d2) cf) x = om_lookup (cts d1 cf) x"
  proof (cases "delete_file_in_range_cf R d1 c s e")
    case (Inr d2)
    with files_lookup[OF R Inr, of cf x] range show ?thesis by (auto split: if_splits)
  qed simp
  with Cons.IH[OF rest] range show ?case by auto
qed simp

lemma destroy_group_state:
  assumes R: "rocksdb_ok R cts" and "destroy_group R d g = Inr d'"
  shows "group_state cts d' h = (if h = g then (\<lambda>_ _. None) else group_state cts d h)"
proof (intro ext)
  fix cf k
  from assms(2) obtain s e where "g \<noteq> SYS_GROUP" and se: "group_range g = (s, Some e)"
    and run: "destroy_cfs R s e (STATE_CFS @ [CF_RAFT_LOG, CF_META]) d = Inr d'"
    by (auto simp: destroy_group_def split: if_splits prod.splits option.splits)
  have "s \<le> group_key h k \<and> group_key h k < e \<longleftrightarrow> h = g"
    using group_range_iff[of g h k] by (simp add: se in_key_range_def)
  moreover have "state_key cf k \<Longrightarrow> cf \<in> set (STATE_CFS @ [CF_RAFT_LOG, CF_META])" by (auto simp: state_key_def)
  ultimately show "group_state cts d' h cf k = (if h = g then (\<lambda>_ _. None) else group_state cts d h) cf k"
    using destroy_cfs_state[OF R run, of cf "group_key h k"] by (auto simp: group_state_def)
qed

lemma compact_expiry_rows:
  assumes R: "rocksdb_ok R cts" and "compact_swept_expiry R d g = Inr d'" and "cf \<noteq> CF_EXPIRY"
  shows "om_lookup (cts d' cf) x = om_lookup (cts d cf) x"
proof -
  have "cts (compact_range_cf R d cf s e) = cts d" for d cf s e using R unfolding rocksdb_ok_def by blast
  then show ?thesis
    using assms(2,3) files_lookup(1)[OF R] by (auto simp: compact_swept_expiry_def Let_def split: if_splits sum.splits option.splits)
qed

end
