(* ===== verification/Mem_Codec.thy ===== *)
theory Mem_Codec
  imports Mem_Store Snapshot_Transfer
begin

text \<open>
  A codec for everything the state machine and the log store keep in the database, with the round trips
  that the development assumes of bincode. It serves the concrete runs: values are lists of
  length-prefixed tokens.
\<close>

section \<open>Tokens\<close>

definition tok :: "string \<Rightarrow> string" where
  "tok s = nat_str (length s) @ '':'' @ s"

definition toks :: "string list \<Rightarrow> string" where
  "toks ss = concat (map tok ss)"

function untoks :: "string \<Rightarrow> string list option" where
  "untoks b =
     (if b = [] then Some []
      else
        (case split_once CHR '':'' b of
           None \<Rightarrow> None
         | Some (n, r) \<Rightarrow>
             (case parse_digits n of
                None \<Rightarrow> None
              | Some k \<Rightarrow> map_option (\<lambda>ts. take k r # ts) (untoks (drop k r)))))"
  by pat_completeness auto
termination
  by (relation "measure length") (auto dest!: split_once_SomeD)

declare untoks.simps [simp del]

lemma nat_str_no_colon [simp]: "CHR '':'' \<notin> set (nat_str n)"
  using nat_str_chars digit_not_special by blast

lemma untoks_toks [simp]: "untoks (toks ss) = Some ss"
proof (induction ss)
  case (Cons s ss)
  have "split_once CHR '':'' (nat_str (length s) @ CHR '':'' # s @ toks ss) = Some (nat_str (length s), s @ toks ss)"
    by (rule split_once_append) simp
  with Cons show ?case
    by (subst untoks.simps) (simp add: toks_def tok_def)
qed (simp add: toks_def untoks.simps)

definition enc_all :: "('a \<Rightarrow> string) \<Rightarrow> 'a list \<Rightarrow> string" where
  "enc_all enc xs = toks (map enc xs)"

fun all_some :: "'a option list \<Rightarrow> 'a list option" where
  "all_some [] = Some []"
| "all_some (x # xs) = Option.bind x (\<lambda>x. map_option (\<lambda>ys. x # ys) (all_some xs))"

definition dec_all :: "(string \<Rightarrow> 'a option) \<Rightarrow> string \<Rightarrow> 'a list option" where
  "dec_all dec b = Option.bind (untoks b) (\<lambda>ts. all_some (map dec ts))"

lemma dec_enc_all [simp]: "(\<And>x. dec (enc x) = Some x) \<Longrightarrow> dec_all dec (enc_all enc xs) = Some xs"
proof -
  assume "\<And>x. dec (enc x) = Some x"
  then have "all_some (map dec (map enc xs)) = Some xs" by (induction xs) simp_all
  then show ?thesis by (simp add: dec_all_def enc_all_def)
qed

section \<open>Values\<close>

definition dec_int :: "string \<Rightarrow> int option" where
  "dec_int s =
     (case s of
        c # r \<Rightarrow> if c = CHR ''-'' then map_option (\<lambda>n. - int n) (parse_digits r) else map_option int (parse_digits s)
      | [] \<Rightarrow> None)"

lemma dec_int_str [simp]: "dec_int (int_str i) = Some i"
proof (cases "i < 0")
  case False
  obtain c r where c: "nat_str (nat i) = c # r" "is_digit c" by (rule nat_str_head)
  then have "c \<noteq> CHR ''-''" by auto
  with False c(1) parse_digits_nat_str[of "nat i"] show ?thesis by (simp add: dec_int_def int_str_def)
qed (simp add: dec_int_def int_str_def)

definition dec_word :: "string \<Rightarrow> 'a::len word option" where
  "dec_word s = map_option word_of_nat (parse_digits s)"

lemma dec_word_str [simp]: "dec_word (nat_str (unat w)) = Some w"
  by (simp add: dec_word_def)

definition dec_mode :: "string \<Rightarrow> mode option" where
  "dec_mode s = (if s = ''read'' then Some Read else if s = ''write'' then Some Write else None)"

lemma dec_mode_str [simp]: "dec_mode (mode_str m) = Some m"
  by (cases m) (simp_all add: dec_mode_def)

definition enc_req :: "lock_req \<Rightarrow> string" where
  "enc_req r = toks [lr_path r, mode_str (lr_mode r), if lr_state r = New then ''n'' else ''h'', nat_str (unat (lr_permits r))]"

definition dec_req :: "string \<Rightarrow> lock_req option" where
  "dec_req b =
     (case untoks b of
        Some [p, m, s, n] \<Rightarrow>
          Option.bind (dec_mode m) (\<lambda>m. map_option (\<lambda>n.
            \<lparr> lr_path = p, lr_mode = m, lr_state = (if s = ''n'' then New else Held), lr_permits = n \<rparr>) (dec_word n))
      | _ \<Rightarrow> None)"

lemma dec_enc_req [simp]: "dec_req (enc_req r) = Some r"
  by (cases "lr_state r") (simp_all add: dec_req_def enc_req_def)

definition enc_rel :: "rel_req \<Rightarrow> string" where
  "enc_rel r = toks [rr_path r, mode_str (rr_mode r)]"

definition dec_rel :: "string \<Rightarrow> rel_req option" where
  "dec_rel b =
     (case untoks b of
        Some [p, m] \<Rightarrow> map_option (\<lambda>m. \<lparr> rr_path = p, rr_mode = m \<rparr>) (dec_mode m)
      | _ \<Rightarrow> None)"

lemma dec_enc_rel [simp]: "dec_rel (enc_rel r) = Some r"
  by (simp add: dec_rel_def enc_rel_def)

definition enc_args :: "acquire_args \<Rightarrow> string" where
  "enc_args a = toks [aa_owner_id a, nat_str (unat (aa_ttl_ms a)), enc_all enc_req (aa_requests a),
     int_str (aa_fencing_token a), enc_all enc_rel (aa_release_requests a), nat_str (unat (aa_queue_ttl_ms a))]"

definition dec_args :: "string \<Rightarrow> acquire_args option" where
  "dec_args b =
     (case untoks b of
        Some [o', ttl, reqs, token, rels, qttl] \<Rightarrow>
          Option.bind (dec_word ttl) (\<lambda>ttl. Option.bind (dec_all dec_req reqs) (\<lambda>reqs.
          Option.bind (dec_int token) (\<lambda>token. Option.bind (dec_all dec_rel rels) (\<lambda>rels.
          map_option (\<lambda>qttl. \<lparr> aa_owner_id = o', aa_ttl_ms = ttl, aa_requests = reqs, aa_fencing_token = token,
            aa_release_requests = rels, aa_queue_ttl_ms = qttl \<rparr>) (dec_word qttl)))))
      | _ \<Rightarrow> None)"

lemma dec_enc_args [simp]: "dec_args (enc_args a) = Some a"
  by (simp add: dec_args_def enc_args_def)

definition enc_entry :: "queue_entry \<Rightarrow> string" where
  "enc_entry e = toks [nat_str (unat (qe_seq e)), qe_owner e, qe_namespace e, enc_args (qe_args e),
     algorithm_str (lp_algorithm (qe_policy e)), nat_str (unat (lp_epoch (qe_policy e)))]"

definition dec_entry :: "string \<Rightarrow> error + queue_entry" where
  "dec_entry b =
     (case untoks b of
        Some [s, o', ns, a, alg, ep] \<Rightarrow>
          (case (dec_word s, dec_args a, algorithm_from_str alg, dec_word ep) of
             (Some s, Some a, Inr alg, Some ep) \<Rightarrow>
               Inr \<lparr> qe_seq = s, qe_owner = o', qe_namespace = ns, qe_args = a, qe_policy = lock_policy_new alg ep \<rparr>
           | _ \<Rightarrow> Inl DecodeError)
      | _ \<Rightarrow> Inl DecodeError)"

lemma dec_enc_entry [simp]: "dec_entry (enc_entry e) = Inr e"
  by (simp add: dec_entry_def enc_entry_def lock_policy_new_def)

definition enc_frame :: "frame \<Rightarrow> string" where
  "enc_frame f = toks [nat_str (fr_cf f), fr_key f, fr_value f]"

definition dec_frame :: "string \<Rightarrow> error + frame" where
  "dec_frame b =
     (case untoks b of
        Some [n, k, v] \<Rightarrow> (case parse_digits n of Some n \<Rightarrow> Inr \<lparr> fr_cf = n, fr_key = k, fr_value = v \<rparr> | None \<Rightarrow> Inl DecodeError)
      | _ \<Rightarrow> Inl DecodeError)"

lemma dec_enc_frame [simp]: "dec_frame (enc_frame f) = Inr f"
  by (simp add: dec_frame_def enc_frame_def)

section \<open>Responses\<close>

text \<open>The responses the runs record: a counter value or nothing.\<close>

definition enc_response :: "u64 \<times> apply_response \<Rightarrow> error + bytes" where
  "enc_response r =
     (case r of
        (fp, RespIncrFence n) \<Rightarrow> Inr (toks [nat_str (unat fp), int_str n])
      | (fp, RespUnit) \<Rightarrow> Inr (toks [nat_str (unat fp)])
      | _ \<Rightarrow> Inl EncodeError)"

definition dec_response :: "bytes \<Rightarrow> error + (u64 \<times> apply_response)" where
  "dec_response b =
     (case untoks b of
        Some [fp, n] \<Rightarrow>
          (case (dec_word fp, dec_int n) of
             (Some fp, Some n) \<Rightarrow> Inr (fp, RespIncrFence n)
           | _ \<Rightarrow> Inl DecodeError)
      | Some [fp] \<Rightarrow> (case dec_word fp of Some fp \<Rightarrow> Inr (fp, RespUnit) | None \<Rightarrow> Inl DecodeError)
      | _ \<Rightarrow> Inl DecodeError)"

lemma dec_enc_response: "enc_response r = Inr b \<Longrightarrow> dec_response b = Inr r"
  by (cases r; cases "snd r") (auto simp: enc_response_def dec_response_def)

section \<open>The codec\<close>

text \<open>Log ids and votes are numbers; memberships carry nothing. Commands are named by their kind.\<close>

definition mem_op :: "op \<Rightarrow> bytes" where
  "mem_op op = (case op of IncrFence \<Rightarrow> ''incr'' | Noop \<Rightarrow> ''noop'' | _ \<Rightarrow> ''other'')"

definition dec_u64 :: "bytes \<Rightarrow> error + u64" where
  "dec_u64 b = (if length b = 8 then Inr (u64_from_be b) else Inl DecodeError)"

definition mem_entry_encode :: "queue_entry \<Rightarrow> error + bytes" where
  "mem_entry_encode e = Inr (enc_entry e)"

definition mem_op_encode :: "op \<Rightarrow> error + bytes" where
  "mem_op_encode op = Inr (mem_op op)"

definition mem_hash :: "bytes \<Rightarrow> u64" where
  "mem_hash b = word_of_nat (from_be b)"

definition mem_group_record :: "group_record \<Rightarrow> error + bytes" where
  "mem_group_record r = Inr (nat_str (length (gr_voters r)))"

definition mem_u64_encode :: "u64 \<Rightarrow> error + bytes" where
  "mem_u64_encode l = Inr (u64_be l)"

definition mem_log_index :: "u64 \<Rightarrow> u64" where
  "mem_log_index l = l"

definition mem_log_encode :: "(u64, unit) entry \<Rightarrow> error + bytes" where
  "mem_log_encode e = (case en_payload e of Blank \<Rightarrow> Inr (u64_be (en_log_id e)) | _ \<Rightarrow> Inl EncodeError)"

definition mem_log_decode :: "bytes \<Rightarrow> error + (u64, unit) entry" where
  "mem_log_decode b = map_sum id (\<lambda>l. \<lparr> en_log_id = l, en_payload = Blank \<rparr>) (dec_u64 b)"

definition mem_unit_encode :: "unit \<Rightarrow> error + bytes" where
  "mem_unit_encode u = Inr []"

definition mem_unit_decode :: "bytes \<Rightarrow> error + unit" where
  "mem_unit_decode b = Inr ()"

definition mem_membership :: "u64 \<Rightarrow> unit \<Rightarrow> unit" where
  "mem_membership l m = ()"

definition mem_meta_encode :: "(u64, unit) snapshot_meta \<Rightarrow> error + bytes" where
  "mem_meta_encode m = Inr (tok (sm_snapshot_id m))"

definition mem_meta_decode :: "bytes \<Rightarrow> error + (u64, unit) snapshot_meta" where
  "mem_meta_decode b = Inl DecodeError"

definition mem_frame_encode :: "frame \<Rightarrow> error + bytes" where
  "mem_frame_encode f = Inr (enc_frame f)"

definition mem_encode_record :: "stored_record \<Rightarrow> error + bytes" where
  "mem_encode_record rec = bincode_encode mem_codec rec"

definition mem_raft :: "(u64, u64, unit, unit) raft_codec" where
  "mem_raft =
     \<lparr> bincode_encode = mem_encode_record, bincode_decode = mem_decode,
       entry_encode = mem_entry_encode, entry_decode = dec_entry,
       op_encode = mem_op_encode, xxh3_64 = mem_hash,
       dedupe_encode = enc_response, dedupe_decode = dec_response,
       group_record_encode = mem_group_record,
       log_index = mem_log_index, log_id_encode = mem_u64_encode, log_id_decode = dec_u64,
       vote_encode = mem_u64_encode, vote_decode = dec_u64,
       entry_rec_encode = mem_log_encode, entry_rec_decode = mem_log_decode,
       membership_encode = mem_unit_encode, membership_decode = mem_unit_decode, membership_default = (),
       stored_membership = mem_membership,
       snapshot_meta_encode = mem_meta_encode, snapshot_meta_decode = mem_meta_decode,
       frames = \<lparr> frame_encode = mem_frame_encode, frame_decode = dec_frame \<rparr> \<rparr>"

lemma mem_raft_ok: "codec_ok mem_raft" "queue_codec_ok mem_raft" "frame_codec_ok (frames mem_raft)"
proof -
  show "codec_ok mem_raft" using mem_codec_ok by (simp add: codec_ok_def mem_raft_def mem_encode_record_def mem_codec_def)
  show "queue_codec_ok mem_raft" by (simp add: queue_codec_ok_def mem_raft_def mem_entry_encode_def)
  show "frame_codec_ok (frames mem_raft)" by (simp add: frame_codec_ok_def mem_raft_def mem_frame_encode_def)
qed

end
