(* ===== verification/Replica.thy ===== *)
theory Replica
  imports Mem_Codec
begin

text \<open>
  The database of a node, over every history of what is done to it: the state machine applies committed
  log entries of its groups, Raft appends, truncates and purges logs and saves votes, snapshots are built
  and installed, groups are destroyed, the expiry index is compacted. Whatever the history, the locks of
  every group satisfy the lock invariant.
\<close>

section \<open>Histories of a database\<close>

definition entry_op_ok :: "(string \<Rightarrow> bool) \<Rightarrow> ('l, 'm) entry \<Rightarrow> bool" where
  "entry_op_ok sp e \<longleftrightarrow> (case en_payload e of Normal cmd \<Rightarrow> op_ok sp (cmd_op cmd) | _ \<Rightarrow> True)"

text \<open>What Raft writes for itself.\<close>

inductive raft_write ::
    "'db rocksdb \<Rightarrow> ('l, 'v, 'm, 's, 'c) raft_codec_scheme \<Rightarrow> 'db \<Rightarrow> 'db \<Rightarrow> bool" for R C d d' where
  voted: "save_vote R C d g vote = Inr d' \<Longrightarrow> raft_write R C d d'"
| committed: "save_committed R C d g log_id = Inr d' \<Longrightarrow> raft_write R C d d'"
| appended: "append_entries R C d g es = Inr d' \<Longrightarrow> raft_write R C d d'"
| truncated: "truncate_after R C d g log_id = Inr d' \<Longrightarrow> raft_write R C d d'"
| purged: "purge R C d g purged_to = Inr d' \<Longrightarrow> raft_write R C d d'"
| built: "build_snapshot R C gs d now = Inr (meta, img, d') \<Longrightarrow> raft_write R C d d'"

lemma raft_write_state: "rocksdb_ok R cts \<Longrightarrow> raft_write R C d d' \<Longrightarrow> group_state cts d' = group_state cts d"
  by (auto elim!: raft_write.cases dest: log_store_state build_snapshot_state)

inductive reachable ::
    "'db rocksdb \<Rightarrow> ('l, 'v, 'm, 's, 'c) raft_codec_scheme \<Rightarrow> ('db \<Rightarrow> cf \<Rightarrow> (bytes, bytes) omap) \<Rightarrow> (string \<Rightarrow> bool) \<Rightarrow>
     'db \<Rightarrow> bool" for R C cts sp where
  created: "(\<And>cf. cts d cf = om_empty) \<Longrightarrow> reachable R C cts sp d"
| applied: "reachable R C cts sp d \<Longrightarrow> \<forall>e \<in> set es. entry_op_ok sp e \<Longrightarrow>
    apply_entries R C gs d es [] = Inr (responses, d') \<Longrightarrow> reachable R C cts sp d'"
| logged: "reachable R C cts sp d \<Longrightarrow> raft_write R C d d' \<Longrightarrow> reachable R C cts sp d'"
| installed: "reachable R C cts sp d \<Longrightarrow> reachable R C cts sp src \<Longrightarrow>
    build_group_image_from_snapshot_limited R (frames C) src src (gs_group gs) n = Inr img \<Longrightarrow>
    install_snapshot R C gs d meta img = Inr d' \<Longrightarrow> wipe_covers cts d (gs_group gs) \<Longrightarrow> reachable R C cts sp d'"
| destroyed: "reachable R C cts sp d \<Longrightarrow> destroy_group R d g = Inr d' \<Longrightarrow> reachable R C cts sp d'"
| compacted: "reachable R C cts sp d \<Longrightarrow> compact_swept_expiry R d g = Inr d' \<Longrightarrow> reachable R C cts sp d'"

lemma map_sum_Inr_iff: "map_sum f g r = Inr y \<longleftrightarrow> (\<exists>x. r = Inr x \<and> y = g x)"
  by (cases r) auto

lemma apply_entries_inv:
  assumes R: "rocksdb_ok R cts" and "apply_entries R C gs d es rs = Inr (rs', d')"
    and "\<forall>e \<in> set es. entry_op_ok sp e" and "\<And>h. db_inv R C cts sp h d"
  shows "db_inv R C cts sp h d'"
  using assms(2-4)
proof (induction es arbitrary: d rs)
  case (Cons e es)
  have step: "db_inv R C cts sp h d1"
    if "put_applied R C gs d l m = Inr d1" for h d1 l m
    using log_store_state(6)[OF R that] by (intro db_inv_state[OF Cons.prems(3)]) simp
  have cmd: "db_inv R C cts sp h d1"
    if "apply_entry R C d (gs_group gs) cmd applied alg = Inr (r, d1)" "op_ok sp (cmd_op cmd)" for h d1 cmd applied alg r
    using that apply_with_meta_inv[OF _ that(2) Cons.prems(3)] by (auto simp: apply_entry_def map_sum_Inr_iff split: sum.splits)
  show ?case
  proof (cases "en_payload e")
    case Blank
    with Cons.prems obtain d1 rs1 where "put_applied R C gs d (en_log_id e) None = Inr d1" "apply_entries R C gs d1 es rs1 = Inr (rs', d')"
      by (auto simp: Let_def map_sum_Inr_iff split: sum.splits)
    with Cons.IH[of d1 rs1] Cons.prems(2) step show ?thesis by auto
  next
    case (Normal cmd)
    with Cons.prems obtain r d1 rs1 where "apply_entry R C d (gs_group gs) cmd (log_id_encode C (en_log_id e)) (gs_default_algorithm gs) = Inr (r, d1)"
      "apply_entries R C gs d1 es rs1 = Inr (rs', d')"
      by (auto simp: Let_def split: sum.splits)
    with Cons.IH[of d1 rs1] Cons.prems(2) cmd Normal show ?thesis by (auto simp: entry_op_ok_def)
  next
    case (Membership m)
    with Cons.prems obtain d1 rs1 where "put_applied R C gs d (en_log_id e) (Some (stored_membership C (en_log_id e) m)) = Inr d1"
      "apply_entries R C gs d1 es rs1 = Inr (rs', d')"
      by (auto simp: Let_def map_sum_Inr_iff split: sum.splits)
    with Cons.IH[of d1 rs1] Cons.prems(2) step show ?thesis by auto
  qed
qed simp

text \<open>What the code outside promises, together.\<close>

definition env_ok ::
    "'db rocksdb \<Rightarrow> ('l, 'v, 'm, 's, 'c) raft_codec_scheme \<Rightarrow> ('db \<Rightarrow> cf \<Rightarrow> (bytes, bytes) omap) \<Rightarrow> bool" where
  "env_ok R C cts \<longleftrightarrow> rocksdb_ok R cts \<and> codec_ok C \<and> queue_codec_ok C \<and> frame_codec_ok (frames C)"

lemma db_inv_empty:
  assumes env: "env_ok R C cts" and none: "\<And>cf k. state_key cf k \<Longrightarrow> om_lookup (cts d cf) (group_key g k) = None"
  shows "db_inv R C cts sp g d"
proof -
  let ?t = "write_txn_new d g 0" and ?s0 = "\<lparr> s_now = 0, s_view = (\<lambda>_ _. None), s_raw = (\<lambda>_. {}) \<rparr>"
  have "faded ?s0 (write_state C cts ?t)"
    using none hard_state_key by (auto simp: faded_def write_state_def view_state_def str_view_def)
  moreover have "coherent ?s0" "lock_inv sp (table ?s0)" "own_complete (table ?s0)"
    by (rule coherent_empty table_empty, simp)+
  ultimately have "coherent (write_state C cts ?t)" "lock_inv sp (table (write_state C cts ?t))"
    "own_complete (table (write_state C cts ?t))"
    by (blast intro: faded_coherent, simp_all add: faded_inv)
  moreover have "queue_ok C sp (txn_view cts ?t CF_QUEUE)"
    using none[of CF_QUEUE] by (simp add: queue_ok_def state_key_def STATE_CFS_def)
  ultimately show ?thesis
    using env by (simp add: db_inv_def group_inv_def engine_inv_def lock_state_of_def write_ok_def new_txn_ok env_ok_def)
qed

lemma reachable_inv:
  assumes env: "env_ok R C cts" and "reachable R C cts sp d"
  shows "db_inv R C cts sp h d"
  using assms(2)
proof (induction arbitrary: h rule: reachable.induct)
  case (created d)
  then show ?case by (intro db_inv_empty[OF env]) simp
next
  case (applied d es gs responses d')
  then show ?case using env apply_entries_inv[OF _ applied(3,2)] by (simp add: env_ok_def)
next
  case (installed d src gs n img meta d')
  have "group_state cts d' h = group_state cts (if h = gs_group gs then src else d) h"
    using env snapshot_transfer_state[OF _ _ installed(3-5), where h = h] by (auto simp: env_ok_def)
  with installed(6,7) show ?case by (cases "h = gs_group gs") (auto intro: db_inv_state)
next
  case (destroyed d g d')
  have gone: "group_state cts d' h = (if h = g then (\<lambda>_ _. None) else group_state cts d h)"
    using env destroy_group_state[OF _ destroyed(2)] by (simp add: env_ok_def)
  show ?case
  proof (cases "h = g")
    case True
    with gone have "group_state cts d' g cf k = None" for cf k by (simp add: fun_eq_iff)
    then have "state_key cf k \<Longrightarrow> om_lookup (cts d' cf) (group_key g k) = None" for cf k
      unfolding group_state_def by metis
    with True show ?thesis by (simp add: db_inv_empty[OF env])
  next
    case False
    with gone show ?thesis by (intro db_inv_state[OF destroyed.IH[of h]]) simp
  qed
next
  case (compacted d g d')
  then show ?case using env by (intro db_inv_rows[OF compacted.IH]) (auto simp: env_ok_def compact_expiry_rows)
next
  case (logged d d')
  have "group_state cts d' = group_state cts d" using env by (intro raft_write_state[OF _ logged(2)]) (simp add: env_ok_def)
  then show ?case by (intro db_inv_state[OF logged.IH[of h]]) simp
qed

section \<open>What every history keeps\<close>

definition locks_of ::
    "'c codec_scheme \<Rightarrow> ('db \<Rightarrow> cf \<Rightarrow> (bytes, bytes) omap) \<Rightarrow> 'db \<Rightarrow> group_id \<Rightarrow> lock_table" where
  "locks_of C cts d g = lock_state_of C cts (write_txn_new d g 0)"

lemma reachable_locks:
  assumes "env_ok R C cts" and "reachable R C cts sp d"
  shows "lock_inv sp (locks_of C cts d g)" and "own_complete (locks_of C cts d g)"
  using reachable_inv[OF assms, of g] by (auto simp: db_inv_def group_inv_def engine_inv_def locks_of_def)


text \<open>C2: a semaphore never has more holders than its capacity, in every database a node can get to: the
  holders of a path are finitely many, its capacity is recorded and bounds their number.\<close>

theorem semaphore_within_capacity:
  assumes "env_ok R C cts" and "reachable R C cts sp d" and "l_sem (locks_of C cts d g) q \<noteq> {}"
  shows "finite (l_sem (locks_of C cts d g) q) \<and>
    (\<exists>c. cap_of (locks_of C cts d g) q = Some c \<and> card (l_sem (locks_of C cts d g) q) \<le> unat c)"
  using reachable_locks(1)[OF assms(1,2), of g] assms(3) by (auto simp: lock_inv_def within_capacity_def)

text \<open>C3: a snapshot carries exactly the state of its group. Built on one database and installed on another,
  it gives the other the replicated rows of the group as they were on the first, whatever was there before,
  and leaves the rows of all other groups as they were.\<close>

theorem snapshot_transfer:
  assumes "env_ok R C cts" and "build_snapshot R C gs src now = Inr (meta, img, src')"
    and "install_snapshot R C gs d meta img = Inr d'" and "wipe_covers cts d (gs_group gs)"
  shows "group_state cts d' (gs_group gs) = group_state cts src (gs_group gs) \<and>
    (\<forall>h. h \<noteq> gs_group gs \<longrightarrow> group_state cts d' h = group_state cts d h)"
proof -
  from assms(2) obtain a b where
    "build_group_image_from_snapshot_limited R (frames C) src src (gs_group gs) (unat (gs_snapshot_max_bytes gs)) = Inr img"
    by (rule build_snapshot_image)
  from snapshot_transfer_state[OF _ _ this assms(3,4)] assms(1) show ?thesis by (auto simp: env_ok_def)
qed

text \<open>C5: Raft's own writes (votes, log appends, truncation, purging, the committed marker, snapshot records)
  and compaction never change the replicated rows of any group.\<close>

theorem raft_writes_are_apart:
  assumes "rocksdb_ok R cts" and "raft_write R C d d'"
  shows "group_state cts d' = group_state cts d"
  by (rule raft_write_state[OF assms])

text \<open>C4: a group is an island: applying an entry to one group leaves the rows of every other group as they
  were, in every column family.\<close>

theorem groups_are_islands:
  assumes "env_ok R C cts" and "reachable R C cts sp d" and "op_ok sp (cmd_op cmd)"
    and "apply_entry R C d g cmd applied alg = Inr (resp, d')" and "h \<noteq> g"
  shows "group_view h (cts d' cf) = group_view h (cts d cf)"
proof -
  from assms(4) obtain w a where run: "apply_with_meta R C d g cmd (Some a) alg = Inr (resp, w, d')"
    by (auto simp: apply_entry_def map_sum_Inr_iff split: sum.splits)
  from apply_commits[OF run assms(3) reachable_inv[OF assms(1,2)]] show ?thesis
    using commit_view(3)[OF group_invD(4)] assms(5) by auto
qed

section \<open>Witnesses\<close>

text \<open>The locks of a group, read off the rows of the database.\<close>

lemma locks_of_rows:
  "nul_free q \<Longrightarrow> l_wr (locks_of C cts d g) q =
     map_option fst (str_record C (om_lookup (cts d CF_WRITE_LOCKS) (group_key g (wr_key q))))"
  "nul_free q \<Longrightarrow> l_sem (locks_of C cts d g) q =
     {m. str_record C (om_lookup (cts d CF_SEMAPHORE) (group_key g (member_key (q @ [NUL]) m))) \<noteq> None}"
  by (simp_all add: locks_of_def lock_state_of_def table_def record_of_def members_of_def write_state_def
      view_state_def str_view_def new_txn_view om_lookup_group_view)

lemma mem_env_ok: "env_ok mem_rocks mem_raft mem_cts"
  unfolding env_ok_def by (intro conjI mem_rocks_ok mem_raft_ok)

definition demo_gs :: group_state_machine where
  "demo_gs = \<lparr> gs_group = 0, gs_default_algorithm = RecursiveRw, gs_snapshot_max_bytes = 100000 \<rparr>"

definition demo_entry :: "op \<Rightarrow> (u64, unit) entry" where
  "demo_entry op = \<lparr> en_log_id = 1, en_payload = Normal \<lparr> cmd_request_id = None, cmd_now_ms = 1000, cmd_op = op \<rparr> \<rparr>"


definition demo_permit :: "string \<Rightarrow> op" where
  "demo_permit owner = AcquireInNamespace ''s'' (lock_policy_from_algorithm Semaphore)
     \<lparr> aa_owner_id = owner, aa_ttl_ms = 5000,
       aa_requests = [\<lparr> lr_path = ''s:/p'', lr_mode = Write, lr_state = New, lr_permits = 2 \<rparr>],
       aa_fencing_token = 0, aa_release_requests = [], aa_queue_ttl_ms = 0 \<rparr>"

definition demo_row :: "mem_db \<Rightarrow> cf \<Rightarrow> bytes \<Rightarrow> string option" where
  "demo_row d cf k = map_option fst (str_record mem_raft (map_of d (cf, group_key 0 k)))"

definition demo_run :: "op list \<Rightarrow> error + (apply_response list \<times> mem_db)" where
  "demo_run ops = apply_entries mem_rocks mem_raft demo_gs mem_empty (map demo_entry ops) []"

lemma demo_run_reachable:
  assumes "demo_run ops = Inr (rs, d)" and "\<forall>op \<in> set ops. op_ok sp op"
  shows "reachable mem_rocks mem_raft mem_cts sp d"
  using assms unfolding demo_run_def
  by (intro applied[OF created, of mem_cts mem_empty]) (auto simp: demo_entry_def entry_op_ok_def)



theorem semaphore_within_capacity_witness:
  "\<exists>d. reachable mem_rocks mem_raft mem_cts (\<lambda>_. True) d \<and>
     (let L = locks_of mem_raft mem_cts d 0; q = scoped_path ''s'' ''s:/p'' in
      ''alice'' \<in> l_sem L q \<and> (\<exists>c. cap_of L q = Some c \<and> card (l_sem L q) \<le> unat c))"
proof -
  have "case demo_run [demo_permit ''alice''] of Inl _ \<Rightarrow> False | Inr (_, d) \<Rightarrow>
      demo_row d CF_SEMAPHORE (member_key (scoped_path ''s'' ''s:/p'' @ [NUL]) ''alice'') = Some ''alice''"
    by code_simp
  then obtain rs d where run: "demo_run [demo_permit ''alice''] = Inr (rs, d)"
    and row: "demo_row d CF_SEMAPHORE (member_key (scoped_path ''s'' ''s:/p'' @ [NUL]) ''alice'') = Some ''alice''"
    by (auto split: sum.splits)
  have d: "reachable mem_rocks mem_raft mem_cts (\<lambda>_. True) d"
    by (rule demo_run_reachable[OF run]) (simp add: demo_permit_def op_ok_def args_ok_def requests_ok_def
        lock_policy_from_algorithm_def lock_policy_new_def)
  moreover have "''alice'' \<in> l_sem (locks_of mem_raft mem_cts d 0) (scoped_path ''s'' ''s:/p'')"
    using row by (auto simp: locks_of_rows demo_row_def scoped_path_nul_free)
  ultimately show ?thesis
    using semaphore_within_capacity[OF mem_env_ok d, of 0 "scoped_path ''s'' ''s:/p''"] by (auto simp: Let_def)
qed

theorem snapshot_transfer_witness:
  "\<exists>src meta img src' d'. build_snapshot mem_rocks mem_raft demo_gs src 7 = Inr (meta, img, src') \<and>
     install_snapshot mem_rocks mem_raft demo_gs mem_empty meta img = Inr d' \<and>
     group_state mem_cts d' 0 = group_state mem_cts src 0"
proof -
  have "case demo_run [IncrFence] of Inl _ \<Rightarrow> False | Inr (_, src) \<Rightarrow>
      (case build_snapshot mem_rocks mem_raft demo_gs src 7 of Inl _ \<Rightarrow> False | Inr (meta, img, src') \<Rightarrow>
        \<not> isl (install_snapshot mem_rocks mem_raft demo_gs mem_empty meta img))"
    by code_simp
  then obtain src where "case build_snapshot mem_rocks mem_raft demo_gs src 7 of Inl _ \<Rightarrow> False | Inr (meta, img, src') \<Rightarrow>
      \<not> isl (install_snapshot mem_rocks mem_raft demo_gs mem_empty meta img)"
    by (cases "demo_run [IncrFence]") auto
  then obtain meta img src' where built: "build_snapshot mem_rocks mem_raft demo_gs src 7 = Inr (meta, img, src')"
    and "\<not> isl (install_snapshot mem_rocks mem_raft demo_gs mem_empty meta img)"
    by (cases "build_snapshot mem_rocks mem_raft demo_gs src 7") auto
  then obtain d' where inst: "install_snapshot mem_rocks mem_raft demo_gs mem_empty meta img = Inr d'"
    by (cases "install_snapshot mem_rocks mem_raft demo_gs mem_empty meta img") auto
  have "wipe_covers mem_cts mem_empty (gs_group demo_gs)" by (simp add: wipe_covers_def mem_empty_def)
  from snapshot_transfer[OF mem_env_ok built inst this]
  have "group_state mem_cts d' 0 = group_state mem_cts src 0" by (simp add: demo_gs_def)
  with built inst show ?thesis by blast
qed

theorem raft_writes_are_apart_witness:
  "\<exists>d'. save_vote mem_rocks mem_raft mem_empty 0 3 = Inr d' \<and> d' \<noteq> mem_empty \<and>
     group_state mem_cts d' = group_state mem_cts mem_empty"
proof -
  have "case save_vote mem_rocks mem_raft mem_empty 0 3 of Inl _ \<Rightarrow> False | Inr d' \<Rightarrow> d' \<noteq> mem_empty" by code_simp
  then obtain d' where run: "save_vote mem_rocks mem_raft mem_empty 0 3 = Inr d'" and "d' \<noteq> mem_empty"
    by (cases "save_vote mem_rocks mem_raft mem_empty 0 3") auto
  with raft_writes_are_apart[OF mem_rocks_ok raft_write.voted[OF run]] show ?thesis by blast
qed

theorem groups_are_islands_witness:
  "\<exists>resp d'. apply_entry mem_rocks mem_raft mem_empty 0
       \<lparr> cmd_request_id = None, cmd_now_ms = 1000, cmd_op = IncrFence \<rparr> (Inr []) RecursiveRw = Inr (resp, d') \<and>
     group_view 1 (mem_cts d' CF_META) = group_view 1 (mem_cts mem_empty CF_META)"
proof -
  let ?c = "\<lparr> cmd_request_id = None, cmd_now_ms = 1000, cmd_op = IncrFence \<rparr>"
  have "\<not> isl (apply_entry mem_rocks mem_raft mem_empty 0 ?c (Inr []) RecursiveRw)" by code_simp
  then obtain resp d' where run: "apply_entry mem_rocks mem_raft mem_empty 0 ?c (Inr []) RecursiveRw = Inr (resp, d')"
    by (cases "apply_entry mem_rocks mem_raft mem_empty 0 ?c (Inr []) RecursiveRw") auto
  have "reachable mem_rocks mem_raft mem_cts (\<lambda>_. False) mem_empty" by (rule created) simp
  moreover have "op_ok (\<lambda>_. False) (cmd_op ?c)" by (simp add: op_ok_def)
  ultimately have "group_view 1 (mem_cts d' CF_META) = group_view 1 (mem_cts mem_empty CF_META)"
    by (rule groups_are_islands[OF mem_env_ok _ _ run]) simp
  with run show ?thesis by blast
qed

end
