(* ===== verification/Effects.thy ===== *)
theory Effects
  imports Prelude "HOL-Library.Multiset"
begin

text \<open>
  Programs of the server processes. Unlike a transaction, a request handler that fails keeps what it
  has done so far (caches it updated, commands it sent, events it published), so a program returns an
  error or a value together with the state it reached. The second half is a small program logic for
  such programs.
\<close>

section \<open>Programs\<close>

type_synonym ('s, 'e, 'a) eff = "'s \<Rightarrow> ('e + 'a) \<times> 's"

definition eret :: "'a \<Rightarrow> ('s, 'e, 'a) eff" where
  "eret a s = (Inr a, s)"

definition throw :: "'e \<Rightarrow> ('s, 'e, 'a) eff" where
  "throw e s = (Inl e, s)"

definition ebnd :: "('s, 'e, 'a) eff \<Rightarrow> ('a \<Rightarrow> ('s, 'e, 'b) eff) \<Rightarrow> ('s, 'e, 'b) eff" where
  "ebnd m f s = (case m s of (r, s') \<Rightarrow> (case r of Inl e \<Rightarrow> (Inl e, s') | Inr a \<Rightarrow> f a s'))"

text \<open>\<open>e?\<close> on a pure result, the result as a value (\<open>match m.await\<close>), and \<open>map_err\<close>.\<close>

definition elift :: "'e + 'a \<Rightarrow> ('s, 'e, 'a) eff" where
  "elift r s = (r, s)"

definition attempt :: "('s, 'e, 'a) eff \<Rightarrow> ('s, 'f, 'e + 'a) eff" where
  "attempt m s = (case m s of (r, s') \<Rightarrow> (Inr r, s'))"

definition map_err :: "('e \<Rightarrow> 'f) \<Rightarrow> ('s, 'e, 'a) eff \<Rightarrow> ('s, 'f, 'a) eff" where
  "map_err f m s = (case m s of (r, s') \<Rightarrow> (map_sum f id r, s'))"

definition asks :: "('s \<Rightarrow> 'a) \<Rightarrow> ('s, 'e, 'a) eff" where
  "asks f s = (Inr (f s), s)"

definition modify :: "('s \<Rightarrow> 's) \<Rightarrow> ('s, 'e, unit) eff" where
  "modify f s = (Inr (), f s)"

fun each :: "('a \<Rightarrow> ('s, 'e, unit) eff) \<Rightarrow> 'a list \<Rightarrow> ('s, 'e, unit) eff" where
  "each f [] = eret ()"
| "each f (x # xs) = ebnd (f x) (\<lambda>_. each f xs)"

fun each_map :: "('a \<Rightarrow> ('s, 'e, 'b) eff) \<Rightarrow> 'a list \<Rightarrow> ('s, 'e, 'b list) eff" where
  "each_map f [] = eret []"
| "each_map f (x # xs) = ebnd (f x) (\<lambda>y. ebnd (each_map f xs) (\<lambda>ys. eret (y # ys)))"

text \<open>\<open>iter().map(f).collect::<Result<Vec<_>, _>>()\<close>\<close>

fun collect_results :: "('a \<Rightarrow> 'e + 'b) \<Rightarrow> 'a list \<Rightarrow> 'e + 'b list" where
  "collect_results f [] = Inr []"
| "collect_results f (x # xs) =
     (case f x of
        Inl e \<Rightarrow> Inl e
      | Inr y \<Rightarrow> (case collect_results f xs of Inl e \<Rightarrow> Inl e | Inr ys \<Rightarrow> Inr (y # ys)))"

text \<open>
  The order in which concurrent tasks finish, or a hash map is walked, as a list of positions; a list
  that is no order of the given length changes nothing.
\<close>

definition reorder :: "nat list \<Rightarrow> 'a list \<Rightarrow> 'a list" where
  "reorder ix xs = (if sort ix = [0..<length xs] then map (\<lambda>i. xs ! i) ix else xs)"

lemma mset_reorder [simp]: "mset (reorder ix xs) = mset xs"
proof (cases "sort ix = [0..<length xs]")
  case True
  then have "mset ix = mset [0..<length xs]" by (metis mset_sort)
  then have "image_mset (\<lambda>i. xs ! i) (mset ix) = image_mset (\<lambda>i. xs ! i) (mset [0..<length xs])" by simp
  also have "\<dots> = mset (map (\<lambda>i. xs ! i) [0..<length xs])" by simp
  also have "\<dots> = mset xs" by (simp only: map_nth)
  finally show ?thesis using True by (simp add: reorder_def)
qed (simp add: reorder_def)

lemma set_reorder [simp]: "set (reorder ix xs) = set xs"
  by (metis mset_reorder set_mset_mset)

lemma length_reorder [simp]: "length (reorder ix xs) = length xs"
  by (metis mset_reorder size_mset)

section \<open>Evaluation\<close>

lemma eff_simps [simp]:
  "eret a s = (r, s') \<longleftrightarrow> r = Inr a \<and> s' = s"
  "throw e s = (r, s') \<longleftrightarrow> r = Inl e \<and> s' = s"
  "elift p s = (r, s') \<longleftrightarrow> r = p \<and> s' = s"
  "asks f s = (r, s') \<longleftrightarrow> r = Inr (f s) \<and> s' = s"
  "modify g s = (r', s') \<longleftrightarrow> r' = Inr () \<and> s' = g s"
  by (auto simp: eret_def throw_def elift_def asks_def modify_def)

lemma ebnd_Inr_iff:
  "ebnd m f s = (Inr b, s'') \<longleftrightarrow> (\<exists>a s'. m s = (Inr a, s') \<and> f a s' = (Inr b, s''))"
  by (auto simp: ebnd_def split: prod.splits sum.splits)

lemma ebnd_Inl_iff:
  "ebnd m f s = (Inl e, s'') \<longleftrightarrow>
     m s = (Inl e, s'') \<or> (\<exists>a s'. m s = (Inr a, s') \<and> f a s' = (Inl e, s''))"
  by (auto simp: ebnd_def split: prod.splits sum.splits)

lemma ebnd_eret [simp]: "ebnd (eret a) f = f a"
  by (simp add: ebnd_def eret_def fun_eq_iff)

lemma ebnd_throw [simp]: "ebnd (throw e) f = throw e"
  by (simp add: ebnd_def throw_def fun_eq_iff)

lemma ebnd_elift: "ebnd (elift r) f = (case r of Inl e \<Rightarrow> throw e | Inr a \<Rightarrow> f a)"
  by (auto simp: ebnd_def elift_def throw_def fun_eq_iff split: sum.splits)

lemma attempt_iff [simp]: "attempt m s = (r, s') \<longleftrightarrow> (\<exists>p. r = Inr p \<and> m s = (p, s'))"
  by (auto simp: attempt_def split: prod.splits)

lemma map_err_iff [simp]: "map_err f m s = (r, s') \<longleftrightarrow> (\<exists>p. r = map_sum f id p \<and> m s = (p, s'))"
  by (auto simp: map_err_def split: prod.splits)

lemma collect_results_Inr:
  "collect_results f xs = Inr ys \<longleftrightarrow> list_all2 (\<lambda>x y. f x = Inr y) xs ys"
proof (induction xs arbitrary: ys)
  case (Cons x xs)
  show ?case
  proof (cases "f x")
    case (Inr y)
    then show ?thesis using Cons[of "tl ys"] by (cases ys) (auto split: sum.splits)
  qed (auto simp: list_all2_Cons1)
qed auto

section \<open>Keeping an invariant\<close>

text \<open>
  \<open>ekeeps I m E Q\<close>: from a state where \<open>I\<close> holds, \<open>m\<close> ends in one where \<open>I\<close> holds, whether it fails
  or not; an error satisfies \<open>E\<close> and a value \<open>Q\<close>.
\<close>

definition ekeeps :: "('s \<Rightarrow> bool) \<Rightarrow> ('s, 'e, 'a) eff \<Rightarrow> ('e \<Rightarrow> bool) \<Rightarrow> ('a \<Rightarrow> bool) \<Rightarrow> bool" where
  "ekeeps I m E Q \<longleftrightarrow>
     (\<forall>s r s'. m s = (r, s') \<longrightarrow> I s \<longrightarrow> I s' \<and> (case r of Inl e \<Rightarrow> E e | Inr a \<Rightarrow> Q a))"

named_theorems ekeeps_rules \<open>rules and facts of the invariant logic for server programs\<close>

lemma ekeepsI:
  "(\<And>s r s'. m s = (r, s') \<Longrightarrow> I s \<Longrightarrow> I s' \<and> (case r of Inl e \<Rightarrow> E e | Inr a \<Rightarrow> Q a)) \<Longrightarrow> ekeeps I m E Q"
  unfolding ekeeps_def by blast

lemma ekeeps_result: "ekeeps I m E Q \<Longrightarrow> m s = (r, s') \<Longrightarrow> I s \<Longrightarrow> I s' \<and> (case r of Inl e \<Rightarrow> E e | Inr a \<Rightarrow> Q a)"
  unfolding ekeeps_def by blast

lemma ekeepsD:
  assumes "ekeeps I m E Q" and "m s = (r, s')" and "I s"
  shows "I s'" and "r = Inr a \<Longrightarrow> Q a" and "r = Inl e \<Longrightarrow> E e"
  using ekeeps_result[OF assms] by auto

lemma ekeeps_conseq:
  assumes "ekeeps I m E' Q'" and "\<And>e. E' e \<Longrightarrow> E e" and "\<And>a. Q' a \<Longrightarrow> Q a"
  shows "ekeeps I m E Q"
proof (rule ekeepsI)
  fix s r s' assume "m s = (r, s')" "I s"
  from ekeeps_result[OF assms(1) this] assms(2,3) show "I s' \<and> (case r of Inl e \<Rightarrow> E e | Inr a \<Rightarrow> Q a)"
    by (cases r) auto
qed

lemma ekeeps_bnd:
  assumes "ekeeps I m E P" and "\<And>a. P a \<Longrightarrow> ekeeps I (f a) E Q"
  shows "ekeeps I (ebnd m f) E Q"
  unfolding ekeeps_def
proof (intro allI impI)
  fix s r s'' assume run: "ebnd m f s = (r, s'')" and "I s"
  obtain p s' where m: "m s = (p, s')" by (cases "m s")
  have "I s'" by (rule ekeepsD(1)[OF assms(1) m \<open>I s\<close>])
  show "I s'' \<and> (case r of Inl e \<Rightarrow> E e | Inr a \<Rightarrow> Q a)"
  proof (cases p)
    case (Inl e)
    with run m ekeepsD(3)[OF assms(1) m \<open>I s\<close> Inl] \<open>I s'\<close> show ?thesis by (auto simp: ebnd_def)
  next
    case (Inr a)
    with run m have "f a s' = (r, s'')" by (simp add: ebnd_def)
    from ekeeps_result[OF assms(2)[OF ekeepsD(2)[OF assms(1) m \<open>I s\<close> Inr]] this \<open>I s'\<close>] show ?thesis .
  qed
qed

lemma ekeeps_basic [ekeeps_rules]:
  "Q a \<Longrightarrow> ekeeps I (eret a) E Q"
  "E e \<Longrightarrow> ekeeps I (throw e) E Q"
  "(\<And>e. r = Inl e \<Longrightarrow> E e) \<Longrightarrow> (\<And>a. r = Inr a \<Longrightarrow> Q a) \<Longrightarrow> ekeeps I (elift r) E Q"
  "(\<And>s. I s \<Longrightarrow> I (g s)) \<Longrightarrow> U () \<Longrightarrow> ekeeps I (modify g) E U"
  by (auto simp: ekeeps_def split: sum.splits)

lemma ekeeps_asks: "(\<And>s. I s \<Longrightarrow> Q (f s)) \<Longrightarrow> ekeeps I (asks f) E Q"
  by (auto simp: ekeeps_def)

lemma ekeeps_attempt:
  fixes E :: "'f \<Rightarrow> bool"
  assumes "ekeeps I m E' Q'" and "\<And>e. E' e \<Longrightarrow> Q (Inl e)" and "\<And>a. Q' a \<Longrightarrow> Q (Inr a)"
  shows "ekeeps I (attempt m) E Q"
proof (rule ekeepsI)
  fix s s' and r :: "'f + _" assume "attempt m s = (r, s')" "I s"
  then obtain p where "r = Inr p" "m s = (p, s')" by auto
  with ekeeps_result[OF assms(1) this(2) \<open>I s\<close>] assms(2,3) show "I s' \<and> (case r of Inl e \<Rightarrow> E e | Inr a \<Rightarrow> Q a)"
    by (cases p) auto
qed

lemma ekeeps_map_err:
  assumes "ekeeps I m (\<lambda>e. E (f e)) Q"
  shows "ekeeps I (map_err f m) E Q"
proof (rule ekeepsI)
  fix s r s' assume "map_err f m s = (r, s')" "I s"
  then obtain p where "r = map_sum f id p" "m s = (p, s')" by auto
  with ekeeps_result[OF assms this(2) \<open>I s\<close>] show "I s' \<and> (case r of Inl e \<Rightarrow> E e | Inr a \<Rightarrow> Q a)"
    by (cases p) auto
qed

lemma ekeeps_each:
  "(\<And>x. x \<in> set xs \<Longrightarrow> ekeeps I (f x) E (\<lambda>_. True)) \<Longrightarrow> ekeeps I (each f xs) E (\<lambda>_. True)"
  by (induction xs) (auto intro!: ekeeps_basic ekeeps_bnd)

lemma ekeeps_each_map:
  "(\<And>x. x \<in> set xs \<Longrightarrow> ekeeps I (f x) E (P x)) \<Longrightarrow> ekeeps I (each_map f xs) E (list_all2 P xs)"
  by (induction xs) (auto intro!: ekeeps_basic ekeeps_bnd)

text \<open>The same with nothing to say about the outcome.\<close>

abbreviation (input) "holds_on I m \<equiv> ekeeps I m (\<lambda>_. True) (\<lambda>_. True)"

lemma ekeeps_then: "ekeeps I m E (\<lambda>_. True) \<Longrightarrow> (\<And>a. ekeeps I (f a) E Q) \<Longrightarrow> ekeeps I (ebnd m f) E Q"
  by (rule ekeeps_bnd)

lemma ekeeps_if: "(b \<Longrightarrow> ekeeps I m E Q) \<Longrightarrow> (\<not> b \<Longrightarrow> ekeeps I n E Q) \<Longrightarrow> ekeeps I (if b then m else n) E Q"
  by simp

lemma ekeeps_option:
  "(x = None \<Longrightarrow> ekeeps I m E Q) \<Longrightarrow> (\<And>a. x = Some a \<Longrightarrow> ekeeps I (f a) E Q) \<Longrightarrow>
    ekeeps I (case x of None \<Rightarrow> m | Some a \<Rightarrow> f a) E Q"
  by (cases x) auto

lemma ekeeps_sum:
  "(\<And>e. x = Inl e \<Longrightarrow> ekeeps I (f e) E Q) \<Longrightarrow> (\<And>a. x = Inr a \<Longrightarrow> ekeeps I (g a) E Q) \<Longrightarrow>
    ekeeps I (case x of Inl e \<Rightarrow> f e | Inr a \<Rightarrow> g a) E Q"
  by (cases x) auto

lemma ekeeps_pair: "(\<And>a b. x = (a, b) \<Longrightarrow> ekeeps I (f a b) E Q) \<Longrightarrow> ekeeps I (case x of (a, b) \<Rightarrow> f a b) E Q"
  by (cases x) auto

lemmas ekeeps_cases = ekeeps_if ekeeps_option ekeeps_sum ekeeps_pair

end
