(* ===== verification/Transport.thy ===== *)
theory Transport
  imports State_Machine Effects
begin

text \<open>
  \<open>src/src/raft/types.rs\<close> and \<open>src/src/raft/server.rs\<close>: the operations forwarded between nodes, the reads of
  a group, the assembly of an incoming snapshot and the handlers of the internal transport. openraft's
  cores, the clock and the channels between nodes are a parameter, a record of functions over a world
  \<open>'w\<close> they read and change.
\<close>

section \<open>Statuses\<close>

datatype status_code =
    InvalidArgument
  | ResourceExhausted
  | Aborted
  | Unavailable
  | FailedPrecondition
  | InternalError

record status =
  st_code :: status_code
  st_message :: string

definition mk_status :: "status_code \<Rightarrow> string \<Rightarrow> status" where
  "mk_status code message = \<lparr> st_code = code, st_message = message \<rparr>"

section \<open>Forwarded operations\<close>

record node_meta =
  nm_name :: string
  nm_raft_addr :: string
  nm_public_addr :: string
  nm_gossip_addr :: string

datatype read_op =
    AssertFencing string string i64 "string list"
  | InspectPath string string
  | IsBlocking string string string reason
  | IsOwnerAlive string
  | ListOwnerLocks string
  | DumpPage "bytes option" u32
  | ReadWaitEdge string
  | GetNamespacePolicy string
  | ListNamespaces
  | NamespaceHasLocks string

datatype read_result =
    ReadAssert assert_outcome
  | ReadInspect path_info
  | ReadBool bool
  | ReadOwnerLocks bool "owned_lock list"
  | ReadDump lock_dump_page
  | ReadEdge "wait_edge option"
  | ReadPolicy lock_algorithm bool u64
  | ReadNamespaces "namespace_policy_entry list"

type_synonym leader_hint = "(u64 \<times> node_meta) option"

datatype forward_error = NotLeader leader_hint | NotHosted | Unreachable string | Other string

text \<open>
  \<open>execute_read_blocking\<close>: a read runs on a snapshot of the database, with a clock that is never behind
  the clock of the group's last applied command.
\<close>

definition snapshot_read :: "('t, 'a) txm \<Rightarrow> 't \<Rightarrow> ('a \<Rightarrow> 'b) \<Rightarrow> error + 'b" where
  "snapshot_read m txn f = map_sum id (\<lambda>(a, _). f a) (m txn)"

definition execute_read_blocking ::
    "'db rocksdb \<Rightarrow> 'c codec_scheme \<Rightarrow> u64 \<Rightarrow> 'db \<Rightarrow> group_id \<Rightarrow> read_op \<Rightarrow> lock_algorithm \<Rightarrow> error + read_result" where
  "execute_read_blocking R C wall db g op default_algorithm =
     (let snapshot = db in
      case read_last_now_snapshot R db snapshot g of
        Inl e \<Rightarrow> Inl e
      | Inr last_now \<Rightarrow>
          let now = max wall last_now;
              txn = snapshot_txn_new db snapshot g now;
              T = snapshot_store R C in
          (case op of
             AssertFencing namespace owner token paths \<Rightarrow>
               snapshot_read (assert_fencing_inner T namespace owner token paths) txn ReadAssert
           | InspectPath namespace path \<Rightarrow> snapshot_read (inspect_path_inner T namespace path) txn ReadInspect
           | IsBlocking namespace path owner reason \<Rightarrow>
               snapshot_read (is_blocking_inner T namespace path owner reason) txn ReadBool
           | IsOwnerAlive owner \<Rightarrow> snapshot_read (is_owner_alive_inner T owner) txn ReadBool
           | ListOwnerLocks owner \<Rightarrow>
               snapshot_read (list_owner_locks_inner T owner) txn (\<lambda>(alive, locks). ReadOwnerLocks alive locks)
           | DumpPage cursor page \<Rightarrow> map_sum id ReadDump (dump_owner_holds R C db g now cursor (unat page))
           | ReadWaitEdge owner \<Rightarrow> snapshot_read (read_wait_edge T owner) txn ReadEdge
           | GetNamespacePolicy namespace \<Rightarrow>
               snapshot_read (get_namespace_policy_record_inner T namespace default_algorithm) txn
                 (\<lambda>(policy, explicit). ReadPolicy (lp_algorithm policy) explicit (lp_epoch policy))
           | ListNamespaces \<Rightarrow> map_sum id ReadNamespaces (list_namespace_settings R C db g now)
           | NamespaceHasLocks namespace \<Rightarrow>
               map_sum id ReadBool (namespace_has_live_locks R C db g now namespace)))"

section \<open>What is outside\<close>

text \<open>
  openraft answers a write or a read barrier, refuses it because another node leads (with what it knows of
  the leader), or fails. \<open>core_of\<close> and \<open>start_core\<close> are the registry of running cores; a peer answers a
  forwarded request with bytes or the transport fails; \<open>completion\<close> is the order in which concurrent tasks
  finish and hash maps are walked.
\<close>

record forward_to_leader =
  fl_leader_id :: "u64 option"
  fl_leader_node :: "node_meta option"

datatype raft_error = ForwardToLeader forward_to_leader | RaftFailed string

record 'w wire =
  open_channel :: "u64 \<Rightarrow> string \<Rightarrow> 'w \<Rightarrow> string + unit"
  auth_header :: "'w \<Rightarrow> string + unit"
  rpc_forward :: "u64 \<Rightarrow> group_id \<Rightarrow> bytes \<Rightarrow> ('w, string, bytes) eff"
  rpc_forward_read :: "u64 \<Rightarrow> group_id \<Rightarrow> bytes \<Rightarrow> ('w, string, bytes) eff"
  command_encode :: "command \<Rightarrow> string + bytes"
  command_decode :: "bytes \<Rightarrow> string + command"
  read_op_encode :: "read_op \<Rightarrow> string + bytes"
  read_op_decode :: "bytes \<Rightarrow> string + read_op"
  write_answer_encode :: "forward_error + apply_response \<Rightarrow> string + bytes"
  write_answer_decode :: "bytes \<Rightarrow> string + (forward_error + apply_response)"
  read_answer_encode :: "forward_error + read_result \<Rightarrow> string + bytes"
  read_answer_decode :: "bytes \<Rightarrow> string + (forward_error + read_result)"

record 'w runtime =
  wall_clock :: "'w \<Rightarrow> u64 \<times> 'w"
  cache_clock :: "'w \<Rightarrow> nat \<times> 'w"
  pause :: "nat \<Rightarrow> 'w \<Rightarrow> 'w"
  completion :: "nat \<Rightarrow> 'w \<Rightarrow> nat list \<times> 'w"
  permit_free :: "'w \<Rightarrow> group_id \<Rightarrow> bool"
  refresh_busy :: "'w \<Rightarrow> bool"
  refresh_in_time :: "'w \<Rightarrow> bool"

record ('w, 'db) cluster =
  core_of :: "'w \<Rightarrow> group_id \<Rightarrow> bool"
  start_core :: "group_id \<Rightarrow> ('w, string, unit) eff"
  client_write :: "group_id \<Rightarrow> command \<Rightarrow> ('w, raft_error, apply_response) eff"
  ensure_linearizable :: "group_id \<Rightarrow> ('w, raft_error, unit) eff"
  metrics_leader :: "'w \<Rightarrow> group_id \<Rightarrow> leader_hint"
  local_db :: "'w \<Rightarrow> 'db"
  fsync_healthy :: "'w \<Rightarrow> bool"
  known_members :: "'w \<Rightarrow> (u64 \<times> node_meta) list option"
  this_node :: u64
  node_default_algorithm :: lock_algorithm
  error_text :: "error \<Rightarrow> string"
  wire :: "'w wire"
  rt :: "'w runtime"

definition now_ms_of :: "('w, 'db) cluster \<Rightarrow> ('w, 'e, u64) eff" where
  "now_ms_of E w = (case wall_clock (rt E) w of (now, w') \<Rightarrow> (Inr now, w'))"

definition leader_of_error :: "forward_to_leader \<Rightarrow> leader_hint" where
  "leader_of_error fwd =
     (case (fl_leader_id fwd, fl_leader_node fwd) of (Some i, Some node) \<Rightarrow> Some (i, node) | _ \<Rightarrow> None)"

section \<open>The transport service\<close>

definition encode_reply :: "string + bytes \<Rightarrow> status + bytes" where
  "encode_reply r = map_sum (\<lambda>e. mk_status InternalError (''encode: '' @ e)) id r"

definition decode_request :: "string + 'a \<Rightarrow> status + 'a" where
  "decode_request r = map_sum (\<lambda>e. mk_status InvalidArgument (''decode: '' @ e)) id r"

definition valid_group :: "u32 \<Rightarrow> u32 \<Rightarrow> status + unit" where
  "valid_group group_count g =
     (if g < group_count \<or> g = SYS_GROUP then Inr ()
      else Inl (mk_status InvalidArgument (''unknown group '' @ nat_str (unat g))))"

definition core :: "('w, 'db) cluster \<Rightarrow> u32 \<Rightarrow> u32 \<Rightarrow> ('w, status, unit) eff" where
  "core E group_count g =
     ebnd (elift (valid_group group_count g)) (\<lambda>_.
     ebnd (asks (\<lambda>w. core_of E w g)) (\<lambda>hosted.
     if hosted then eret ()
     else map_err (\<lambda>e. mk_status InternalError (''starting group '' @ nat_str (unat g) @ '': '' @ e)) (start_core E g)))"

definition forward_error_of :: "raft_error \<Rightarrow> forward_error" where
  "forward_error_of e = (case e of ForwardToLeader fwd \<Rightarrow> NotLeader (leader_of_error fwd) | RaftFailed t \<Rightarrow> Other t)"

definition forward :: "('w, 'db) cluster \<Rightarrow> group_id \<Rightarrow> bytes \<Rightarrow> ('w, status, bytes) eff" where
  "forward E g command =
     ebnd (elift (decode_request (command_decode (wire E) command))) (\<lambda>cmd.
     ebnd (asks (\<lambda>w. core_of E w g)) (\<lambda>hosted.
     ebnd (if hosted then attempt (map_err forward_error_of (client_write E g cmd)) else eret (Inl NotHosted)) (\<lambda>result.
     elift (encode_reply (write_answer_encode (wire E) result)))))"

definition execute_read ::
    "'db rocksdb \<Rightarrow> 'c codec_scheme \<Rightarrow> ('w, 'db) cluster \<Rightarrow> group_id \<Rightarrow> read_op \<Rightarrow> ('w, forward_error, read_result) eff" where
  "execute_read R C E g op =
     ebnd (asks (\<lambda>w. core_of E w g)) (\<lambda>hosted.
     if \<not> hosted then throw NotHosted
     else
       ebnd (map_err forward_error_of (ensure_linearizable E g)) (\<lambda>_.
       ebnd (asks (local_db E)) (\<lambda>db.
       ebnd (now_ms_of E) (\<lambda>now.
       elift (map_sum (\<lambda>e. Other (error_text E e)) id
         (execute_read_blocking R C now db g op (node_default_algorithm E)))))))"

definition forward_read ::
    "'db rocksdb \<Rightarrow> 'c codec_scheme \<Rightarrow> ('w, 'db) cluster \<Rightarrow> group_id \<Rightarrow> bytes \<Rightarrow> ('w, status, bytes) eff" where
  "forward_read R C E g read_op =
     ebnd (elift (decode_request (read_op_decode (wire E) read_op))) (\<lambda>op.
     ebnd (attempt (execute_read R C E g op)) (\<lambda>result.
     elift (encode_reply (read_answer_encode (wire E) result))))"

definition set_draining :: "('w, 'db) cluster \<Rightarrow> (raft_error \<Rightarrow> string) \<Rightarrow> u64 \<Rightarrow> bool \<Rightarrow> ('w, status, unit) eff" where
  "set_draining E text node_id draining =
     ebnd (now_ms_of E) (\<lambda>now.
     let cmd = \<lparr> cmd_request_id = None, cmd_now_ms = now, cmd_op = SetNodeDraining node_id draining \<rparr> in
     ebnd (asks (\<lambda>w. core_of E w SYS_GROUP)) (\<lambda>hosted.
     if \<not> hosted then throw (mk_status FailedPrecondition ''sys group not hosted'')
     else
       ebnd (map_err (\<lambda>e. mk_status FailedPrecondition (text e)) (client_write E SYS_GROUP cmd)) (\<lambda>_.
       eret ())))"

section \<open>Incoming snapshots\<close>

record snapshot_chunk =
  sc_group :: u32
  sc_vote :: bytes
  sc_meta :: bytes
  sc_data :: bytes

record incoming_snapshot =
  is_group :: u32
  is_vote_bytes :: bytes
  is_meta_bytes :: bytes
  is_image :: bytes

record snapshot_assembler =
  sa_group :: "u32 option"
  sa_vote_bytes :: bytes
  sa_meta_bytes :: bytes
  sa_image :: bytes
  sa_max_bytes :: nat

definition assembler_new :: "nat \<Rightarrow> snapshot_assembler" where
  "assembler_new max_bytes =
     \<lparr> sa_group = None, sa_vote_bytes = [], sa_meta_bytes = [], sa_image = [], sa_max_bytes = max_bytes \<rparr>"

text \<open>\<open>usize\<close> has 64 bits; \<open>checked_add\<close> fails above its maximum.\<close>

definition assembler_push :: "snapshot_assembler \<Rightarrow> snapshot_chunk \<Rightarrow> status + snapshot_assembler" where
  "assembler_push a chunk =
     (if \<exists>g. sa_group a = Some g \<and> g \<noteq> sc_group chunk then
        Inl (mk_status InvalidArgument
          (''snapshot stream changed group from '' @ nat_str (unat (the (sa_group a))) @ '' to '' @
           nat_str (unat (sc_group chunk))))
      else
        let a = a\<lparr> sa_group := Some (sc_group chunk) \<rparr>;
            a = (if sc_vote chunk \<noteq> [] then a\<lparr> sa_vote_bytes := sc_vote chunk \<rparr> else a);
            a = (if sc_meta chunk \<noteq> [] then a\<lparr> sa_meta_bytes := sc_meta chunk \<rparr> else a);
            next_len = length (sa_image a) + length (sc_data chunk) in
        if 2 ^ 64 \<le> next_len then Inl (mk_status ResourceExhausted ''snapshot image length overflow'')
        else if sa_max_bytes a < next_len then
          Inl (mk_status ResourceExhausted
            (''snapshot image too large: '' @ nat_str next_len @ '' bytes > '' @ nat_str (sa_max_bytes a) @ '' bytes''))
        else Inr (a\<lparr> sa_image := sa_image a @ sc_data chunk \<rparr>))"

definition assembler_finish :: "snapshot_assembler \<Rightarrow> status + incoming_snapshot" where
  "assembler_finish a =
     (case sa_group a of
        None \<Rightarrow> Inl (mk_status InvalidArgument ''empty snapshot stream'')
      | Some g \<Rightarrow>
          if sa_vote_bytes a = [] \<or> sa_meta_bytes a = [] then
            Inl (mk_status InvalidArgument ''snapshot stream missing vote/meta header'')
          else
            Inr \<lparr> is_group = g, is_vote_bytes = sa_vote_bytes a, is_meta_bytes = sa_meta_bytes a, is_image = sa_image a \<rparr>)"

text \<open>
  The sending side, \<open>full_snapshot\<close> of \<open>src/src/raft/network.rs\<close>: the image in chunks of at most
  \<open>chunk_size\<close> bytes, at least one, the first with the vote and the metadata.
\<close>

function snapshot_chunks :: "nat \<Rightarrow> u32 \<Rightarrow> bytes \<Rightarrow> bytes \<Rightarrow> bytes \<Rightarrow> snapshot_chunk list" where
  "snapshot_chunks chunk_size g vote meta img =
     (let n = max 1 chunk_size in
      \<lparr> sc_group = g, sc_vote = vote, sc_meta = meta, sc_data = take n img \<rparr> #
      (if drop n img = [] then [] else snapshot_chunks chunk_size g [] [] (drop n img)))"
  by pat_completeness auto
termination
  by (relation "measure (\<lambda>(_, _, _, _, img). length img)") auto

declare snapshot_chunks.simps [simp del]

text \<open>The loop of \<open>install_snapshot\<close> over the chunks of the stream.\<close>

fun push_chunks :: "snapshot_assembler \<Rightarrow> snapshot_chunk list \<Rightarrow> status + snapshot_assembler" where
  "push_chunks a [] = Inr a"
| "push_chunks a (c # cs) = (case assembler_push a c of Inl e \<Rightarrow> Inl e | Inr a' \<Rightarrow> push_chunks a' cs)"

definition assemble :: "nat \<Rightarrow> snapshot_chunk list \<Rightarrow> status + incoming_snapshot" where
  "assemble max_bytes chunks =
     (case push_chunks (assembler_new max_bytes) chunks of Inl e \<Rightarrow> Inl e | Inr a \<Rightarrow> assembler_finish a)"

section \<open>Facts\<close>

lemma assembler_push_ok:
  assumes "sa_group a \<in> {None, Some (sc_group c)}" and "length (sa_image a) + length (sc_data c) \<le> sa_max_bytes a"
    and "sa_max_bytes a < 2 ^ 64"
  shows "assembler_push a c = Inr (a\<lparr> sa_group := Some (sc_group c),
    sa_vote_bytes := (if sc_vote c \<noteq> [] then sc_vote c else sa_vote_bytes a),
    sa_meta_bytes := (if sc_meta c \<noteq> [] then sc_meta c else sa_meta_bytes a),
    sa_image := sa_image a @ sc_data c \<rparr>)"
  using assms by (auto simp: assembler_push_def Let_def)

lemma push_snapshot_chunks:
  assumes "sa_group a \<in> {None, Some g}" and "length (sa_image a) + length img \<le> sa_max_bytes a" and "sa_max_bytes a < 2 ^ 64"
  shows "push_chunks a (snapshot_chunks n g vote meta img) = Inr (a\<lparr> sa_group := Some g,
    sa_vote_bytes := (if vote \<noteq> [] then vote else sa_vote_bytes a),
    sa_meta_bytes := (if meta \<noteq> [] then meta else sa_meta_bytes a), sa_image := sa_image a @ img \<rparr>)"
  using assms
proof (induction n g vote meta img arbitrary: a rule: snapshot_chunks.induct)
  case (1 n g vote meta img)
  let ?n = "max 1 n" and ?c = "\<lparr> sc_group = g, sc_vote = vote, sc_meta = meta, sc_data = take (max 1 n) img \<rparr>"
  have first: "assembler_push a ?c = Inr (a\<lparr> sa_group := Some g, sa_vote_bytes := (if vote \<noteq> [] then vote else sa_vote_bytes a),
      sa_meta_bytes := (if meta \<noteq> [] then meta else sa_meta_bytes a), sa_image := sa_image a @ take ?n img \<rparr>)"
    using assembler_push_ok[of a ?c] "1.prems" by simp
  show ?case
  proof (cases "drop ?n img = []")
    case True
    then show ?thesis using first by (simp add: snapshot_chunks.simps[of n g vote meta img] Let_def)
  next
    case False
    define b where "b = a\<lparr> sa_group := Some g, sa_vote_bytes := (if vote \<noteq> [] then vote else sa_vote_bytes a),
      sa_meta_bytes := (if meta \<noteq> [] then meta else sa_meta_bytes a), sa_image := sa_image a @ take ?n img \<rparr>"
    have "push_chunks b (snapshot_chunks n g [] [] (drop ?n img)) =
        Inr (b\<lparr> sa_group := Some g, sa_vote_bytes := sa_vote_bytes b, sa_meta_bytes := sa_meta_bytes b,
          sa_image := sa_image b @ drop ?n img \<rparr>)"
      using "1.IH"[OF refl False, of b] "1.prems" False by (simp add: b_def)
    then show ?thesis
      using first[folded b_def] False by (subst snapshot_chunks.simps) (simp add: Let_def, simp add: b_def)
  qed
qed

lemma assemble_chunks:
  assumes "vote \<noteq> []" and "meta \<noteq> []" and "length img \<le> max_bytes" and "max_bytes < 2 ^ 64"
  shows "assemble max_bytes (snapshot_chunks chunk_size g vote meta img) =
    Inr \<lparr> is_group = g, is_vote_bytes = vote, is_meta_bytes = meta, is_image = img \<rparr>"
  using push_snapshot_chunks[of "assembler_new max_bytes" g img] assms
  by (simp add: assemble_def assembler_new_def assembler_finish_def)

text \<open>C22: a snapshot sent between nodes arrives as it was sent: the receiver puts the chunks of the sender together
  to the same group, vote, metadata and image, whatever the chunk size, as long as the image is within the
  receiver's limit and the header is not empty.\<close>

theorem snapshot_stream_roundtrip:
  assumes "vote \<noteq> []" and "meta \<noteq> []" and "length img \<le> max_bytes" and "max_bytes < 2 ^ 64"
  shows "assemble max_bytes (snapshot_chunks chunk_size g vote meta img) =
    Inr \<lparr> is_group = g, is_vote_bytes = vote, is_meta_bytes = meta, is_image = img \<rparr>"
  by (rule assemble_chunks[OF assms])

theorem snapshot_stream_roundtrip_witness:
  "assemble 100 (snapshot_chunks 2 7 ''vote'' ''meta'' ''image'') =
     Inr \<lparr> is_group = 7, is_vote_bytes = ''vote'', is_meta_bytes = ''meta'', is_image = ''image'' \<rparr>"
  by (rule snapshot_stream_roundtrip) simp_all

lemma push_chunks_result:
  "push_chunks a cs = Inr a' \<Longrightarrow> length (sa_image a) \<le> sa_max_bytes a \<Longrightarrow>
    length (sa_image a') \<le> sa_max_bytes a \<and> sa_image a' = sa_image a @ concat (map sc_data cs) \<and>
    (\<forall>g. sa_group a = Some g \<longrightarrow> sa_group a' = Some g) \<and> (\<forall>c \<in> set cs. sa_group a' = Some (sc_group c))"
proof (induction cs arbitrary: a)
  case (Cons c cs)
  then obtain b where b: "assembler_push a c = Inr b" and "push_chunks b cs = Inr a'" by (auto split: sum.splits)
  moreover from b have "length (sa_image b) \<le> sa_max_bytes b" "sa_max_bytes b = sa_max_bytes a"
    "sa_image b = sa_image a @ sc_data c"
    "sa_group b = Some (sc_group c)" "\<forall>g. sa_group a = Some g \<longrightarrow> sa_group b = Some g"
    by (auto simp: assembler_push_def Let_def split: if_splits)
  ultimately show ?case using Cons.IH[of b] by auto
qed simp

text \<open>C23: an incoming snapshot never takes more memory than the limit and never mixes groups: what is assembled
  from a stream of chunks is their data in order, at most \<open>max_bytes\<close> long, and every chunk of the stream
  named the group it is installed in.\<close>

theorem snapshot_stream_bounded:
  assumes "assemble max_bytes cs = Inr snap"
  shows "length (is_image snap) \<le> max_bytes \<and> is_image snap = concat (map sc_data cs) \<and>
    (\<forall>c \<in> set cs. sc_group c = is_group snap)"
proof -
  obtain a where "push_chunks (assembler_new max_bytes) cs = Inr a" and "assembler_finish a = Inr snap"
    using assms by (auto simp: assemble_def split: sum.splits)
  with push_chunks_result[OF this(1)] show ?thesis
    by (auto simp: assembler_new_def assembler_finish_def split: option.splits if_splits)
qed

theorem snapshot_stream_bounded_witness:
  "\<exists>snap. assemble 100 (snapshot_chunks 2 7 ''vote'' ''meta'' ''image'') = Inr snap \<and> length (is_image snap) \<le> 100"
proof -
  have run: "assemble 100 (snapshot_chunks 2 7 ''vote'' ''meta'' ''image'') =
      Inr \<lparr> is_group = 7, is_vote_bytes = ''vote'', is_meta_bytes = ''meta'', is_image = ''image'' \<rparr>"
    by (rule assemble_chunks) simp_all
  with snapshot_stream_bounded[OF run] show ?thesis by blast
qed

end
