(* ===== verification/Router.thy ===== *)
theory Router
  imports Transport Placement
begin

text \<open>
  \<open>src/src/cluster/router.rs\<close>: from requests to groups. A path is routed by its namespace to one Raft group;
  writes are proposed on the leader of the group, locally or forwarded; owner-wide operations fan out over
  the groups and their answers are combined. The caches of the router and the world outside it are one
  state; a request is a program over it. The in-flight gauge, which only counts, is left out.
\<close>

section \<open>State\<close>

datatype router_error =
    EngineError error
  | WriteQueueFull
  | WriterUnavailable
  | MultiDomainUnsupported
  | NamespaceDepthUnsupported string
  | NamespaceResolverUnavailable
  | NamespaceNotDrained string
  | NamespacePolicyPartial "string list" "group_id list"
  | CommandRejected reject_kind string
  | Anyhow string
  | Panicked string

definition MAX_FORWARD_HOPS :: nat where
  "MAX_FORWARD_HOPS = 4"

definition REVOKE_MARKER_TTL_MS :: u64 where
  "REVOKE_MARKER_TTL_MS = 300000"

definition DOMAIN_CACHE_MAX :: nat where
  "DOMAIN_CACHE_MAX = 16384"

definition NAMESPACE_CACHE_REFRESH_MS :: u64 where
  "NAMESPACE_CACHE_REFRESH_MS = 250"

definition NAMESPACE_CACHE_FAILURE_BACKOFF_MS :: u64 where
  "NAMESPACE_CACHE_FAILURE_BACKOFF_MS = 5000"

record routing_options =
  ro_group_count :: u32
  ro_routing_prefix_segments :: u32
  ro_max_inflight_per_group :: nat

definition routing_options_default :: routing_options where
  "routing_options_default =
     \<lparr> ro_group_count = 256, ro_routing_prefix_segments = 1, ro_max_inflight_per_group = 1024 \<rparr>"

record namespace_route =
  nr_namespace :: string
  nr_explicit :: bool
  nr_policy :: lock_policy

text \<open>
  The memoized placements are kept with their number, so a list. \<open>r_world\<close> is the rest of the cluster.
\<close>

record 'w router =
  r_routing :: routing_options
  r_leader_hints :: "group_id \<rightharpoonup> u64 \<times> node_meta"
  r_domain_groups :: "(string \<times> group_id) list"
  r_namespace_roots :: "string list"
  r_namespace_policies :: "string \<rightharpoonup> namespace_policy_entry"
  r_cache_loaded_ms :: u64
  r_cache_retry_after_ms :: u64
  r_client_id :: string
  r_seq :: u64
  r_world :: 'w

definition router_new :: "routing_options \<Rightarrow> u64 \<Rightarrow> u32 \<Rightarrow> u64 \<Rightarrow> 'w \<Rightarrow> 'w router" where
  "router_new routing node_id pid now w =
     \<lparr> r_routing = routing, r_leader_hints = Map.empty, r_domain_groups = [], r_namespace_roots = [],
       r_namespace_policies = Map.empty, r_cache_loaded_ms = 0, r_cache_retry_after_ms = 0,
       r_client_id = u64_str node_id @ '':'' @ nat_str (unat pid) @ '':'' @ u64_str now, r_seq = 0, r_world = w \<rparr>"

type_synonym ('w, 'a) rm = "('w router, router_error, 'a) eff"

definition in_world :: "('w, 'e, 'a) eff \<Rightarrow> ('w router, 'e, 'a) eff" where
  "in_world m r = (case m (r_world r) of (x, w) \<Rightarrow> (x, r\<lparr> r_world := w \<rparr>))"

definition sleep_ms :: "('w, 'db) cluster \<Rightarrow> nat \<Rightarrow> ('w, unit) rm" where
  "sleep_ms E ms = modify (\<lambda>r. r\<lparr> r_world := pause (rt E) ms (r_world r) \<rparr>)"

definition completion_order :: "('w, 'db) cluster \<Rightarrow> 'a list \<Rightarrow> ('w, 'a list) rm" where
  "completion_order E xs =
     in_world (\<lambda>w. case completion (rt E) (length xs) w of (ix, w') \<Rightarrow> (Inr (reorder ix xs), w'))"

definition unexpected_response :: "('w, 'a) rm" where
  "unexpected_response = throw (Anyhow ''unexpected response type'')"

definition unexpected_read :: "('w, 'a) rm" where
  "unexpected_read = throw (Anyhow ''unexpected read result'')"

section \<open>Namespaces and groups\<close>

definition fallback_namespace :: "'w router \<Rightarrow> string \<Rightarrow> string" where
  "fallback_namespace r path = routing_prefix path (ro_routing_prefix_segments (r_routing r))"

text \<open>Longest first, then by name; \<open>dedup\<close> drops repeated neighbours.\<close>

definition sort_namespace_roots :: "string list \<Rightarrow> string list" where
  "sort_namespace_roots roots = remdups_adj (sort_key (\<lambda>a. (- int (length a), a)) roots)"

definition resolve_namespace_cached :: "('w, 'db) cluster \<Rightarrow> 'w router \<Rightarrow> string \<Rightarrow> namespace_route" where
  "resolve_namespace_cached E r path =
     (let default_policy = lock_policy_from_algorithm (node_default_algorithm E) in
      case find (\<lambda>namespace. namespace_contains_path namespace path) (r_namespace_roots r) of
        Some namespace \<Rightarrow>
          \<lparr> nr_namespace = namespace, nr_explicit = True,
            nr_policy = (case r_namespace_policies r namespace of
                           Some entry \<Rightarrow> namespace_policy_entry_policy entry
                         | None \<Rightarrow> default_policy) \<rparr>
      | None \<Rightarrow>
          \<lparr> nr_namespace = fallback_namespace r path, nr_explicit = False, nr_policy = default_policy \<rparr>)"

definition cache_namespace_root :: "string \<Rightarrow> 'w router \<Rightarrow> 'w router" where
  "cache_namespace_root namespace r =
     r\<lparr> r_namespace_roots := sort_namespace_roots (r_namespace_roots r @ [namespace]) \<rparr>"

definition cache_namespace_entry :: "namespace_policy_entry \<Rightarrow> 'w router \<Rightarrow> 'w router" where
  "cache_namespace_entry entry r =
     (let r = cache_namespace_root (np_namespace entry) r in
      r\<lparr> r_namespace_policies := (r_namespace_policies r)(np_namespace entry \<mapsto> entry) \<rparr>)"

definition uncache_namespace_root :: "string \<Rightarrow> 'w router \<Rightarrow> 'w router" where
  "uncache_namespace_root namespace r =
     r\<lparr> r_namespace_roots := filter (\<lambda>root. root \<noteq> namespace) (r_namespace_roots r),
       r_namespace_policies := (r_namespace_policies r)(namespace := None) \<rparr>"

text \<open>\<open>u64::try_from(millis).unwrap_or(u64::MAX - 1).saturating_add(1)\<close>\<close>

definition cache_ms :: "nat \<Rightarrow> u64" where
  "cache_ms millis = sat_add (if millis < 2 ^ 64 then word_of_nat millis else - 1 - 1) 1"

definition namespace_cache_now_ms :: "('w, 'db) cluster \<Rightarrow> ('w, u64) rm" where
  "namespace_cache_now_ms E =
     in_world (\<lambda>w. case cache_clock (rt E) w of (millis, w') \<Rightarrow> (Inr (cache_ms millis), w'))"

definition invalidate_namespace_cache :: "'w router \<Rightarrow> 'w router" where
  "invalidate_namespace_cache r = r\<lparr> r_cache_loaded_ms := 0, r_cache_retry_after_ms := 0 \<rparr>"

text \<open>The two tests made before and after taking the refresh lock: \<open>Some\<close> ends the refresh.\<close>

definition cache_decision :: "u64 \<Rightarrow> 'w router \<Rightarrow> (router_error + unit) option" where
  "cache_decision now r =
     (let loaded = r_cache_loaded_ms r; retry_after = r_cache_retry_after_ms r in
      if loaded \<noteq> 0 \<and> sat_sub now loaded < NAMESPACE_CACHE_REFRESH_MS then Some (Inr ())
      else if retry_after \<noteq> 0 \<and> now < retry_after then
        Some (if loaded = 0 then Inl NamespaceResolverUnavailable else Inr ())
      else None)"

definition refresh_failed :: "u64 \<Rightarrow> u64 \<Rightarrow> ('w, unit) rm" where
  "refresh_failed now loaded =
     ebnd (modify (\<lambda>r. r\<lparr> r_cache_retry_after_ms := sat_add now NAMESPACE_CACHE_FAILURE_BACKOFF_MS \<rparr>)) (\<lambda>_.
     if loaded = 0 then throw NamespaceResolverUnavailable else eret ())"

text \<open>\<open>entries.into_iter().map(|e| (e.namespace.clone(), e)).collect()\<close>: a later entry replaces an earlier one.\<close>

definition load_namespaces :: "u64 \<Rightarrow> namespace_policy_entry list \<Rightarrow> 'w router \<Rightarrow> 'w router" where
  "load_namespaces now entries r =
     r\<lparr> r_namespace_roots := sort_namespace_roots (remdups (map np_namespace entries)),
       r_namespace_policies := map_of (rev (map (\<lambda>e. (np_namespace e, e)) entries)),
       r_cache_loaded_ms := now, r_cache_retry_after_ms := 0 \<rparr>"

definition ensure_lockable_route :: "'w router \<Rightarrow> string \<Rightarrow> namespace_route \<Rightarrow> router_error + unit" where
  "ensure_lockable_route r path route =
     (let min_depth = ro_routing_prefix_segments (r_routing r) in
      if \<not> nr_explicit route \<and> 0 < min_depth \<and> path_depth path < min_depth
      then Inl (NamespaceDepthUnsupported path) else Inr ())"

definition namespace_route_would_change :: "('w, 'db) cluster \<Rightarrow> 'w router \<Rightarrow> string \<Rightarrow> bool \<Rightarrow> bool" where
  "namespace_route_would_change E r namespace explicit =
     (if explicit then False
      else
        let probe = (if CHR '':'' \<in> set namespace \<or> ro_routing_prefix_segments (r_routing r) = 0
                     then namespace else namespace @ '':/'') in
        nr_namespace (resolve_namespace_cached E r probe) \<noteq> namespace)"

definition group_of_domain :: "'c sm_codec_scheme \<Rightarrow> string \<Rightarrow> ('w, group_id) rm" where
  "group_of_domain C domain =
     ebnd (asks (\<lambda>r. map_of (r_domain_groups r) domain)) (\<lambda>cached.
     case cached of
       Some g \<Rightarrow> eret g
     | None \<Rightarrow>
         ebnd (asks (\<lambda>r. place_domain (xxh3_64 C) domain (ro_group_count (r_routing r)))) (\<lambda>g.
         ebnd (modify (\<lambda>r. if length (r_domain_groups r) < DOMAIN_CACHE_MAX
                           then r\<lparr> r_domain_groups := (domain, g) # r_domain_groups r \<rparr> else r)) (\<lambda>_.
         eret g)))"

definition group_of :: "('w, 'db) cluster \<Rightarrow> 'c sm_codec_scheme \<Rightarrow> string \<Rightarrow> ('w, group_id) rm" where
  "group_of E C path =
     ebnd (asks (\<lambda>r. resolve_namespace_cached E r path)) (\<lambda>route. group_of_domain C (nr_namespace route))"

definition lock_groups :: "'w router \<Rightarrow> group_id list" where
  "lock_groups r = map word_of_nat [0..<unat (ro_group_count (r_routing r))]"

definition all_groups :: "'w router \<Rightarrow> group_id list" where
  "all_groups r = lock_groups r @ [SYS_GROUP]"

section \<open>Commands\<close>

definition next_request_id :: "('w, request_id) rm" where
  "next_request_id r =
     (Inr \<lparr> ri_client_id = r_client_id r, ri_seq = r_seq r \<rparr>, r\<lparr> r_seq := r_seq r + 1 \<rparr>)"

definition request_id_of :: "string option \<Rightarrow> ('w, request_id) rm" where
  "request_id_of idempotency_key =
     (case idempotency_key of
        Some key \<Rightarrow> eret \<lparr> ri_client_id = ''external:'' @ key, ri_seq = 0 \<rparr>
      | None \<Rightarrow> next_request_id)"

definition command_with_idempotency :: "('w, 'db) cluster \<Rightarrow> op \<Rightarrow> string option \<Rightarrow> ('w, command) rm" where
  "command_with_idempotency E op idempotency_key =
     ebnd (request_id_of idempotency_key) (\<lambda>rid.
     ebnd (in_world (now_ms_of E)) (\<lambda>now.
     eret \<lparr> cmd_request_id = Some rid, cmd_now_ms = now, cmd_op = op \<rparr>))"

definition router_command :: "('w, 'db) cluster \<Rightarrow> op \<Rightarrow> ('w, command) rm" where
  "router_command E op = command_with_idempotency E op None"

definition scoped_client_id :: "string \<Rightarrow> string \<Rightarrow> string" where
  "scoped_client_id key scope = ''external-scoped:'' @ nat_str (length key) @ '':'' @ key @ '':'' @ scope"

definition command_with_scoped_idempotency ::
    "('w, 'db) cluster \<Rightarrow> op \<Rightarrow> string option \<Rightarrow> string \<Rightarrow> ('w, command) rm" where
  "command_with_scoped_idempotency E op idempotency_key scope =
     ebnd (case idempotency_key of
             Some key \<Rightarrow> eret \<lparr> ri_client_id = scoped_client_id key scope, ri_seq = 0 \<rparr>
           | None \<Rightarrow> next_request_id) (\<lambda>rid.
     ebnd (in_world (now_ms_of E)) (\<lambda>now.
     eret \<lparr> cmd_request_id = Some rid, cmd_now_ms = now, cmd_op = op \<rparr>))"

section \<open>Leaders\<close>

definition note_leader :: "group_id \<Rightarrow> leader_hint \<Rightarrow> ('w, unit) rm" where
  "note_leader g leader = modify (\<lambda>r. r\<lparr> r_leader_hints := (r_leader_hints r)(g := leader) \<rparr>)"

definition leader_of :: "('w, 'db) cluster \<Rightarrow> 'w router \<Rightarrow> group_id \<Rightarrow> leader_hint" where
  "leader_of E r g =
     (case r_leader_hints r g of Some hint \<Rightarrow> Some hint | None \<Rightarrow> metrics_leader E (r_world r) g)"

fun add_members :: "u64 \<Rightarrow> (u64 \<times> node_meta) list \<Rightarrow> (u64 \<times> node_meta) list \<Rightarrow> (u64 \<times> node_meta) list" where
  "add_members me targets [] = targets"
| "add_members me targets ((i, meta) # ms) =
     (if i = me \<or> i \<in> fst ` set targets then add_members me targets ms
      else add_members me (targets @ [(i, meta)]) ms)"

definition forward_targets :: "('w, 'db) cluster \<Rightarrow> 'w router \<Rightarrow> group_id \<Rightarrow> (u64 \<times> node_meta) list" where
  "forward_targets E r g =
     (let targets = (case leader_of E r g of
                       Some leader \<Rightarrow> if fst leader \<noteq> this_node E then [leader] else []
                     | None \<Rightarrow> []) in
      case known_members E (r_world r) of
        Some members \<Rightarrow> add_members (this_node E) targets members
      | None \<Rightarrow> targets)"

section \<open>Writes\<close>

definition forward_command ::
    "('w, 'db) cluster \<Rightarrow> group_id \<Rightarrow> u64 \<Rightarrow> node_meta \<Rightarrow> command \<Rightarrow> ('w router, forward_error, apply_response) eff" where
  "forward_command E g leader_id leader cmd =
     in_world (
     ebnd (\<lambda>w. (map_sum Unreachable id (open_channel (wire E) leader_id (nm_raft_addr leader) w), w)) (\<lambda>_.
     ebnd (elift (map_sum (\<lambda>e. Other (''encode: '' @ e)) id (command_encode (wire E) cmd))) (\<lambda>command.
     ebnd (\<lambda>w. (map_sum Other id (auth_header (wire E) w), w)) (\<lambda>_.
     ebnd (map_err Unreachable (rpc_forward (wire E) leader_id g command)) (\<lambda>reply.
     case write_answer_decode (wire E) reply of
       Inl e \<Rightarrow> throw (Other (''decode: '' @ e))
     | Inr result \<Rightarrow> elift result)))))"

datatype 'a forwarded = Answered 'a | Chased | Exhausted

text \<open>The inner loop over the targets of one hop, shared by writes and reads.\<close>

fun try_targets ::
    "('w, 'db) cluster \<Rightarrow> group_id \<Rightarrow> string \<Rightarrow> (u64 \<Rightarrow> node_meta \<Rightarrow> ('w router, forward_error, 'a) eff) \<Rightarrow>
     (u64 \<times> node_meta) list \<Rightarrow> ('w, 'a forwarded) rm" where
  "try_targets E g what send [] = eret Exhausted"
| "try_targets E g what send ((target_id, target_meta) # targets) =
     ebnd (attempt (send target_id target_meta)) (\<lambda>result.
     case result of
       Inr resp \<Rightarrow> eret (Answered resp)
     | Inl (NotLeader leader) \<Rightarrow> ebnd (note_leader g leader) (\<lambda>_. eret Chased)
     | Inl (Other e) \<Rightarrow> throw (Anyhow (''group '' @ nat_str (unat g) @ what @ e))
     | Inl _ \<Rightarrow>
         ebnd (asks (\<lambda>r. map_option fst (leader_of E r g) = Some target_id)) (\<lambda>stale.
         ebnd (if stale then note_leader g None else eret ()) (\<lambda>_.
         try_targets E g what send targets)))"

datatype local_write = LocalDone apply_response | LocalRetry | LocalForward

definition write_locally :: "('w, 'db) cluster \<Rightarrow> group_id \<Rightarrow> command \<Rightarrow> ('w, local_write) rm" where
  "write_locally E g cmd =
     ebnd (asks (\<lambda>r. core_of E (r_world r) g)) (\<lambda>hosted.
     if \<not> hosted then eret LocalForward
     else
       ebnd (attempt (in_world (client_write E g cmd))) (\<lambda>result.
       case result of
         Inr resp \<Rightarrow> eret (LocalDone resp)
       | Inl (ForwardToLeader fwd) \<Rightarrow>
           ebnd (note_leader g (leader_of_error fwd)) (\<lambda>_.
           if leader_of_error fwd = None then ebnd (sleep_ms E 200) (\<lambda>_. eret LocalRetry) else eret LocalForward)
       | Inl (RaftFailed e) \<Rightarrow> throw (Anyhow (''group '' @ nat_str (unat g) @ '' write: '' @ e))))"

fun apply_hops :: "('w, 'db) cluster \<Rightarrow> group_id \<Rightarrow> command \<Rightarrow> nat \<Rightarrow> ('w, apply_response) rm" where
  "apply_hops E g cmd 0 = throw WriterUnavailable"
| "apply_hops E g cmd (Suc hops) =
     ebnd (write_locally E g cmd) (\<lambda>local.
     case local of
       LocalDone resp \<Rightarrow> eret resp
     | LocalRetry \<Rightarrow> apply_hops E g cmd hops
     | LocalForward \<Rightarrow>
         ebnd (asks (\<lambda>r. forward_targets E r g)) (\<lambda>targets.
         if targets = [] then ebnd (sleep_ms E 200) (\<lambda>_. apply_hops E g cmd hops)
         else
           ebnd (try_targets E g '' forward: '' (\<lambda>i meta. forward_command E g i meta cmd) targets) (\<lambda>outcome.
           case outcome of
             Answered resp \<Rightarrow> eret resp
           | Chased \<Rightarrow> apply_hops E g cmd hops
           | Exhausted \<Rightarrow> ebnd (sleep_ms E 200) (\<lambda>_. apply_hops E g cmd hops))))"

definition apply_inner :: "('w, 'db) cluster \<Rightarrow> group_id \<Rightarrow> command \<Rightarrow> ('w, apply_response) rm" where
  "apply_inner E g cmd = apply_hops E g cmd MAX_FORWARD_HOPS"

definition apply_to :: "('w, 'db) cluster \<Rightarrow> group_id \<Rightarrow> command \<Rightarrow> ('w, apply_response) rm" where
  "apply_to E g cmd =
     ebnd (asks (\<lambda>r. fsync_healthy E (r_world r))) (\<lambda>healthy.
     if \<not> healthy then throw WriterUnavailable
     else
       ebnd (asks (\<lambda>r. g < ro_group_count (r_routing r) \<or> g = SYS_GROUP)) (\<lambda>known.
       if \<not> known then throw (Anyhow (''unknown group '' @ nat_str (unat g)))
       else
         ebnd (asks (\<lambda>r. permit_free (rt E) (r_world r) g)) (\<lambda>free.
         if \<not> free then throw WriteQueueFull
         else
           ebnd (apply_inner E g cmd) (\<lambda>resp.
           case resp of Rejected kind detail \<Rightarrow> throw (CommandRejected kind detail) | _ \<Rightarrow> eret resp))))"

text \<open>
  The commands run concurrently and their results are taken in the order they finish; the first error
  drops the rest. A dropped command counts as never sent, or its effect as one of the world's.
\<close>

definition fanout_apply :: "('w, 'db) cluster \<Rightarrow> (group_id \<times> command) list \<Rightarrow> ('w, apply_response list) rm" where
  "fanout_apply E cmds =
     ebnd (completion_order E cmds) (\<lambda>cmds.
     each_map (\<lambda>(g, cmd). apply_to E g cmd) cmds)"

definition MAX_RETRIES :: nat where
  "MAX_RETRIES = 3"

definition attempt_group ::
    "('w, 'db) cluster \<Rightarrow> (group_id \<Rightarrow> ('w, command) rm) \<Rightarrow> group_id \<Rightarrow> ('w, group_id + apply_response) rm" where
  "attempt_group E build g =
     ebnd (build g) (\<lambda>cmd.
     ebnd (attempt (apply_to E g cmd)) (\<lambda>result.
     eret (map_sum (\<lambda>_. g) id result)))"

definition resilient_round ::
    "('w, 'db) cluster \<Rightarrow> (group_id \<Rightarrow> ('w, command) rm) \<Rightarrow> group_id list \<Rightarrow> ('w, (group_id + apply_response) list) rm" where
  "resilient_round E build remaining =
     ebnd (completion_order E remaining) (each_map (attempt_group E build))"

fun failures :: "(group_id + apply_response) list \<Rightarrow> group_id list" where
  "failures [] = []"
| "failures (Inl g # results) = g # failures results"
| "failures (Inr _ # results) = failures results"

fun answers :: "(group_id + apply_response) list \<Rightarrow> apply_response list" where
  "answers [] = []"
| "answers (Inl _ # results) = answers results"
| "answers (Inr resp # results) = resp # answers results"

fun resilient_rounds ::
    "('w, 'db) cluster \<Rightarrow> (group_id \<Rightarrow> ('w, command) rm) \<Rightarrow> bool \<Rightarrow> nat \<Rightarrow> group_id list \<Rightarrow> apply_response list \<Rightarrow>
     ('w, apply_response list \<times> group_id list) rm" where
  "resilient_rounds E build again 0 remaining responses = eret (responses, remaining)"
| "resilient_rounds E build again (Suc n) remaining responses =
     (if remaining = [] then eret (responses, remaining)
      else
        ebnd (if again then sleep_ms E 250 else eret ()) (\<lambda>_.
        ebnd (resilient_round E build remaining) (\<lambda>results.
        resilient_rounds E build True n (failures results) (responses @ answers results))))"

definition fanout_apply_resilient ::
    "('w, 'db) cluster \<Rightarrow> group_id list \<Rightarrow> (group_id \<Rightarrow> ('w, command) rm) \<Rightarrow> ('w, apply_response list \<times> group_id list) rm" where
  "fanout_apply_resilient E groups build = resilient_rounds E build False (MAX_RETRIES + 1) groups []"

section \<open>Reads\<close>

definition read_here ::
    "('w, 'db) cluster \<Rightarrow> 'db rocksdb \<Rightarrow> 'c codec_scheme \<Rightarrow> group_id \<Rightarrow> read_op \<Rightarrow> ('w, read_result) rm" where
  "read_here E R C g op =
     ebnd (in_world (now_ms_of E)) (\<lambda>wall.
     ebnd (asks (\<lambda>r. local_db E (r_world r))) (\<lambda>db.
     elift (map_sum EngineError id (execute_read_blocking R C wall db g op (node_default_algorithm E)))))"

definition forward_read_to ::
    "('w, 'db) cluster \<Rightarrow> group_id \<Rightarrow> u64 \<Rightarrow> node_meta \<Rightarrow> read_op \<Rightarrow> ('w router, forward_error, read_result) eff" where
  "forward_read_to E g target_id target op =
     in_world (
     ebnd (\<lambda>w. (map_sum Unreachable id (open_channel (wire E) target_id (nm_raft_addr target) w), w)) (\<lambda>_.
     ebnd (elift (map_sum (\<lambda>e. Other (''encode: '' @ e)) id (read_op_encode (wire E) op))) (\<lambda>read_op.
     ebnd (\<lambda>w. (map_sum Other id (auth_header (wire E) w), w)) (\<lambda>_.
     ebnd (map_err Unreachable (rpc_forward_read (wire E) target_id g read_op)) (\<lambda>reply.
     case read_answer_decode (wire E) reply of
       Inl e \<Rightarrow> throw (Other (''decode: '' @ e))
     | Inr result \<Rightarrow> elift result)))))"

fun read_hops :: "('w, 'db) cluster \<Rightarrow> group_id \<Rightarrow> read_op \<Rightarrow> nat \<Rightarrow> ('w, read_result) rm" where
  "read_hops E g op 0 = throw WriterUnavailable"
| "read_hops E g op (Suc hops) =
     ebnd (asks (\<lambda>r. forward_targets E r g)) (\<lambda>targets.
     if targets = [] then ebnd (sleep_ms E 200) (\<lambda>_. read_hops E g op hops)
     else
       ebnd (try_targets E g '' read: '' (\<lambda>i meta. forward_read_to E g i meta op) targets) (\<lambda>outcome.
       case outcome of
         Answered result \<Rightarrow> eret result
       | Chased \<Rightarrow> read_hops E g op hops
       | Exhausted \<Rightarrow> ebnd (sleep_ms E 200) (\<lambda>_. read_hops E g op hops)))"

definition read_forwarded :: "('w, 'db) cluster \<Rightarrow> group_id \<Rightarrow> read_op \<Rightarrow> ('w, read_result) rm" where
  "read_forwarded E g op = read_hops E g op MAX_FORWARD_HOPS"

definition read_on ::
    "('w, 'db) cluster \<Rightarrow> 'db rocksdb \<Rightarrow> 'c codec_scheme \<Rightarrow> group_id \<Rightarrow> read_op \<Rightarrow> ('w, read_result) rm" where
  "read_on E R C g op =
     ebnd (asks (\<lambda>r. core_of E (r_world r) g)) (\<lambda>hosted.
     if hosted then read_here E R C g op else read_forwarded E g op)"

definition read_linearizable ::
    "('w, 'db) cluster \<Rightarrow> 'db rocksdb \<Rightarrow> 'c codec_scheme \<Rightarrow> group_id \<Rightarrow> read_op \<Rightarrow> ('w, read_result) rm" where
  "read_linearizable E R C g op =
     ebnd (asks (\<lambda>r. core_of E (r_world r) g)) (\<lambda>hosted.
     if \<not> hosted then read_forwarded E g op
     else
       ebnd (attempt (in_world (ensure_linearizable E g))) (\<lambda>barrier.
       case barrier of
         Inr _ \<Rightarrow> read_here E R C g op
       | Inl (ForwardToLeader fwd) \<Rightarrow> ebnd (note_leader g (leader_of_error fwd)) (\<lambda>_. read_forwarded E g op)
       | Inl (RaftFailed e) \<Rightarrow> throw (Anyhow (''group '' @ nat_str (unat g) @ '' read barrier: '' @ e))))"

definition expect_bool :: "read_result \<Rightarrow> ('w, bool) rm" where
  "expect_bool result = (case result of ReadBool b \<Rightarrow> eret b | _ \<Rightarrow> unexpected_read)"

text \<open>
  The namespace table is read at most once in \<open>NAMESPACE_CACHE_REFRESH_MS\<close>, by one task at a time. A read
  that does not finish in time is dropped: what it did remains, its answer is not used.
\<close>

definition refresh_namespaces ::
    "('w, 'db) cluster \<Rightarrow> 'db rocksdb \<Rightarrow> 'c codec_scheme \<Rightarrow> u64 \<Rightarrow> u64 \<Rightarrow> ('w, unit) rm" where
  "refresh_namespaces E R C now loaded =
     ebnd (attempt (read_linearizable E R C SYS_GROUP ListNamespaces)) (\<lambda>result.
     ebnd (asks (\<lambda>r. refresh_in_time (rt E) (r_world r))) (\<lambda>in_time.
     case result of
       Inr (ReadNamespaces entries) \<Rightarrow>
         if in_time then modify (load_namespaces now entries) else refresh_failed now loaded
     | _ \<Rightarrow> refresh_failed now loaded))"

definition refresh_namespace_cache_if_stale ::
    "('w, 'db) cluster \<Rightarrow> 'db rocksdb \<Rightarrow> 'c codec_scheme \<Rightarrow> ('w, unit) rm" where
  "refresh_namespace_cache_if_stale E R C =
     ebnd (namespace_cache_now_ms E) (\<lambda>now.
     ebnd (asks (cache_decision now)) (\<lambda>first.
     case first of
       Some answer \<Rightarrow> elift answer
     | None \<Rightarrow>
         ebnd (asks r_cache_loaded_ms) (\<lambda>loaded.
         ebnd (asks (\<lambda>r. refresh_busy (rt E) (r_world r))) (\<lambda>busy.
         if loaded \<noteq> 0 \<and> busy then eret ()
         else
           ebnd (namespace_cache_now_ms E) (\<lambda>now.
           ebnd (asks (cache_decision now)) (\<lambda>again.
           case again of
             Some answer \<Rightarrow> elift answer
           | None \<Rightarrow> ebnd (asks r_cache_loaded_ms) (\<lambda>loaded. refresh_namespaces E R C now loaded)))))))"

section \<open>Draining a namespace\<close>

fun any_group ::
    "('w, 'db) cluster \<Rightarrow> (group_id \<Rightarrow> ('w, read_result) rm) \<Rightarrow> group_id list \<Rightarrow> ('w, bool) rm" where
  "any_group E ask [] = eret False"
| "any_group E ask (g # gs) =
     ebnd (ask g) (\<lambda>result.
     ebnd (expect_bool result) (\<lambda>yes.
     if yes then eret True else any_group E ask gs))"

definition namespace_has_locks_anywhere ::
    "('w, 'db) cluster \<Rightarrow> 'db rocksdb \<Rightarrow> 'c codec_scheme \<Rightarrow> string \<Rightarrow> ('w, bool) rm" where
  "namespace_has_locks_anywhere E R C namespace =
     ebnd (asks lock_groups) (\<lambda>groups.
     ebnd (completion_order E groups) (\<lambda>groups.
     any_group E (\<lambda>g. read_linearizable E R C g (NamespaceHasLocks namespace)) groups))"

definition ensure_namespace_drained_before_delete ::
    "('w, 'db) cluster \<Rightarrow> 'db rocksdb \<Rightarrow> 'c codec_scheme \<Rightarrow> string \<Rightarrow> bool \<Rightarrow> ('w, unit) rm" where
  "ensure_namespace_drained_before_delete E R C namespace explicit =
     (if \<not> explicit then eret ()
      else
        ebnd (namespace_has_locks_anywhere E R C namespace) (\<lambda>locked.
        if locked then throw (NamespaceNotDrained namespace) else eret ()))"

definition ensure_namespace_drained_if_route_changes ::
    "('w, 'db) cluster \<Rightarrow> 'db rocksdb \<Rightarrow> 'c codec_scheme \<Rightarrow> string \<Rightarrow> bool \<Rightarrow> ('w, unit) rm" where
  "ensure_namespace_drained_if_route_changes E R C namespace explicit =
     ebnd (asks (\<lambda>r. namespace_route_would_change E r namespace explicit)) (\<lambda>changes.
     if \<not> changes then eret ()
     else
       ebnd (namespace_has_locks_anywhere E R C namespace) (\<lambda>locked.
       if locked then throw (NamespaceNotDrained namespace) else eret ()))"

section \<open>Expiry\<close>

definition router_gc_sweep ::
    "('w, 'db) cluster \<Rightarrow> 'db rocksdb \<Rightarrow> group_id \<Rightarrow> u32 \<Rightarrow> ('w, u32 \<times> u64 \<times> string list) rm" where
  "router_gc_sweep E R g batch =
     ebnd (in_world (now_ms_of E)) (\<lambda>now.
     ebnd (asks (\<lambda>r. local_db E (r_world r))) (\<lambda>db.
     ebnd (elift (map_sum EngineError id (group_has_expiry_due R db g now))) (\<lambda>due.
     if \<not> due then eret (0, 0, [])
     else
       ebnd (apply_to E g \<lparr> cmd_request_id = None, cmd_now_ms = now, cmd_op = GcSweep now batch \<rparr>) (\<lambda>resp.
       case resp of
         RespGc scanned reclaimed granted \<Rightarrow> eret (scanned, reclaimed, granted)
       | _ \<Rightarrow> unexpected_response))))"

section \<open>Lock operations\<close>

text \<open>\<open>routes.entry(route.namespace).or_insert(route)\<close>\<close>

definition add_route :: "namespace_route \<Rightarrow> namespace_route list \<Rightarrow> namespace_route list" where
  "add_route route routes =
     (if nr_namespace route \<in> nr_namespace ` set routes then routes else routes @ [route])"

fun request_routes ::
    "('w, 'db) cluster \<Rightarrow> 'w router \<Rightarrow> lock_req list \<Rightarrow> namespace_route list \<Rightarrow> router_error + namespace_route list" where
  "request_routes E r [] routes = Inr routes"
| "request_routes E r (req # reqs) routes =
     (let route = resolve_namespace_cached E r (lr_path req) in
      case (if lr_state req = New then ensure_lockable_route r (lr_path req) route else Inr ()) of
        Inl e \<Rightarrow> Inl e
      | Inr _ \<Rightarrow> request_routes E r reqs (add_route route routes))"

definition acquire_routes ::
    "('w, 'db) cluster \<Rightarrow> 'w router \<Rightarrow> acquire_args \<Rightarrow> router_error + namespace_route list" where
  "acquire_routes E r args =
     map_sum id
       (fold (\<lambda>req. add_route (resolve_namespace_cached E r (rr_path req))) (aa_release_requests args))
       (request_routes E r (aa_requests args) [])"

type_synonym acquired = "acquire_outcome \<times> string list \<times> string option"

text \<open>One turn of the loop.\<close>

definition acquire_once ::
    "('w, 'db) cluster \<Rightarrow> 'db rocksdb \<Rightarrow> 'c sm_codec_scheme \<Rightarrow> acquire_args \<Rightarrow> string option \<Rightarrow>
     ('w, acquired) rm" where
  "acquire_once E R C args idempotency_key =
     ebnd (refresh_namespace_cache_if_stale E R C) (\<lambda>_.
     ebnd (asks (\<lambda>r. acquire_routes E r args)) (\<lambda>found.
     ebnd (elift found) (\<lambda>routes.
     if 1 < length routes then throw MultiDomainUnsupported
     else case routes of
       [] \<Rightarrow> eret (AcqOk 0, [], None)
     | route # _ \<Rightarrow>
         let namespace = nr_namespace route in
         ebnd (group_of_domain C namespace) (\<lambda>g.
         ebnd (command_with_idempotency E (AcquireInNamespace namespace (nr_policy route) args) idempotency_key) (\<lambda>cmd.
         ebnd (apply_to E g cmd) (\<lambda>response.
         case response of
           RespAcquire outcome \<Rightarrow> eret (outcome, [], Some namespace)
         | AcquireGranted outcome granted \<Rightarrow> eret (outcome, granted, Some namespace)
         | _ \<Rightarrow> unexpected_response))))))"

definition stale_route :: "router_error \<Rightarrow> bool" where
  "stale_route e =
     (case e of CommandRejected kind _ \<Rightarrow> kind = PolicyEpochStale \<or> kind = RoutingStale | _ \<Rightarrow> False)"

text \<open>Only a refused command is tried again, since no other error of a turn is a stale route.\<close>

definition acquire_with_idempotency ::
    "('w, 'db) cluster \<Rightarrow> 'db rocksdb \<Rightarrow> 'c sm_codec_scheme \<Rightarrow> acquire_args \<Rightarrow> string option \<Rightarrow> ('w, acquired) rm" where
  "acquire_with_idempotency E R C args idempotency_key =
     ebnd (attempt (acquire_once E R C args idempotency_key)) (\<lambda>first.
     case first of
       Inr answer \<Rightarrow> eret answer
     | Inl e \<Rightarrow>
         if \<not> stale_route e then throw e
         else
           ebnd (modify invalidate_namespace_cache) (\<lambda>_.
           ebnd (refresh_namespace_cache_if_stale E R C) (\<lambda>_.
           acquire_once E R C args idempotency_key)))"

definition router_acquire ::
    "('w, 'db) cluster \<Rightarrow> 'db rocksdb \<Rightarrow> 'c sm_codec_scheme \<Rightarrow> acquire_args \<Rightarrow> ('w, acquire_outcome \<times> string list) rm" where
  "router_acquire E R C args =
     ebnd (acquire_with_idempotency E R C args None) (\<lambda>(outcome, granted, _). eret (outcome, granted))"

definition collect_granted :: "apply_response list \<Rightarrow> string list" where
  "collect_granted responses = concat (map (\<lambda>r. case r of Granted g \<Rightarrow> g | _ \<Rightarrow> []) responses)"

text \<open>
  \<open>by_namespace\<close>: the requests of each namespace with the group it is placed on. The map is walked in
  an order of its own.
\<close>

type_synonym 'a by_namespace = "(string \<times> group_id \<times> 'a list) list"

fun add_to_namespace :: "string \<Rightarrow> group_id \<Rightarrow> 'a \<Rightarrow> 'a by_namespace \<Rightarrow> 'a by_namespace" where
  "add_to_namespace namespace g x [] = [(namespace, g, [x])]"
| "add_to_namespace namespace g x ((n, h, xs) # rest) =
     (if n = namespace then (n, h, xs @ [x]) # rest else (n, h, xs) # add_to_namespace namespace g x rest)"

fun split_by_namespace ::
    "('w, 'db) cluster \<Rightarrow> 'c sm_codec_scheme \<Rightarrow> ('a \<Rightarrow> string) \<Rightarrow> 'a list \<Rightarrow> 'a by_namespace \<Rightarrow> ('w, 'a by_namespace) rm" where
  "split_by_namespace E C path [] acc = eret acc"
| "split_by_namespace E C path (x # xs) acc =
     ebnd (asks (\<lambda>r. resolve_namespace_cached E r (path x))) (\<lambda>route.
     ebnd (group_of_domain C (nr_namespace route)) (\<lambda>g.
     split_by_namespace E C path xs (add_to_namespace (nr_namespace route) g x acc)))"

definition clear_wait_edge_with_idempotency :: "('w, 'db) cluster \<Rightarrow> string \<Rightarrow> string option \<Rightarrow> ('w, unit) rm" where
  "clear_wait_edge_with_idempotency E owner idempotency_key =
     ebnd (command_with_idempotency E (ClearWaitEdge owner) idempotency_key) (\<lambda>cmd.
     ebnd (apply_to E SYS_GROUP cmd) (\<lambda>_. eret ()))"

definition clear_wait_edge :: "('w, 'db) cluster \<Rightarrow> string \<Rightarrow> ('w, unit) rm" where
  "clear_wait_edge E owner = clear_wait_edge_with_idempotency E owner None"

definition release_with_idempotency ::
    "('w, 'db) cluster \<Rightarrow> 'db rocksdb \<Rightarrow> 'c sm_codec_scheme \<Rightarrow> string \<Rightarrow> rel_req list \<Rightarrow> bool \<Rightarrow> string option \<Rightarrow>
     ('w, string list) rm" where
  "release_with_idempotency E R C owner reqs del_wait idempotency_key =
     (if reqs = [] then eret []
      else
        ebnd (refresh_namespace_cache_if_stale E R C) (\<lambda>_.
        ebnd (split_by_namespace E C rr_path reqs []) (\<lambda>by_namespace.
        ebnd (completion_order E by_namespace) (\<lambda>by_namespace.
        ebnd (each_map (\<lambda>(namespace, g, group_reqs).
                ebnd (command_with_scoped_idempotency E (Release namespace owner group_reqs del_wait)
                        idempotency_key namespace) (\<lambda>cmd.
                eret (g, cmd))) by_namespace) (\<lambda>cmds.
        ebnd (fanout_apply E cmds) (\<lambda>responses.
        ebnd (if del_wait then clear_wait_edge_with_idempotency E owner idempotency_key else eret ()) (\<lambda>_.
        eret (collect_granted responses))))))))"

text \<open>The groups a list of declared domains covers, and whether they are all of them for want of a hint.\<close>

fun domains_to_groups ::
    "('w, 'db) cluster \<Rightarrow> 'c sm_codec_scheme \<Rightarrow> 'w router \<Rightarrow> string list \<Rightarrow> group_id set \<Rightarrow> string list \<Rightarrow>
     group_id list \<times> bool" where
  "domains_to_groups E C r seen groups [] = (sorted_list_of_set groups, False)"
| "domains_to_groups E C r seen groups (domain # domains) =
     (let placed = place_domain (xxh3_64 C) domain (ro_group_count (r_routing r));
          route = resolve_namespace_cached E r (domain @ '':/'') in
      if domain \<in> set seen then domains_to_groups E C r seen groups domains
      else if CHR '':'' \<in> set domain \<or> ro_routing_prefix_segments (r_routing r) = 0 then
        domains_to_groups E C r (domain # seen) (insert placed groups) domains
      else if nr_explicit route \<and> nr_namespace route = domain then
        domains_to_groups E C r (domain # seen) (insert placed groups) domains
      else (lock_groups r, True))"

definition resolve_domains_to_groups ::
    "('w, 'db) cluster \<Rightarrow> 'db rocksdb \<Rightarrow> 'c sm_codec_scheme \<Rightarrow> string list \<Rightarrow> ('w, group_id list \<times> bool) rm" where
  "resolve_domains_to_groups E R C domains =
     (if domains = [] then asks (\<lambda>r. (lock_groups r, True))
      else
        ebnd (attempt (refresh_namespace_cache_if_stale E R C)) (\<lambda>_.
        asks (\<lambda>r. domains_to_groups E C r [] {} domains)))"

text \<open>One command per group, each with its own request id.\<close>

definition commands_for ::
    "('w, 'db) cluster \<Rightarrow> op \<Rightarrow> string option \<Rightarrow> group_id list \<Rightarrow> ('w, (group_id \<times> command) list) rm" where
  "commands_for E op idempotency_key groups =
     each_map (\<lambda>g. ebnd (command_with_idempotency E op idempotency_key) (\<lambda>cmd. eret (g, cmd))) groups"

definition release_all_with_idempotency ::
    "('w, 'db) cluster \<Rightarrow> 'db rocksdb \<Rightarrow> 'c sm_codec_scheme \<Rightarrow> string \<Rightarrow> bool \<Rightarrow> string list \<Rightarrow> string option \<Rightarrow>
     ('w, string list) rm" where
  "release_all_with_idempotency E R C owner del_wait domains idempotency_key =
     ebnd (resolve_domains_to_groups E R C domains) (\<lambda>(groups, _).
     ebnd (commands_for E (ReleaseAll owner del_wait) idempotency_key groups) (\<lambda>cmds.
     ebnd (fanout_apply E cmds) (\<lambda>responses.
     ebnd (if del_wait then clear_wait_edge_with_idempotency E owner idempotency_key else eret ()) (\<lambda>_.
     eret (collect_granted responses)))))"

fun combine_renewals ::
    "bool \<Rightarrow> bool \<Rightarrow> bool \<Rightarrow> bool \<Rightarrow> apply_response list \<Rightarrow> router_error + renew_outcome" where
  "combine_renewals declared broadcast renewed_any revoke_requested [] =
     Inr (if renewed_any then RenewOk revoke_requested else RenewLost [] MissingAlive)"
| "combine_renewals declared broadcast renewed_any revoke_requested (resp # responses) =
     (case resp of
        RespRenew (RenewOk r) \<Rightarrow> combine_renewals declared broadcast True (revoke_requested \<or> r) responses
      | RespRenew (RenewLost path reason) \<Rightarrow>
          if path \<noteq> [] \<or> (declared \<and> \<not> broadcast) then Inr (RenewLost path reason)
          else combine_renewals declared broadcast renewed_any revoke_requested responses
      | _ \<Rightarrow> Inl (Anyhow ''unexpected response type''))"

definition renew_with_idempotency ::
    "('w, 'db) cluster \<Rightarrow> 'db rocksdb \<Rightarrow> 'c sm_codec_scheme \<Rightarrow> string \<Rightarrow> u64 \<Rightarrow> string list \<Rightarrow> string option \<Rightarrow>
     ('w, renew_outcome) rm" where
  "renew_with_idempotency E R C owner ttl_ms domains idempotency_key =
     ebnd (resolve_domains_to_groups E R C domains) (\<lambda>(groups, broadcast).
     ebnd (commands_for E (Renew owner ttl_ms) idempotency_key groups) (\<lambda>cmds.
     ebnd (fanout_apply E cmds) (\<lambda>responses.
     elift (combine_renewals (domains \<noteq> []) broadcast False False responses))))"

definition force_release_with_idempotency ::
    "('w, 'db) cluster \<Rightarrow> string \<Rightarrow> string option \<Rightarrow> ('w, string list) rm" where
  "force_release_with_idempotency E victim idempotency_key =
     ebnd (asks lock_groups) (\<lambda>groups.
     ebnd (commands_for E (ForceRelease victim) idempotency_key groups) (\<lambda>cmds.
     ebnd (fanout_apply E cmds) (\<lambda>responses.
     ebnd (clear_wait_edge_with_idempotency E victim idempotency_key) (\<lambda>_.
     eret (collect_granted responses)))))"

definition request_revoke :: "('w, 'db) cluster \<Rightarrow> string \<Rightarrow> ('w, unit) rm" where
  "request_revoke E owner =
     ebnd (asks lock_groups) (\<lambda>groups.
     ebnd (each_map (\<lambda>g. ebnd (router_command E (RequestRevoke owner REVOKE_MARKER_TTL_MS)) (\<lambda>cmd. eret (g, cmd))) groups) (\<lambda>cmds.
     ebnd (fanout_apply E cmds) (\<lambda>_. eret ())))"

definition propose_sys :: "('w, 'db) cluster \<Rightarrow> op \<Rightarrow> ('w, apply_response) rm" where
  "propose_sys E op = ebnd (router_command E op) (apply_to E SYS_GROUP)"

definition incr_fencing_token_with_idempotency :: "('w, 'db) cluster \<Rightarrow> string option \<Rightarrow> ('w, i64) rm" where
  "incr_fencing_token_with_idempotency E idempotency_key =
     ebnd (command_with_idempotency E IncrFence idempotency_key) (\<lambda>cmd.
     ebnd (apply_to E SYS_GROUP cmd) (\<lambda>resp.
     case resp of RespIncrFence token \<Rightarrow> eret token | _ \<Rightarrow> unexpected_response))"

definition set_wait_edge_with_idempotency ::
    "('w, 'db) cluster \<Rightarrow> string \<Rightarrow> string \<Rightarrow> u64 \<Rightarrow> wait_edge_metadata option \<Rightarrow> string option \<Rightarrow> ('w, unit) rm" where
  "set_wait_edge_with_idempotency E owner conflict_owner ttl_ms metadata idempotency_key =
     ebnd (command_with_idempotency E
             (SetWaitEdge owner \<lparr> ce_conflict_owner = conflict_owner, ce_metadata = metadata \<rparr> ttl_ms) idempotency_key) (\<lambda>cmd.
     ebnd (apply_to E SYS_GROUP cmd) (\<lambda>_. eret ()))"

section \<open>Namespace policies\<close>

definition collect_cleared :: "apply_response \<Rightarrow> string set \<Rightarrow> router_error + string set" where
  "collect_cleared resp into =
     (case resp of
        RespUnit \<Rightarrow> Inr into
      | NamespaceCleared owners \<Rightarrow> Inr (into \<union> set owners)
      | _ \<Rightarrow> Inl (Anyhow ''unexpected response type''))"

fun collect_all_cleared :: "apply_response list \<Rightarrow> string set \<Rightarrow> router_error + string set" where
  "collect_all_cleared [] into = Inr into"
| "collect_all_cleared (resp # responses) into =
     (case collect_cleared resp into of Inl e \<Rightarrow> Inl e | Inr into \<Rightarrow> collect_all_cleared responses into)"

definition namespace_policy_record ::
    "('w, 'db) cluster \<Rightarrow> 'db rocksdb \<Rightarrow> 'c codec_scheme \<Rightarrow> string \<Rightarrow> ('w, lock_policy \<times> bool) rm" where
  "namespace_policy_record E R C namespace =
     ebnd (read_linearizable E R C SYS_GROUP (GetNamespacePolicy namespace)) (\<lambda>result.
     case result of
       ReadPolicy algorithm explicit epoch \<Rightarrow> eret (lock_policy_new algorithm epoch, explicit)
     | _ \<Rightarrow> unexpected_read)"

definition namespace_policy ::
    "('w, 'db) cluster \<Rightarrow> 'db rocksdb \<Rightarrow> 'c codec_scheme \<Rightarrow> string \<Rightarrow> ('w, lock_algorithm \<times> bool) rm" where
  "namespace_policy E R C namespace =
     ebnd (namespace_policy_record E R C namespace) (\<lambda>(policy, explicit). eret (lp_algorithm policy, explicit))"

text \<open>
  The fan-out that setting and deleting a policy share: every lock group first, the system group only when
  all of them applied. The result is the set of owners whose locks were cleared.
\<close>

definition apply_policy_everywhere ::
    "('w, 'db) cluster \<Rightarrow> op \<Rightarrow> string option \<Rightarrow> ('w, string set) rm" where
  "apply_policy_everywhere E op idempotency_key =
     ebnd (asks lock_groups) (\<lambda>groups.
     ebnd (fanout_apply_resilient E groups (\<lambda>_. command_with_idempotency E op idempotency_key)) (\<lambda>(responses, failed).
     ebnd (elift (collect_all_cleared responses {})) (\<lambda>cleared.
     if failed \<noteq> [] then throw (NamespacePolicyPartial (sorted_list_of_set cleared) failed)
     else
       ebnd (command_with_idempotency E op idempotency_key) (\<lambda>cmd.
       ebnd (apply_to E SYS_GROUP cmd) (\<lambda>resp.
       elift (collect_cleared resp cleared))))))"

definition set_namespace_policy ::
    "('w, 'db) cluster \<Rightarrow> 'db rocksdb \<Rightarrow> 'c codec_scheme \<Rightarrow> string \<Rightarrow> lock_algorithm \<Rightarrow> string option \<Rightarrow>
     ('w, string list) rm" where
  "set_namespace_policy E R C namespace algorithm idempotency_key =
     ebnd (modify invalidate_namespace_cache) (\<lambda>_.
     ebnd (refresh_namespace_cache_if_stale E R C) (\<lambda>_.
     ebnd (namespace_policy_record E R C namespace) (\<lambda>(_, explicit).
     ebnd (asks (\<lambda>r. namespace_route_would_change E r namespace explicit)) (\<lambda>route_changes.
     ebnd (if route_changes then ensure_namespace_drained_if_route_changes E R C namespace explicit else eret ()) (\<lambda>_.
     ebnd (apply_policy_everywhere E (SetNamespacePolicy namespace algorithm) idempotency_key) (\<lambda>cleared.
     ebnd (namespace_policy_record E R C namespace) (\<lambda>(policy, _).
     ebnd (modify (cache_namespace_entry
             \<lparr> np_namespace = namespace, np_algorithm = lp_algorithm policy, np_epoch = lp_epoch policy \<rparr>)) (\<lambda>_.
     ebnd (if route_changes then sleep_ms E (unat NAMESPACE_CACHE_REFRESH_MS) else eret ()) (\<lambda>_.
     eret (sorted_list_of_set cleared))))))))))"

definition delete_namespace_policy ::
    "('w, 'db) cluster \<Rightarrow> 'db rocksdb \<Rightarrow> 'c codec_scheme \<Rightarrow> string \<Rightarrow> string option \<Rightarrow> ('w, string list) rm" where
  "delete_namespace_policy E R C namespace idempotency_key =
     ebnd (modify invalidate_namespace_cache) (\<lambda>_.
     ebnd (refresh_namespace_cache_if_stale E R C) (\<lambda>_.
     ebnd (namespace_policy_record E R C namespace) (\<lambda>(_, explicit).
     ebnd (if explicit then ensure_namespace_drained_before_delete E R C namespace explicit else eret ()) (\<lambda>_.
     ebnd (apply_policy_everywhere E (DeleteNamespacePolicy namespace) idempotency_key) (\<lambda>cleared.
     ebnd (modify (uncache_namespace_root namespace)) (\<lambda>_.
     ebnd (if explicit then sleep_ms E (unat NAMESPACE_CACHE_REFRESH_MS) else eret ()) (\<lambda>_.
     eret (sorted_list_of_set cleared))))))))"

section \<open>Read-only operations\<close>

fun assert_each ::
    "('w, 'db) cluster \<Rightarrow> 'db rocksdb \<Rightarrow> 'c codec_scheme \<Rightarrow> string \<Rightarrow> i64 \<Rightarrow> string by_namespace \<Rightarrow> ('w, assert_outcome) rm" where
  "assert_each E R C owner token [] = eret AssertOk"
| "assert_each E R C owner token ((namespace, g, paths) # rest) =
     ebnd (read_linearizable E R C g (AssertFencing namespace owner token paths)) (\<lambda>result.
     case result of
       ReadAssert AssertOk \<Rightarrow> assert_each E R C owner token rest
     | ReadAssert failure \<Rightarrow> eret failure
     | _ \<Rightarrow> unexpected_read)"

definition router_assert_fencing ::
    "('w, 'db) cluster \<Rightarrow> 'db rocksdb \<Rightarrow> 'c sm_codec_scheme \<Rightarrow> string \<Rightarrow> i64 \<Rightarrow> string list \<Rightarrow> ('w, assert_outcome) rm" where
  "router_assert_fencing E R C owner token paths =
     ebnd (refresh_namespace_cache_if_stale E R C) (\<lambda>_.
     ebnd (split_by_namespace E C (\<lambda>path. path) paths []) (\<lambda>by_namespace.
     ebnd (completion_order E by_namespace) (assert_each E R C owner token)))"

definition router_is_blocking ::
    "('w, 'db) cluster \<Rightarrow> 'db rocksdb \<Rightarrow> 'c sm_codec_scheme \<Rightarrow> string \<Rightarrow> string \<Rightarrow> reason \<Rightarrow> ('w, bool) rm" where
  "router_is_blocking E R C path owner reason =
     ebnd (refresh_namespace_cache_if_stale E R C) (\<lambda>_.
     ebnd (asks (\<lambda>r. resolve_namespace_cached E r path)) (\<lambda>route.
     ebnd (group_of_domain C (nr_namespace route)) (\<lambda>g.
     ebnd (read_on E R C g (IsBlocking (nr_namespace route) path owner reason)) expect_bool)))"

definition router_is_owner_alive ::
    "('w, 'db) cluster \<Rightarrow> 'db rocksdb \<Rightarrow> 'c sm_codec_scheme \<Rightarrow> string \<Rightarrow> string list \<Rightarrow> ('w, bool) rm" where
  "router_is_owner_alive E R C owner domains =
     ebnd (resolve_domains_to_groups E R C domains) (\<lambda>(groups, _).
     ebnd (completion_order E groups) (\<lambda>groups.
     any_group E (\<lambda>g. read_on E R C g (IsOwnerAlive owner)) groups))"

definition position :: "string \<Rightarrow> string list \<Rightarrow> nat option" where
  "position x xs = (let n = length (takeWhile (\<lambda>y. y \<noteq> x) xs) in if n < length xs then Some n else None)"

text \<open>
  \<open>detect_cycle\<close> follows the wait edges from \<open>start\<close>; \<open>chain\<close> holds the owners visited, in order, and its
  set is the set \<open>visited\<close>. \<open>steps\<close> counts the rounds of the loop that remain.
\<close>

definition edge_blocks ::
    "('w, 'db) cluster \<Rightarrow> 'db rocksdb \<Rightarrow> 'c sm_codec_scheme \<Rightarrow> string \<Rightarrow> wait_edge \<Rightarrow> ('w, bool) rm" where
  "edge_blocks E R C current edge =
     (let next_owner = we_conflict_owner edge in
      case we_metadata edge of
        Some meta \<Rightarrow>
          ebnd (router_is_blocking E R C (wm_conflict_path meta) next_owner (wm_reason meta)) (\<lambda>blocking.
          if blocking then eret True
          else ebnd (attempt (clear_wait_edge E current)) (\<lambda>_. eret False))
      | None \<Rightarrow>
          ebnd (router_is_owner_alive E R C next_owner []) (\<lambda>alive.
          if alive then eret True
          else
            ebnd (attempt (clear_wait_edge E current)) (\<lambda>_.
            ebnd (attempt (clear_wait_edge E next_owner)) (\<lambda>_. eret False))))"

fun walk_waits ::
    "('w, 'db) cluster \<Rightarrow> 'db rocksdb \<Rightarrow> 'c sm_codec_scheme \<Rightarrow> string \<Rightarrow> nat \<Rightarrow> string list \<Rightarrow> string \<Rightarrow> ('w, cycle_outcome) rm" where
  "walk_waits E R C start 0 chain current = eret (Truncated chain)"
| "walk_waits E R C start (Suc steps) chain current =
     (if current \<in> set chain then
        (case position current chain of
           Some pos \<Rightarrow> eret (Cycle (drop pos chain))
         | None \<Rightarrow> throw (Panicked ''revisited owner is in the chain''))
      else
        ebnd (read_on E R C SYS_GROUP (ReadWaitEdge current)) (\<lambda>result.
        case result of
          ReadEdge None \<Rightarrow> eret NoCycle
        | ReadEdge (Some edge) \<Rightarrow>
            ebnd (edge_blocks E R C current edge) (\<lambda>blocks.
            if \<not> blocks then eret NoCycle
            else if we_conflict_owner edge = start then eret (Cycle (chain @ [current]))
            else walk_waits E R C start steps (chain @ [current]) (we_conflict_owner edge))
        | _ \<Rightarrow> unexpected_read))"

definition router_detect_cycle ::
    "('w, 'db) cluster \<Rightarrow> 'db rocksdb \<Rightarrow> 'c sm_codec_scheme \<Rightarrow> string \<Rightarrow> u32 \<Rightarrow> ('w, cycle_outcome) rm" where
  "router_detect_cycle E R C start max_depth = walk_waits E R C start (unat max_depth + 1) [] start"

definition router_inspect_path ::
    "('w, 'db) cluster \<Rightarrow> 'db rocksdb \<Rightarrow> 'c sm_codec_scheme \<Rightarrow> string \<Rightarrow> ('w, path_info) rm" where
  "router_inspect_path E R C path =
     ebnd (refresh_namespace_cache_if_stale E R C) (\<lambda>_.
     ebnd (asks (\<lambda>r. resolve_namespace_cached E r path)) (\<lambda>route.
     ebnd (group_of_domain C (nr_namespace route)) (\<lambda>g.
     ebnd (read_on E R C g (InspectPath (nr_namespace route) path)) (\<lambda>result.
     case result of ReadInspect info \<Rightarrow> eret info | _ \<Rightarrow> unexpected_read))))"

fun gather_owner_locks ::
    "('w, 'db) cluster \<Rightarrow> 'db rocksdb \<Rightarrow> 'c codec_scheme \<Rightarrow> string \<Rightarrow> bool \<Rightarrow> owned_lock list \<Rightarrow> group_id list \<Rightarrow>
     ('w, bool \<times> owned_lock list) rm" where
  "gather_owner_locks E R C owner alive_any all_locks [] = eret (alive_any, all_locks)"
| "gather_owner_locks E R C owner alive_any all_locks (g # gs) =
     ebnd (read_on E R C g (ListOwnerLocks owner)) (\<lambda>result.
     case result of
       ReadOwnerLocks alive locks \<Rightarrow> gather_owner_locks E R C owner (alive_any \<or> alive) (all_locks @ locks) gs
     | _ \<Rightarrow> unexpected_read)"

definition router_list_owner_locks ::
    "('w, 'db) cluster \<Rightarrow> 'db rocksdb \<Rightarrow> 'c sm_codec_scheme \<Rightarrow> string \<Rightarrow> string list \<Rightarrow> ('w, bool \<times> owned_lock list) rm" where
  "router_list_owner_locks E R C owner domains =
     ebnd (resolve_domains_to_groups E R C domains) (\<lambda>(groups, _).
     ebnd (completion_order E groups) (gather_owner_locks E R C owner False []))"

definition dump_cursor :: "group_id \<Rightarrow> bytes option \<Rightarrow> bytes" where
  "dump_cursor g rel_cursor = u32_be g @ (case rel_cursor of Some rel \<Rightarrow> rel | None \<Rightarrow> [])"

definition parse_dump_cursor :: "u32 \<Rightarrow> bytes option \<Rightarrow> router_error + (group_id \<times> bytes option)" where
  "parse_dump_cursor group_count cursor =
     (case cursor of
        None \<Rightarrow> Inr (0, None)
      | Some c \<Rightarrow>
          if length c < 4 then Inl (Anyhow ''malformed dump cursor'')
          else
            let g = word_of_nat (from_be (take 4 c)); rest = drop 4 c in
            if \<not> g < group_count then Inl (Anyhow ''dump cursor group out of range'')
            else Inr (g, if rest = [] then None else Some rest))"

text \<open>The loop of \<open>dump_locks\<close> at group \<open>g\<close>, with the groups after it.\<close>

fun dump_groups ::
    "('w, 'db) cluster \<Rightarrow> 'db rocksdb \<Rightarrow> 'c codec_scheme \<Rightarrow> u32 \<Rightarrow> lock_entry list \<Rightarrow> bytes option \<Rightarrow> group_id \<Rightarrow>
     group_id list \<Rightarrow> ('w, lock_dump_page) rm" where
  "dump_groups E R C owner_page entries rel_cursor g gs =
     (let remaining = unat owner_page - length entries in
      if remaining = 0 then eret \<lparr> ld_entries = entries, ld_next_cursor = Some (dump_cursor g rel_cursor) \<rparr>
      else
        ebnd (read_on E R C g (DumpPage rel_cursor (word_of_nat remaining))) (\<lambda>result.
        case result of
          ReadDump page \<Rightarrow>
            (let entries = entries @ ld_entries page in
             case ld_next_cursor page of
               Some rel \<Rightarrow> eret \<lparr> ld_entries = entries, ld_next_cursor = Some (dump_cursor g (Some rel)) \<rparr>
             | None \<Rightarrow>
                 (case gs of
                    [] \<Rightarrow> eret \<lparr> ld_entries = entries, ld_next_cursor = None \<rparr>
                  | g' # gs' \<Rightarrow> dump_groups E R C owner_page entries None g' gs'))
        | _ \<Rightarrow> unexpected_read))"

declare dump_groups.simps [simp del]

definition router_dump_locks ::
    "('w, 'db) cluster \<Rightarrow> 'db rocksdb \<Rightarrow> 'c codec_scheme \<Rightarrow> bytes option \<Rightarrow> u32 \<Rightarrow> ('w, lock_dump_page) rm" where
  "router_dump_locks E R C cursor owner_page =
     ebnd (asks (\<lambda>r. ro_group_count (r_routing r))) (\<lambda>group_count.
     ebnd (elift (parse_dump_cursor group_count cursor)) (\<lambda>(g, rel_cursor).
     dump_groups E R C owner_page [] rel_cursor g (map word_of_nat [unat g + 1..<unat group_count])))"

end
