(* ===== verification/Routing.thy ===== *)
theory Routing
  imports Router
begin

text \<open>
  What the router keeps: the invariant of its caches, preserved by every operation whatever the world
  answers, and with it over every history of requests.
\<close>

section \<open>Namespace roots\<close>

definition longer_first :: "string \<Rightarrow> string \<Rightarrow> bool" where
  "longer_first a b \<longleftrightarrow> (- int (length a), a) < (- int (length b), b)"

lemma sorted_remdups_adj_strict:
  fixes xs :: "'a::linorder list"
  assumes "sorted xs"
  shows "sorted_wrt (<) (remdups_adj xs)"
  using assms
proof (induction xs rule: remdups_adj.induct)
  case (3 x y xs)
  show ?case
  proof (cases "x = y")
    case False
    then have "x < y" "\<And>z. z \<in> set (y # xs) \<Longrightarrow> y \<le> z" using 3 by auto
    with 3 False show ?thesis by (auto intro: less_le_trans)
  qed (use 3 in simp)
qed auto

lemma sort_namespace_roots_set [simp]: "set (sort_namespace_roots xs) = set xs"
  by (simp add: sort_namespace_roots_def)

lemma sort_namespace_roots_sorted: "sorted_wrt longer_first (sort_namespace_roots xs)"
proof -
  let ?f = "\<lambda>a :: string. (- int (length a), a)"
  have "inj ?f" by (auto simp: inj_def)
  then have "remdups_adj (map ?f (sort_key ?f xs)) = map ?f (sort_namespace_roots xs)"
    by (simp add: sort_namespace_roots_def remdups_adj_map_injective)
  moreover have "sorted (map ?f (sort_key ?f xs))" by (rule sorted_sort_key)
  ultimately have "sorted_wrt (<) (map ?f (sort_namespace_roots xs))"
    using sorted_remdups_adj_strict by fastforce
  then show ?thesis by (simp only: sorted_wrt_map longer_first_def[abs_def])
qed

lemma find_first_longest:
  assumes "sorted_wrt longer_first xs" and "find P xs = Some x"
  shows "x \<in> set xs" and "P x" and "y \<in> set xs \<Longrightarrow> P y \<Longrightarrow> length y \<le> length x"
proof -
  obtain i where i: "i < length xs" "P (xs ! i)" "x = xs ! i" "\<And>j. j < i \<Longrightarrow> \<not> P (xs ! j)"
    using assms(2) by (auto simp: find_Some_iff)
  then show "x \<in> set xs" "P x" by auto
  assume "y \<in> set xs" "P y"
  then obtain j where j: "j < length xs" "y = xs ! j" by (auto simp: in_set_conv_nth)
  with i \<open>P y\<close> have "i \<le> j" by (meson leI)
  then show "length y \<le> length x"
    using i j sorted_wrt_nth_less[OF assms(1), of i j] by (cases "i = j") (auto simp: longer_first_def)
qed

section \<open>The invariant of the caches\<close>

definition roots_ok :: "'w router \<Rightarrow> bool" where
  "roots_ok r \<longleftrightarrow>
     sorted_wrt longer_first (r_namespace_roots r) \<and>
     dom (r_namespace_policies r) = set (r_namespace_roots r) \<and>
     (\<forall>n e. r_namespace_policies r n = Some e \<longrightarrow> np_namespace e = n)"

definition placements_ok :: "'c sm_codec_scheme \<Rightarrow> 'w router \<Rightarrow> bool" where
  "placements_ok C r \<longleftrightarrow>
     (\<forall>(d, g)\<in>set (r_domain_groups r). g = place_domain (xxh3_64 C) d (ro_group_count (r_routing r))) \<and>
     distinct (map fst (r_domain_groups r)) \<and> length (r_domain_groups r) \<le> DOMAIN_CACHE_MAX"

definition router_inv :: "'c sm_codec_scheme \<Rightarrow> routing_options \<Rightarrow> 'w router \<Rightarrow> bool" where
  "router_inv C routing r \<longleftrightarrow> roots_ok r \<and> placements_ok C r \<and> r_routing r = routing"

lemma router_inv_new: "router_inv C routing (router_new routing node pid now w)"
  by (simp add: router_inv_def roots_ok_def placements_ok_def router_new_def)

lemma router_inv_frame [simp]:
  "router_inv C routing (r\<lparr> r_world := w \<rparr>) = router_inv C routing r"
  "router_inv C routing (r\<lparr> r_seq := n \<rparr>) = router_inv C routing r"
  "router_inv C routing (r\<lparr> r_leader_hints := h \<rparr>) = router_inv C routing r"
  "router_inv C routing (r\<lparr> r_cache_loaded_ms := n \<rparr>) = router_inv C routing r"
  "router_inv C routing (r\<lparr> r_cache_retry_after_ms := n \<rparr>) = router_inv C routing r"
  by (simp_all add: router_inv_def roots_ok_def placements_ok_def)

lemma router_inv_roots:
  assumes "router_inv C routing r" and "roots_ok r \<Longrightarrow> roots_ok r'" and "r_domain_groups r' = r_domain_groups r"
    and "r_routing r' = r_routing r"
  shows "router_inv C routing r'"
  using assms unfolding router_inv_def placements_ok_def by auto

lemma load_namespaces_inv: "router_inv C routing r \<Longrightarrow> router_inv C routing (load_namespaces now entries r)"
  by (erule router_inv_roots)
    (auto simp: roots_ok_def load_namespaces_def sort_namespace_roots_sorted dom_map_of_conv_image_fst image_image
      dest!: map_of_SomeD)

lemma cache_namespace_entry_inv: "router_inv C routing r \<Longrightarrow> router_inv C routing (cache_namespace_entry entry r)"
  by (erule router_inv_roots)
    (auto simp: roots_ok_def cache_namespace_entry_def cache_namespace_root_def Let_def sort_namespace_roots_sorted)

lemma uncache_namespace_root_inv: "router_inv C routing r \<Longrightarrow> router_inv C routing (uncache_namespace_root n r)"
  by (erule router_inv_roots) (auto simp: roots_ok_def uncache_namespace_root_def sorted_wrt_filter)

lemma invalidate_namespace_cache_inv: "router_inv C routing r \<Longrightarrow> router_inv C routing (invalidate_namespace_cache r)"
  by (simp add: invalidate_namespace_cache_def)

section \<open>Every operation keeps the invariant\<close>

text \<open>\<open>calm\<close>: the invariant is kept, the outcome is left open except that no error is a panic.\<close>

definition no_panic :: "router_error \<Rightarrow> bool" where
  "no_panic e \<longleftrightarrow> (case e of Panicked _ \<Rightarrow> False | _ \<Rightarrow> True)"

definition calm :: "'c sm_codec_scheme \<Rightarrow> routing_options \<Rightarrow> ('e \<Rightarrow> bool) \<Rightarrow> ('w router, 'e, 'a) eff \<Rightarrow> bool" where
  "calm C routing P m \<longleftrightarrow> ekeeps (router_inv C routing) m P (\<lambda>_. True)"

named_theorems calm_rules \<open>programs that keep the invariant of the router\<close>

lemma no_panic_simps [simp]:
  "no_panic (EngineError e)" "no_panic WriteQueueFull" "no_panic WriterUnavailable" "no_panic MultiDomainUnsupported"
  "no_panic (NamespaceDepthUnsupported p)" "no_panic NamespaceResolverUnavailable" "no_panic (NamespaceNotDrained n)"
  "no_panic (NamespacePolicyPartial os gs)" "no_panic (CommandRejected k d)" "no_panic (Anyhow t)" "\<not> no_panic (Panicked t)"
  by (simp_all add: no_panic_def)

lemma calm_prims [calm_rules]:
  "calm C ro P (eret a)"
  "P e \<Longrightarrow> calm C ro P (throw e)"
  "calm C ro P (asks f)"
  "(\<And>e. x = Inl e \<Longrightarrow> P e) \<Longrightarrow> calm C ro P (elift x)"
  "(\<And>r. router_inv C ro r \<Longrightarrow> router_inv C ro (h r)) \<Longrightarrow> calm C ro P (modify h)"
  by (auto simp: calm_def intro!: ekeeps_basic ekeeps_asks)

lemma calm_ebnd [calm_rules]: "calm C ro P m \<Longrightarrow> (\<And>a. calm C ro P (f a)) \<Longrightarrow> calm C ro P (ebnd m f)"
  unfolding calm_def by (rule ekeeps_then)

lemma calm_attempt [calm_rules]: "calm C ro (\<lambda>_. True) m \<Longrightarrow> calm C ro P (attempt m)"
  unfolding calm_def by (erule ekeeps_attempt) auto

lemma calm_weaken: "calm C ro Q m \<Longrightarrow> (\<And>e. Q e \<Longrightarrow> P e) \<Longrightarrow> calm C ro P m"
  unfolding calm_def by (erule ekeeps_conseq) auto

lemma calm_any: "calm C ro P m \<Longrightarrow> calm C ro (\<lambda>_. True) m"
  by (erule calm_weaken) simp

lemma calm_each_map [calm_rules]: "(\<And>x. calm C ro P (f x)) \<Longrightarrow> calm C ro P (each_map f xs)"
  by (induction xs) (auto intro!: calm_rules)

lemma calm_in_world: "calm C ro (\<lambda>_. True) (in_world m)"
  by (auto simp: calm_def ekeeps_def in_world_def split: prod.splits sum.splits)

lemma calm_clock [calm_rules]:
  "calm C ro P (in_world (now_ms_of E))"
  "calm C ro P (namespace_cache_now_ms E)"
  "calm C ro P (completion_order E xs)"
  by (auto simp: calm_def ekeeps_def in_world_def now_ms_of_def namespace_cache_now_ms_def completion_order_def
      split: prod.splits sum.splits)

lemma calm_small [calm_rules]:
  "calm C ro P (sleep_ms E n)"
  "calm C ro P (note_leader g l)"
  "calm C ro P next_request_id"
  by (auto simp: sleep_ms_def note_leader_def intro!: calm_rules)
    (auto simp: calm_def ekeeps_def next_request_id_def split: sum.splits)

lemma calm_unexpected [calm_rules]: "calm C ro no_panic unexpected_response" "calm C ro no_panic unexpected_read"
  by (simp_all add: unexpected_response_def unexpected_read_def calm_rules)

lemma memo_inv:
  assumes "router_inv C ro r" and "map_of (r_domain_groups r) d = None" and "length (r_domain_groups r) < DOMAIN_CACHE_MAX"
  shows "router_inv C ro (r\<lparr> r_domain_groups := (d, place_domain (xxh3_64 C) d (ro_group_count (r_routing r))) # r_domain_groups r \<rparr>)"
  using assms by (auto simp: router_inv_def roots_ok_def placements_ok_def map_of_eq_None_iff)

lemma calm_group_of_domain [calm_rules]: "calm C ro P (group_of_domain C d)"
  by (auto simp: calm_def ekeeps_def group_of_domain_def ebnd_def asks_def modify_def eret_def memo_inv split: option.splits)

lemma calm_commands [calm_rules]:
  "calm C ro P (request_id_of k)"
  "calm C ro P (command_with_idempotency E op k)"
  "calm C ro P (router_command E op)"
  "calm C ro P (command_with_scoped_idempotency E op k scope)"
  by (auto simp: request_id_of_def command_with_idempotency_def router_command_def command_with_scoped_idempotency_def
      intro!: calm_rules split: option.splits)

lemma calm_forward: "calm C ro (\<lambda>_. True) (forward_command E g i meta cmd)" "calm C ro (\<lambda>_. True) (forward_read_to E g i meta op)"
  by (simp_all add: forward_command_def forward_read_to_def calm_in_world)

lemma calm_try_targets:
  assumes "\<And>i meta. calm C ro (\<lambda>_. True) (send i meta)"
  shows "calm C ro no_panic (try_targets E g what send targets)"
proof (induction targets)
  case (Cons t ts)
  then show ?case
    by (cases t) (auto intro!: calm_rules assms split: sum.splits forward_error.splits)
qed (simp add: calm_rules)

lemma calm_write_locally [calm_rules]: "calm C ro no_panic (write_locally E g cmd)"
  by (auto simp: write_locally_def intro!: calm_rules calm_in_world split: sum.splits raft_error.splits)

lemma calm_apply_hops [calm_rules]: "calm C ro no_panic (apply_hops E g cmd n)"
  by (induction n)
    (auto intro!: calm_rules calm_try_targets calm_forward split: local_write.splits forwarded.splits)

lemma calm_apply_to [calm_rules]: "calm C ro no_panic (apply_to E g cmd)"
  by (auto simp: apply_to_def apply_inner_def intro!: calm_rules split: apply_response.splits)

lemma calm_read_hops [calm_rules]: "calm C ro no_panic (read_hops E g op n)"
  by (induction n) (auto intro!: calm_rules calm_try_targets calm_forward split: forwarded.splits)

lemma calm_read_here [calm_rules]: "calm C ro no_panic (read_here E R D g op)"
  by (auto simp: read_here_def intro!: calm_rules simp: map_sum_def split: sum.splits)

lemma calm_reads [calm_rules]:
  "calm C ro no_panic (read_forwarded E g op)"
  "calm C ro no_panic (read_on E R D g op)"
  "calm C ro no_panic (read_linearizable E R D g op)"
  by (auto simp: read_forwarded_def read_on_def read_linearizable_def intro!: calm_rules calm_in_world
      split: sum.splits raft_error.splits)

lemma cache_decision_no_panic: "cache_decision now r = Some (Inl e) \<Longrightarrow> e = NamespaceResolverUnavailable"
  by (auto simp: cache_decision_def Let_def split: if_splits)

lemma calm_asks: "(\<And>r. calm C ro P (k (f r))) \<Longrightarrow> calm C ro P (ebnd (asks f) k)"
  by (fastforce simp: calm_def ekeeps_def ebnd_def asks_def)

lemma calm_refresh [calm_rules]: "calm C ro no_panic (refresh_namespace_cache_if_stale E R D)"
proof -
  have failed: "calm C ro no_panic (refresh_failed now loaded)" for now loaded
    by (auto simp: refresh_failed_def intro!: calm_rules)
  have "calm C ro no_panic (refresh_namespaces E R D now loaded)" for now loaded
    by (auto simp: refresh_namespaces_def load_namespaces_inv intro!: calm_rules failed intro: calm_any[OF calm_reads(3)]
        split: sum.splits read_result.splits)
  then show ?thesis
    by (auto simp: refresh_namespace_cache_if_stale_def dest!: cache_decision_no_panic
        intro!: calm_ebnd[OF calm_clock(2)] calm_asks calm_prims split: option.splits)
qed

lemma calm_any_group [calm_rules]: "(\<And>g. calm C ro no_panic (ask g)) \<Longrightarrow> calm C ro no_panic (any_group E ask gs)"
  by (induction gs) (auto simp: expect_bool_def intro!: calm_rules split: read_result.splits)

lemma calm_drained [calm_rules]:
  "calm C ro no_panic (namespace_has_locks_anywhere E R D n)"
  "calm C ro no_panic (ensure_namespace_drained_before_delete E R D n b)"
  "calm C ro no_panic (ensure_namespace_drained_if_route_changes E R D n b)"
  by (auto simp: namespace_has_locks_anywhere_def ensure_namespace_drained_before_delete_def
      ensure_namespace_drained_if_route_changes_def intro!: calm_rules)

lemma calm_gc_sweep: "calm C ro no_panic (router_gc_sweep E R g batch)"
  by (auto simp: router_gc_sweep_def map_sum_def intro!: calm_rules split: apply_response.splits sum.splits)

lemma calm_fanout [calm_rules]: "calm C ro no_panic (fanout_apply E cmds)"
  by (auto simp: fanout_apply_def intro!: calm_rules split: prod.splits)

lemma calm_resilient [calm_rules]:
  assumes "\<And>g. calm C ro no_panic (build g)"
  shows "calm C ro no_panic (fanout_apply_resilient E groups build)"
proof -
  have round: "calm C ro no_panic (resilient_round E build gs)" for gs
    by (auto simp: resilient_round_def attempt_group_def intro!: calm_rules assms intro: calm_any[OF calm_apply_to])
  have "calm C ro no_panic (resilient_rounds E build again n gs resps)" for again n gs resps
    by (induction n arbitrary: again gs resps) (auto intro!: calm_rules round)
  then show ?thesis unfolding fanout_apply_resilient_def by blast
qed

lemma request_routes_no_panic: "request_routes E r reqs routes = Inl e \<Longrightarrow> no_panic e"
  by (induction E r reqs routes rule: request_routes.induct)
    (auto simp: Let_def ensure_lockable_route_def split: if_splits sum.splits)

lemma calm_acquire_once [calm_rules]: "calm C ro no_panic (acquire_once E R C args k)"
  unfolding acquire_once_def Let_def
  by (intro calm_ebnd[OF calm_refresh] calm_asks)
    (auto simp: acquire_routes_def map_sum_def dest!: request_routes_no_panic
      intro!: calm_rules intro: calm_any[OF calm_apply_to] split: list.splits sum.splits apply_response.splits)

lemma calm_attempt_bnd:
  assumes "calm C ro P m" and "\<And>a. calm C ro P (k (Inr a))" and "\<And>e. P e \<Longrightarrow> calm C ro P (k (Inl e))"
  shows "calm C ro P (ebnd (attempt m) k)"
  unfolding calm_def
proof (rule ekeeps_bnd)
  show "ekeeps (router_inv C ro) (attempt m) P (\<lambda>x. \<forall>e. x = Inl e \<longrightarrow> P e)"
    by (rule ekeeps_attempt[OF assms(1)[unfolded calm_def]]) auto
  show "ekeeps (router_inv C ro) (k x) P (\<lambda>_. True)" if "\<forall>e. x = Inl e \<longrightarrow> P e" for x
    using that assms(2,3) by (cases x) (auto simp: calm_def)
qed

lemma calm_acquire [calm_rules]: "calm C ro no_panic (acquire_with_idempotency E R C args k)"
  unfolding acquire_with_idempotency_def
  by (rule calm_attempt_bnd) (auto simp: invalidate_namespace_cache_inv intro!: calm_rules)

lemma calm_split [calm_rules]: "calm C ro P (split_by_namespace E C path xs acc)"
  by (induction xs arbitrary: acc) (auto intro!: calm_rules)

lemma calm_clear_wait_edge [calm_rules]:
  "calm C ro no_panic (clear_wait_edge_with_idempotency E owner k)"
  "calm C ro no_panic (clear_wait_edge E owner)"
  by (auto simp: clear_wait_edge_with_idempotency_def clear_wait_edge_def intro!: calm_rules)

lemma calm_resolve_domains [calm_rules]: "calm C ro no_panic (resolve_domains_to_groups E R D domains)"
  by (auto simp: resolve_domains_to_groups_def intro!: calm_rules intro: calm_any[OF calm_refresh])

lemma calm_commands_for [calm_rules]: "calm C ro no_panic (commands_for E op k groups)"
  by (auto simp: commands_for_def intro!: calm_rules)

lemma calm_release: "calm C ro no_panic (release_with_idempotency E R C owner reqs del_wait k)"
  by (auto simp: release_with_idempotency_def intro!: calm_rules split: prod.splits)

lemma calm_release_all: "calm C ro no_panic (release_all_with_idempotency E R D owner del_wait domains k)"
  by (auto simp: release_all_with_idempotency_def intro!: calm_rules split: prod.splits)

lemma combine_renewals_no_panic: "combine_renewals d b x y resps = Inl e \<Longrightarrow> no_panic e"
  by (induction d b x y resps rule: combine_renewals.induct) (auto split: apply_response.splits renew_outcome.splits if_splits)

lemma calm_renew: "calm C ro no_panic (renew_with_idempotency E R D owner ttl domains k)"
  by (auto simp: renew_with_idempotency_def dest: combine_renewals_no_panic intro!: calm_rules split: prod.splits)

lemma calm_force_release: "calm C ro no_panic (force_release_with_idempotency E victim k)"
  by (auto simp: force_release_with_idempotency_def intro!: calm_rules)

lemma calm_request_revoke: "calm C ro no_panic (request_revoke E owner)"
  by (auto simp: request_revoke_def intro!: calm_rules)

lemma calm_sys:
  "calm C ro no_panic (propose_sys E op)"
  "calm C ro no_panic (incr_fencing_token_with_idempotency E k)"
  "calm C ro no_panic (set_wait_edge_with_idempotency E owner other ttl meta k)"
  by (auto simp: propose_sys_def incr_fencing_token_with_idempotency_def set_wait_edge_with_idempotency_def
      intro!: calm_rules split: apply_response.splits)

lemma calm_namespace_policy_record [calm_rules]: "calm C ro no_panic (namespace_policy_record E R D n)"
  by (auto simp: namespace_policy_record_def intro!: calm_rules split: read_result.splits)

lemma collect_cleared_no_panic: "collect_cleared resp into = Inl e \<Longrightarrow> no_panic e"
  by (auto simp: collect_cleared_def split: apply_response.splits)

lemma collect_all_cleared_no_panic: "collect_all_cleared resps into = Inl e \<Longrightarrow> no_panic e"
  by (induction resps arbitrary: into) (auto dest: collect_cleared_no_panic split: sum.splits)

lemma calm_apply_policy [calm_rules]: "calm C ro no_panic (apply_policy_everywhere E op k)"
  by (auto simp: apply_policy_everywhere_def dest: collect_cleared_no_panic collect_all_cleared_no_panic
      intro!: calm_rules split: prod.splits)

lemma calm_set_namespace_policy: "calm C ro no_panic (set_namespace_policy E R D n alg k)"
  by (auto simp: set_namespace_policy_def invalidate_namespace_cache_inv cache_namespace_entry_inv
      intro!: calm_rules split: prod.splits)

lemma calm_delete_namespace_policy: "calm C ro no_panic (delete_namespace_policy E R D n k)"
  by (auto simp: delete_namespace_policy_def invalidate_namespace_cache_inv uncache_namespace_root_inv
      intro!: calm_rules split: prod.splits)

lemma calm_assert_each [calm_rules]: "calm C ro no_panic (assert_each E R D owner token xs)"
  by (induction xs) (auto intro!: calm_rules split: read_result.splits assert_outcome.splits)

lemma calm_assert_fencing: "calm C ro no_panic (router_assert_fencing E R C owner token paths)"
  by (auto simp: router_assert_fencing_def intro!: calm_rules)

lemma calm_is_blocking [calm_rules]: "calm C ro no_panic (router_is_blocking E R C path owner reason)"
  by (auto simp: router_is_blocking_def expect_bool_def intro!: calm_rules split: read_result.splits)

lemma calm_is_owner_alive [calm_rules]: "calm C ro no_panic (router_is_owner_alive E R D owner domains)"
  by (auto simp: router_is_owner_alive_def intro!: calm_rules split: prod.splits)

lemma calm_edge_blocks [calm_rules]: "calm C ro no_panic (edge_blocks E R C current edge)"
  by (auto simp: edge_blocks_def Let_def intro!: calm_rules intro: calm_any[OF calm_clear_wait_edge(2)] split: option.splits)

lemma position_Some: "x \<in> set xs \<Longrightarrow> \<exists>n. position x xs = Some n \<and> n < length xs \<and> xs ! n = x"
proof -
  let ?n = "length (takeWhile (\<lambda>y. y \<noteq> x) xs)"
  assume "x \<in> set xs"
  then have "?n < length xs" by (induction xs) auto
  with nth_length_takeWhile[OF this] show ?thesis by (simp add: position_def Let_def)
qed

lemma calm_walk_waits [calm_rules]: "calm C ro no_panic (walk_waits E R C start n chain current)"
proof (induction n arbitrary: chain current)
  case (Suc n)
  show ?case
  proof (cases "current \<in> set chain")
    case True
    with position_Some[OF this] show ?thesis by (auto simp: calm_rules)
  next
    case False
    with Suc show ?thesis by (auto intro!: calm_rules split: read_result.splits option.splits)
  qed
qed (simp add: calm_rules)

lemma calm_detect_cycle: "calm C ro no_panic (router_detect_cycle E R C start n)"
  unfolding router_detect_cycle_def by (rule calm_walk_waits)

lemma calm_inspect_path: "calm C ro no_panic (router_inspect_path E R C path)"
  by (auto simp: router_inspect_path_def intro!: calm_rules split: read_result.splits)

lemma calm_gather [calm_rules]: "calm C ro no_panic (gather_owner_locks E R D owner alive locks gs)"
  by (induction gs arbitrary: alive locks) (auto intro!: calm_rules split: read_result.splits)

lemma calm_list_owner_locks: "calm C ro no_panic (router_list_owner_locks E R D owner domains)"
  by (auto simp: router_list_owner_locks_def intro!: calm_rules split: prod.splits)

lemma calm_dump_groups [calm_rules]: "calm C ro no_panic (dump_groups E R D page entries rel g gs)"
proof (induction gs arbitrary: entries rel g)
  case Nil
  show ?case by (subst dump_groups.simps) (auto simp: Let_def intro!: calm_rules split: read_result.splits option.splits)
next
  case (Cons h gs)
  then show ?case by (subst dump_groups.simps) (auto simp: Let_def intro!: calm_rules split: read_result.splits option.splits)
qed

lemma parse_dump_cursor_no_panic: "parse_dump_cursor n c = Inl e \<Longrightarrow> no_panic e"
  by (auto simp: parse_dump_cursor_def Let_def split: option.splits if_splits)

lemma calm_dump_locks: "calm C ro no_panic (router_dump_locks E R D cursor page)"
  by (auto simp: router_dump_locks_def dest: parse_dump_cursor_no_panic intro!: calm_rules split: prod.splits)

section \<open>Histories\<close>

text \<open>
  The requests a router serves, one constructor per public operation, and the histories of one process:
  it starts with empty caches and serves requests one after the other. Between requests the world may
  change.
\<close>

datatype request =
    ReqAcquire acquire_args "string option"
  | ReqRelease string "rel_req list" bool "string option"
  | ReqReleaseAll string bool "string list" "string option"
  | ReqRenew string u64 "string list" "string option"
  | ReqForceRelease string "string option"
  | ReqRequestRevoke string
  | ReqProposeSys op
  | ReqIncrFencingToken "string option"
  | ReqSetWaitEdge string string u64 "wait_edge_metadata option" "string option"
  | ReqClearWaitEdge string "string option"
  | ReqSetNamespacePolicy string lock_algorithm "string option"
  | ReqDeleteNamespacePolicy string "string option"
  | ReqNamespacePolicy string
  | ReqAssertFencing string i64 "string list"
  | ReqDetectCycle string u32
  | ReqIsBlocking string string reason
  | ReqIsOwnerAlive string "string list"
  | ReqInspectPath string
  | ReqListOwnerLocks string "string list"
  | ReqDumpLocks "bytes option" u32
  | ReqGcSweep group_id u32
  | ReqGroupOf string

definition outcome_of :: "('w router, router_error, 'a) eff \<Rightarrow> 'w router \<Rightarrow> router_error option \<times> 'w router" where
  "outcome_of m r = (case m r of (x, r') \<Rightarrow> (case x of Inl e \<Rightarrow> Some e | Inr _ \<Rightarrow> None, r'))"

fun serve ::
    "('w, 'db) cluster \<Rightarrow> 'db rocksdb \<Rightarrow> 'c sm_codec_scheme \<Rightarrow> request \<Rightarrow> 'w router \<Rightarrow> router_error option \<times> 'w router" where
  "serve E R C (ReqAcquire args k) = outcome_of (acquire_with_idempotency E R C args k)"
| "serve E R C (ReqRelease owner reqs del_wait k) = outcome_of (release_with_idempotency E R C owner reqs del_wait k)"
| "serve E R C (ReqReleaseAll owner del_wait domains k) = outcome_of (release_all_with_idempotency E R C owner del_wait domains k)"
| "serve E R C (ReqRenew owner ttl domains k) = outcome_of (renew_with_idempotency E R C owner ttl domains k)"
| "serve E R C (ReqForceRelease victim k) = outcome_of (force_release_with_idempotency E victim k)"
| "serve E R C (ReqRequestRevoke owner) = outcome_of (request_revoke E owner)"
| "serve E R C (ReqProposeSys op) = outcome_of (propose_sys E op)"
| "serve E R C (ReqIncrFencingToken k) = outcome_of (incr_fencing_token_with_idempotency E k)"
| "serve E R C (ReqSetWaitEdge owner other ttl meta k) = outcome_of (set_wait_edge_with_idempotency E owner other ttl meta k)"
| "serve E R C (ReqClearWaitEdge owner k) = outcome_of (clear_wait_edge_with_idempotency E owner k)"
| "serve E R C (ReqSetNamespacePolicy n alg k) = outcome_of (set_namespace_policy E R C n alg k)"
| "serve E R C (ReqDeleteNamespacePolicy n k) = outcome_of (delete_namespace_policy E R C n k)"
| "serve E R C (ReqNamespacePolicy n) = outcome_of (namespace_policy_record E R C n)"
| "serve E R C (ReqAssertFencing owner token paths) = outcome_of (router_assert_fencing E R C owner token paths)"
| "serve E R C (ReqDetectCycle start depth) = outcome_of (router_detect_cycle E R C start depth)"
| "serve E R C (ReqIsBlocking path owner reason) = outcome_of (router_is_blocking E R C path owner reason)"
| "serve E R C (ReqIsOwnerAlive owner domains) = outcome_of (router_is_owner_alive E R C owner domains)"
| "serve E R C (ReqInspectPath path) = outcome_of (router_inspect_path E R C path)"
| "serve E R C (ReqListOwnerLocks owner domains) = outcome_of (router_list_owner_locks E R C owner domains)"
| "serve E R C (ReqDumpLocks cursor page) = outcome_of (router_dump_locks E R C cursor page)"
| "serve E R C (ReqGcSweep g batch) = outcome_of (router_gc_sweep E R g batch)"
| "serve E R C (ReqGroupOf path) = outcome_of (group_of E C path)"

lemma outcome_of_inv:
  assumes "calm C ro no_panic m" and "router_inv C ro r"
  shows "router_inv C ro (snd (outcome_of m r)) \<and> (\<forall>e. fst (outcome_of m r) = Some e \<longrightarrow> no_panic e)"
proof -
  obtain x r' where run: "m r = (x, r')" by (cases "m r")
  from ekeeps_result[OF assms(1)[unfolded calm_def] run assms(2)] run show ?thesis
    by (cases x) (auto simp: outcome_of_def)
qed

lemmas calm_operations =
  calm_acquire calm_release calm_release_all calm_renew calm_force_release calm_request_revoke calm_sys calm_clear_wait_edge
  calm_set_namespace_policy calm_delete_namespace_policy calm_namespace_policy_record calm_assert_fencing calm_detect_cycle
  calm_is_blocking calm_is_owner_alive calm_inspect_path calm_list_owner_locks calm_dump_locks calm_gc_sweep

lemma serve_inv:
  assumes "router_inv C ro r"
  shows "router_inv C ro (snd (serve E R C q r)) \<and> (\<forall>e. fst (serve E R C q r) = Some e \<longrightarrow> no_panic e)"
proof -
  have "calm C ro no_panic (group_of E C path)" for path
    by (auto simp: group_of_def intro!: calm_rules)
  then show ?thesis
    by (cases q; simp only: serve.simps; intro outcome_of_inv[OF _ assms] calm_operations)
qed

inductive serving ::
    "('w, 'db) cluster \<Rightarrow> 'db rocksdb \<Rightarrow> 'c sm_codec_scheme \<Rightarrow> routing_options \<Rightarrow> 'w router \<Rightarrow> bool"
  for E R C routing where
  start: "serving E R C routing (router_new routing node pid now w)"
| serve: "serving E R C routing r \<Longrightarrow> serving E R C routing (snd (serve E R C q r))"
| world: "serving E R C routing r \<Longrightarrow> serving E R C routing (r\<lparr> r_world := w \<rparr>)"

lemma serving_inv: "serving E R C routing r \<Longrightarrow> router_inv C routing r"
  by (induction rule: serving.induct) (simp_all add: router_inv_new serve_inv)

end
