(* ===== verification/Solo.thy ===== *)
theory Solo
  imports Router Mem_Codec
begin

text \<open>
  The smallest cluster: one node, with no peers, whose groups apply a proposed command at once to a
  database in memory. Examples run the router on it.
\<close>

text \<open>
  Programs are evaluated only once they are applied to a state, so that the branches not taken stay
  as they are.
\<close>

lemmas router_code [code] =
  each_map.simps[THEN fun_cong] sleep_ms_def[THEN fun_cong] completion_order_def[THEN fun_cong]
  unexpected_response_def[THEN fun_cong] unexpected_read_def[THEN fun_cong] namespace_cache_now_ms_def[THEN fun_cong]
  refresh_failed_def[THEN fun_cong] group_of_domain_def[THEN fun_cong] group_of_def[THEN fun_cong]
  request_id_of_def[THEN fun_cong] command_with_idempotency_def[THEN fun_cong] router_command_def[THEN fun_cong]
  command_with_scoped_idempotency_def[THEN fun_cong] note_leader_def[THEN fun_cong]
  forward_command_def[THEN fun_cong] try_targets.simps[THEN fun_cong] write_locally_def[THEN fun_cong]
  apply_hops.simps[THEN fun_cong] apply_inner_def[THEN fun_cong] apply_to_def[THEN fun_cong]
  fanout_apply_def[THEN fun_cong] attempt_group_def[THEN fun_cong] resilient_round_def[THEN fun_cong]
  resilient_rounds.simps[THEN fun_cong] fanout_apply_resilient_def[THEN fun_cong] read_here_def[THEN fun_cong]
  forward_read_to_def[THEN fun_cong] read_hops.simps[THEN fun_cong] read_forwarded_def[THEN fun_cong]
  read_on_def[THEN fun_cong] read_linearizable_def[THEN fun_cong] expect_bool_def[THEN fun_cong]
  refresh_namespaces_def[THEN fun_cong] refresh_namespace_cache_if_stale_def[THEN fun_cong]
  any_group.simps[THEN fun_cong] namespace_has_locks_anywhere_def[THEN fun_cong]
  ensure_namespace_drained_before_delete_def[THEN fun_cong]
  ensure_namespace_drained_if_route_changes_def[THEN fun_cong] router_gc_sweep_def[THEN fun_cong]
  acquire_once_def[THEN fun_cong] acquire_with_idempotency_def[THEN fun_cong] router_acquire_def[THEN fun_cong]
  split_by_namespace.simps[THEN fun_cong] clear_wait_edge_with_idempotency_def[THEN fun_cong]
  clear_wait_edge_def[THEN fun_cong] release_with_idempotency_def[THEN fun_cong]
  resolve_domains_to_groups_def[THEN fun_cong] commands_for_def[THEN fun_cong]
  release_all_with_idempotency_def[THEN fun_cong] renew_with_idempotency_def[THEN fun_cong]
  force_release_with_idempotency_def[THEN fun_cong] request_revoke_def[THEN fun_cong] propose_sys_def[THEN fun_cong]
  incr_fencing_token_with_idempotency_def[THEN fun_cong] set_wait_edge_with_idempotency_def[THEN fun_cong]
  namespace_policy_record_def[THEN fun_cong] namespace_policy_def[THEN fun_cong]
  apply_policy_everywhere_def[THEN fun_cong] set_namespace_policy_def[THEN fun_cong]
  delete_namespace_policy_def[THEN fun_cong] assert_each.simps[THEN fun_cong]
  router_assert_fencing_def[THEN fun_cong] router_is_blocking_def[THEN fun_cong]
  router_is_owner_alive_def[THEN fun_cong] edge_blocks_def[THEN fun_cong] walk_waits.simps[THEN fun_cong]
  router_detect_cycle_def[THEN fun_cong] router_inspect_path_def[THEN fun_cong]
  gather_owner_locks.simps[THEN fun_cong] router_list_owner_locks_def[THEN fun_cong] dump_groups.simps[THEN fun_cong]
  router_dump_locks_def[THEN fun_cong]

definition solo_write :: "group_id \<Rightarrow> command \<Rightarrow> (mem_db, raft_error, apply_response) eff" where
  "solo_write g cmd d =
     (case apply_entry mem_rocks mem_raft d g cmd (Inr []) RecursiveRw of
        Inl _ \<Rightarrow> (Inl (RaftFailed ''apply''), d)
      | Inr (resp, d') \<Rightarrow> (Inr resp, d'))"

definition solo_wire :: "'w wire" where
  "solo_wire =
     \<lparr> open_channel = (\<lambda>_ _ _. Inl ''no peers''), auth_header = (\<lambda>_. Inr ()),
       rpc_forward = (\<lambda>_ _ _. throw ''no peers''), rpc_forward_read = (\<lambda>_ _ _. throw ''no peers''),
       command_encode = (\<lambda>_. Inr []), command_decode = (\<lambda>_. Inl ''''), read_op_encode = (\<lambda>_. Inr []),
       read_op_decode = (\<lambda>_. Inl ''''), write_answer_encode = (\<lambda>_. Inr []), write_answer_decode = (\<lambda>_. Inl ''''),
       read_answer_encode = (\<lambda>_. Inr []), read_answer_decode = (\<lambda>_. Inl '''') \<rparr>"

definition solo_runtime :: "'w runtime" where
  "solo_runtime =
     \<lparr> wall_clock = Pair 1000, cache_clock = Pair 0, pause = (\<lambda>_ w. w), completion = (\<lambda>n w. ([0..<n], w)),
       permit_free = (\<lambda>_ _. True), refresh_busy = (\<lambda>_. False), refresh_in_time = (\<lambda>_. True) \<rparr>"

definition solo :: "(mem_db, mem_db) cluster" where
  "solo =
     \<lparr> core_of = (\<lambda>_ _. True), start_core = (\<lambda>_. eret ()), client_write = solo_write,
       ensure_linearizable = (\<lambda>_. eret ()), metrics_leader = (\<lambda>_ _. None), local_db = (\<lambda>d. d),
       fsync_healthy = (\<lambda>_. True), known_members = (\<lambda>_. None), this_node = 1,
       node_default_algorithm = RecursiveRw, error_text = (\<lambda>_. ''error''), wire = solo_wire, rt = solo_runtime \<rparr>"

definition solo_router :: "mem_db router" where
  "solo_router =
     router_new \<lparr> ro_group_count = 2, ro_routing_prefix_segments = 1, ro_max_inflight_per_group = 8 \<rparr> 1 7 1000 mem_empty"

text \<open>The answer of a request served on the fresh node.\<close>

definition solo_run :: "(mem_db, 'a) rm \<Rightarrow> router_error + 'a" where
  "solo_run m = fst (m solo_router)"

text \<open>The same node with one configured namespace, before it has read the table.\<close>

definition solo_named :: "mem_db router" where
  "solo_named = solo_router\<lparr> r_world :=
     [((CF_NAMESPACE_SETTINGS, group_key SYS_GROUP (namespace_policy_key ''h:/a'')), mem_encode (Str ''1:point_rw'' 0))] \<rparr>"

end
