(* ===== verification/Requests.thy ===== *)
theory Requests
  imports Routing Solo
begin

text \<open>
  What the router answers: where a path goes, which requests one acquire may join, how a release is
  divided, how the answers of many groups become one, and what a walk of the wait graph reports.
\<close>

section \<open>Resolution and placement\<close>

lemma resolve_frame [simp]:
  "resolve_namespace_cached E (r\<lparr> r_world := w \<rparr>) path = resolve_namespace_cached E r path"
  "resolve_namespace_cached E (r\<lparr> r_domain_groups := m \<rparr>) path = resolve_namespace_cached E r path"
  by (auto simp: resolve_namespace_cached_def Let_def fallback_namespace_def split: option.splits)

lemma group_of_domain_result:
  assumes "router_inv C routing r"
  obtains m where "group_of_domain C d r =
    (Inr (place_domain (xxh3_64 C) d (ro_group_count routing)), r\<lparr> r_domain_groups := m \<rparr>)"
proof (cases "map_of (r_domain_groups r) d")
  case None
  define m where "m = (if length (r_domain_groups r) < DOMAIN_CACHE_MAX
    then (d, place_domain (xxh3_64 C) d (ro_group_count routing)) # r_domain_groups r else r_domain_groups r)"
  have "r_routing r = routing" using assms by (simp add: router_inv_def)
  with None have "group_of_domain C d r =
      (Inr (place_domain (xxh3_64 C) d (ro_group_count routing)), r\<lparr> r_domain_groups := m \<rparr>)"
    by (simp add: group_of_domain_def ebnd_def asks_def modify_def eret_def m_def)
  then show thesis by (rule that)
next
  case (Some g)
  then have "g = place_domain (xxh3_64 C) d (ro_group_count routing)"
    using assms map_of_SomeD[OF Some] by (auto simp: router_inv_def placements_ok_def)
  with Some have "group_of_domain C d r =
      (Inr (place_domain (xxh3_64 C) d (ro_group_count routing)), r\<lparr> r_domain_groups := r_domain_groups r \<rparr>)"
    by (simp add: group_of_domain_def ebnd_def asks_def eret_def)
  then show thesis by (rule that)
qed

lemma resolve_explicit:
  assumes "roots_ok r"
  shows "nr_explicit (resolve_namespace_cached E r path) \<longleftrightarrow> (\<exists>n \<in> set (r_namespace_roots r). namespace_contains_path n path)"
    and "nr_explicit (resolve_namespace_cached E r path) \<Longrightarrow> n \<in> set (r_namespace_roots r) \<Longrightarrow> namespace_contains_path n path \<Longrightarrow>
      length n \<le> length (nr_namespace (resolve_namespace_cached E r path))"
    and "nr_explicit (resolve_namespace_cached E r path) \<Longrightarrow>
      \<exists>e. r_namespace_policies r (nr_namespace (resolve_namespace_cached E r path)) = Some e \<and>
        nr_policy (resolve_namespace_cached E r path) = namespace_policy_entry_policy e \<and>
        namespace_contains_path (nr_namespace (resolve_namespace_cached E r path)) path"
proof -
  let ?f = "find (\<lambda>n. namespace_contains_path n path) (r_namespace_roots r)"
  note sorted = assms[unfolded roots_ok_def, THEN conjunct1]
  have dom: "dom (r_namespace_policies r) = set (r_namespace_roots r)" using assms by (simp add: roots_ok_def)
  show "nr_explicit (resolve_namespace_cached E r path) \<longleftrightarrow> (\<exists>n \<in> set (r_namespace_roots r). namespace_contains_path n path)"
  proof -
    have "nr_explicit (resolve_namespace_cached E r path) \<longleftrightarrow> ?f \<noteq> None"
      by (cases ?f) (auto simp: resolve_namespace_cached_def Let_def)
    then show ?thesis by (auto simp: find_None_iff)
  qed
  show "length n \<le> length (nr_namespace (resolve_namespace_cached E r path))"
    if "nr_explicit (resolve_namespace_cached E r path)" "n \<in> set (r_namespace_roots r)" "namespace_contains_path n path"
    using that find_first_longest(3)[where P = "\<lambda>n. namespace_contains_path n path", OF sorted _ that(2,3)] by (cases ?f) (auto simp: resolve_namespace_cached_def Let_def)
  assume "nr_explicit (resolve_namespace_cached E r path)"
  then obtain x where x: "?f = Some x" by (cases ?f) (auto simp: resolve_namespace_cached_def Let_def)
  with find_first_longest(1,2)[OF sorted x] dom obtain e where "r_namespace_policies r x = Some e" "namespace_contains_path x path"
    by auto
  with x show "\<exists>e. r_namespace_policies r (nr_namespace (resolve_namespace_cached E r path)) = Some e \<and>
        nr_policy (resolve_namespace_cached E r path) = namespace_policy_entry_policy e \<and>
        namespace_contains_path (nr_namespace (resolve_namespace_cached E r path)) path"
    by (auto simp: resolve_namespace_cached_def Let_def)
qed

text \<open>C12: routing. Whatever requests a node has served, a path is routed by the longest configured namespace
  that contains it, with that namespace's own policy, and by its prefix with the default policy if no
  namespace contains it; the group is the rendezvous placement of that namespace, whether it was
  remembered or computed.\<close>

theorem paths_are_routed_by_longest_namespace:
  assumes "serving E R C routing r"
  shows "let route = resolve_namespace_cached E r path; roots = {n \<in> set (r_namespace_roots r). namespace_contains_path n path} in
    (if roots = {} then
       nr_namespace route = routing_prefix path (ro_routing_prefix_segments routing) \<and>
       nr_policy route = lock_policy_from_algorithm (node_default_algorithm E)
     else
       nr_namespace route \<in> roots \<and> (\<forall>n \<in> roots. length n \<le> length (nr_namespace route)) \<and>
       (\<exists>e. r_namespace_policies r (nr_namespace route) = Some e \<and> np_namespace e = nr_namespace route \<and>
            nr_policy route = namespace_policy_entry_policy e)) \<and>
    fst (group_of E C path r) = Inr (place_domain (xxh3_64 C) (nr_namespace route) (ro_group_count routing))"
proof -
  let ?route = "resolve_namespace_cached E r path"
  let ?roots = "{n \<in> set (r_namespace_roots r). namespace_contains_path n path}"
  have inv: "router_inv C routing r" by (rule serving_inv[OF assms])
  then have ok: "roots_ok r" and ro: "r_routing r = routing" by (simp_all add: router_inv_def)
  obtain m where "group_of_domain C (nr_namespace ?route) r =
      (Inr (place_domain (xxh3_64 C) (nr_namespace ?route) (ro_group_count routing)), r\<lparr> r_domain_groups := m \<rparr>)"
    by (rule group_of_domain_result[OF inv])
  then have group: "fst (group_of E C path r) = Inr (place_domain (xxh3_64 C) (nr_namespace ?route) (ro_group_count routing))"
    by (simp add: group_of_def ebnd_def asks_def)
  show ?thesis
  proof (cases "?roots = {}")
    case True
    then have "find (\<lambda>n. namespace_contains_path n path) (r_namespace_roots r) = None" by (auto simp: find_None_iff)
    with True group ro show ?thesis by (simp add: resolve_namespace_cached_def Let_def fallback_namespace_def)
  next
    case False
    then have ex: "nr_explicit ?route" by (auto simp: resolve_explicit(1)[OF ok])
    from resolve_explicit(3)[OF ok ex] obtain e where e: "r_namespace_policies r (nr_namespace ?route) = Some e"
      "nr_policy ?route = namespace_policy_entry_policy e" "namespace_contains_path (nr_namespace ?route) path" by blast
    then have "nr_namespace ?route \<in> set (r_namespace_roots r)" "np_namespace e = nr_namespace ?route"
      using ok by (auto simp: roots_ok_def)
    with e False group resolve_explicit(2)[OF ok ex] show ?thesis by (auto simp: Let_def)
  qed
qed

definition solo_routing :: routing_options where
  "solo_routing = \<lparr> ro_group_count = 2, ro_routing_prefix_segments = 1, ro_max_inflight_per_group = 8 \<rparr>"

lemma solo_simps: "xxh3_64 mem_raft = mem_hash" "ro_group_count solo_routing = 2"
  by (simp_all add: mem_raft_def solo_routing_def)

lemma solo_serving:
  "serving solo mem_rocks mem_raft solo_routing solo_router"
  "serving solo mem_rocks mem_raft solo_routing solo_named"
proof -
  show start: "serving solo mem_rocks mem_raft solo_routing solo_router"
    unfolding solo_router_def solo_routing_def by (rule serving.start)
  show "serving solo mem_rocks mem_raft solo_routing solo_named"
    unfolding solo_named_def by (rule serving.world[OF start])
qed

theorem paths_are_routed_by_longest_namespace_witness:
  "let r = snd (serve solo mem_rocks mem_raft (ReqInspectPath ''h:/a/x'') solo_named) in
   serving solo mem_rocks mem_raft solo_routing r \<and> nr_namespace (resolve_namespace_cached solo r ''h:/a/x'') = ''h:/a'' \<and>
   fst (group_of solo mem_raft ''h:/a/x'' r) = Inr (place_domain mem_hash ''h:/a'' 2)"
proof -
  define r where "r = snd (serve solo mem_rocks mem_raft (ReqInspectPath ''h:/a/x'') solo_named)"
  have r: "serving solo mem_rocks mem_raft solo_routing r"
    unfolding r_def by (rule serving.serve[OF solo_serving(2)])
  have "r_namespace_roots r = [''h:/a'']" unfolding r_def by code_simp
  moreover have "namespace_contains_path ''h:/a'' ''h:/a/x''" by code_simp
  ultimately have "{n \<in> set (r_namespace_roots r). namespace_contains_path n ''h:/a/x''} = {''h:/a''}" by auto
  with paths_are_routed_by_longest_namespace[OF r, of "''h:/a/x''"] r show ?thesis
    unfolding r_def[symmetric] Let_def by (simp add: solo_simps)
qed

section \<open>One acquire, one namespace\<close>

definition acquire_paths :: "acquire_args \<Rightarrow> string set" where
  "acquire_paths args = lr_path ` set (aa_requests args) \<union> rr_path ` set (aa_release_requests args)"

lemma set_add_route: "nr_namespace ` set (add_route x routes) = insert (nr_namespace x) (nr_namespace ` set routes)"
  by (auto simp: add_route_def)

lemma request_routes_namespaces:
  "request_routes E r reqs routes = Inr routes' \<Longrightarrow>
   nr_namespace ` set routes' =
     nr_namespace ` set routes \<union> (\<lambda>req. nr_namespace (resolve_namespace_cached E r (lr_path req))) ` set reqs"
  by (induction E r reqs routes rule: request_routes.induct) (auto simp: Let_def set_add_route split: sum.splits if_splits)

lemma release_routes_namespaces:
  "nr_namespace ` set (fold (\<lambda>req. add_route (resolve_namespace_cached E r (rr_path req))) rels routes) =
     nr_namespace ` set routes \<union> (\<lambda>req. nr_namespace (resolve_namespace_cached E r (rr_path req))) ` set rels"
  by (induction rels arbitrary: routes) (auto simp: set_add_route)

lemma acquire_routes_namespaces:
  assumes "acquire_routes E r args = Inr routes"
  shows "nr_namespace ` set routes = (\<lambda>p. nr_namespace (resolve_namespace_cached E r p)) ` acquire_paths args"
proof -
  from assms obtain routes' where "request_routes E r (aa_requests args) [] = Inr routes'"
    "routes = fold (\<lambda>req. add_route (resolve_namespace_cached E r (rr_path req))) (aa_release_requests args) routes'"
    by (cases "request_routes E r (aa_requests args) []") (auto simp: acquire_routes_def)
  with request_routes_namespaces[OF this(1)] show ?thesis
    by (auto simp: release_routes_namespaces acquire_paths_def image_Un image_image)
qed

lemma request_routes_error:
  "request_routes E r reqs routes = Inl e \<Longrightarrow> \<exists>p \<in> lr_path ` set reqs. e = NamespaceDepthUnsupported p"
  by (induction E r reqs routes rule: request_routes.induct)
    (auto simp: Let_def ensure_lockable_route_def split: sum.splits if_splits)

text \<open>The namespace table counts as fresh when the first test of a refresh accepts it.\<close>

definition cache_is_fresh :: "('w, 'db) cluster \<Rightarrow> 'w router \<Rightarrow> bool" where
  "cache_is_fresh E r \<longleftrightarrow> cache_decision (cache_ms (fst (cache_clock (rt E) (r_world r)))) r = Some (Inr ())"

definition clock_read :: "('w, 'db) cluster \<Rightarrow> 'w router \<Rightarrow> 'w router" where
  "clock_read E r = r\<lparr> r_world := snd (cache_clock (rt E) (r_world r)) \<rparr>"

lemma cache_decision_frame [simp]: "cache_decision now (r\<lparr> r_world := w \<rparr>) = cache_decision now r"
  by (simp add: cache_decision_def)

lemma refresh_fresh:
  "cache_is_fresh E r \<Longrightarrow> refresh_namespace_cache_if_stale E R D r = (Inr (), clock_read E r)"
  by (cases "cache_clock (rt E) (r_world r)")
    (simp add: refresh_namespace_cache_if_stale_def namespace_cache_now_ms_def in_world_def ebnd_def asks_def elift_def
      cache_is_fresh_def clock_read_def)

lemma acquire_routes_frame [simp]: "acquire_routes E (r\<lparr> r_world := w \<rparr>) args = acquire_routes E r args"
proof -
  have "request_routes E (r\<lparr> r_world := w \<rparr>) reqs routes = request_routes E r reqs routes" for reqs routes
    by (induction reqs arbitrary: routes) (auto simp: Let_def ensure_lockable_route_def split: sum.splits)
  then show ?thesis by (simp add: acquire_routes_def)
qed

text \<open>C13: one acquire never spans two namespaces. A request whose paths, acquired or released, resolve to
  different namespaces is refused before anything is sent: no command is built, no request id is used, the
  world is as it was but for reading the clock.\<close>

theorem acquire_never_spans_namespaces:
  assumes "cache_is_fresh E r" and "p \<in> acquire_paths args" and "q \<in> acquire_paths args"
    and "nr_namespace (resolve_namespace_cached E r p) \<noteq> nr_namespace (resolve_namespace_cached E r q)"
  shows "acquire_with_idempotency E R C args k r = (Inl MultiDomainUnsupported, clock_read E r) \<or>
    (\<exists>path \<in> acquire_paths args. acquire_with_idempotency E R C args k r = (Inl (NamespaceDepthUnsupported path), clock_read E r))"
proof -
  have once: "acquire_once E R C args k r =
      (case acquire_routes E r args of Inl e \<Rightarrow> (Inl e, clock_read E r) | Inr _ \<Rightarrow> (Inl MultiDomainUnsupported, clock_read E r))"
  proof (cases "acquire_routes E r args")
    case (Inr routes)
    let ?ns = "\<lambda>p. nr_namespace (resolve_namespace_cached E r p)"
    have "{?ns p, ?ns q} \<subseteq> nr_namespace ` set routes"
      using acquire_routes_namespaces[OF Inr] assms(2,3) by auto
    then have "1 < length routes"
      using assms(4) by (cases routes; cases "tl routes") auto
    with Inr show ?thesis by (simp add: acquire_once_def ebnd_def refresh_fresh[OF assms(1)] asks_def elift_def throw_def clock_read_def)
  qed (simp add: acquire_once_def ebnd_def refresh_fresh[OF assms(1)] asks_def elift_def clock_read_def)
  show ?thesis
  proof (cases "acquire_routes E r args")
    case (Inl e)
    then obtain path where "e = NamespaceDepthUnsupported path" "path \<in> acquire_paths args"
      using request_routes_error[of E r "aa_requests args" "[]"]
      by (cases "request_routes E r (aa_requests args) []") (auto simp: acquire_routes_def acquire_paths_def)
    with once Inl show ?thesis
      by (auto simp: acquire_with_idempotency_def ebnd_def attempt_def stale_route_def throw_def)
  next
    case (Inr routes)
    with once show ?thesis
      by (auto simp: acquire_with_idempotency_def ebnd_def attempt_def stale_route_def throw_def)
  qed
qed

definition solo_warm :: "mem_db router" where
  "solo_warm = load_namespaces 1 [\<lparr> np_namespace = ''h:/a'', np_algorithm = PointRw, np_epoch = 1 \<rparr>] solo_router"

definition two_paths :: acquire_args where
  "two_paths = (write_args ''alice'' ''h:/a/x'' 0)\<lparr> aa_release_requests := [\<lparr> rr_path = ''h:/b'', rr_mode = Write \<rparr>] \<rparr>"

theorem acquire_never_spans_namespaces_witness:
  "acquire_with_idempotency solo mem_rocks mem_raft two_paths None solo_warm = (Inl MultiDomainUnsupported, clock_read solo solo_warm)"
proof -
  have "cache_is_fresh solo solo_warm" by code_simp
  moreover have "''h:/a/x'' \<in> acquire_paths two_paths" "''h:/b'' \<in> acquire_paths two_paths"
    by (simp_all add: acquire_paths_def two_paths_def write_args_def)
  moreover have "nr_namespace (resolve_namespace_cached solo solo_warm ''h:/a/x'') \<noteq>
      nr_namespace (resolve_namespace_cached solo solo_warm ''h:/b'')" by code_simp
  ultimately have spans: "acquire_with_idempotency solo mem_rocks mem_raft two_paths None solo_warm =
        (Inl MultiDomainUnsupported, clock_read solo solo_warm) \<or>
      (\<exists>path \<in> acquire_paths two_paths. acquire_with_idempotency solo mem_rocks mem_raft two_paths None solo_warm =
        (Inl (NamespaceDepthUnsupported path), clock_read solo solo_warm))"
    by (rule acquire_never_spans_namespaces)
  have "fst (acquire_with_idempotency solo mem_rocks mem_raft two_paths None solo_warm) = Inl MultiDomainUnsupported"
    by code_simp
  with spans show ?thesis by auto
qed

section \<open>Requests by namespace\<close>

definition bucketed :: "('a \<Rightarrow> string) \<Rightarrow> (string \<Rightarrow> group_id) \<Rightarrow> 'a list \<Rightarrow> 'a by_namespace \<Rightarrow> bool" where
  "bucketed ns place xs B \<longleftrightarrow>
     distinct (map fst B) \<and> fst ` set B = ns ` set xs \<and>
     (\<forall>(n, g, ys) \<in> set B. g = place n \<and> ys = filter (\<lambda>x. ns x = n) xs)"

lemma bucketedI:
  assumes "distinct (map fst B)" and "fst ` set B = ns ` set xs"
    and "\<And>n g ys. (n, g, ys) \<in> set B \<Longrightarrow> g = place n \<and> ys = filter (\<lambda>x. ns x = n) xs"
  shows "bucketed ns place xs B"
  using assms unfolding bucketed_def by blast

lemma add_to_namespace_alt:
  "distinct (map fst B) \<Longrightarrow> add_to_namespace n g x B =
    (if n \<in> fst ` set B then map (\<lambda>(m, h, ys). (m, h, if m = n then ys @ [x] else ys)) B else B @ [(n, g, [x])])"
proof (induction B)
  case (Cons b B)
  obtain m h ys where b: "b = (m, h, ys)" by (cases b)
  show ?case
  proof (cases "m = n")
    case True
    with Cons.prems b have "n \<notin> fst ` set B" by simp
    then have "map (\<lambda>(m, h, ys). (m, h, if m = n then ys @ [x] else ys)) B = B" by (intro map_idI) force
    with True b show ?thesis by simp
  next
    case False
    with Cons b show ?thesis by auto
  qed
qed simp

lemma bucketed_add:
  assumes "bucketed ns place xs B"
  shows "bucketed ns place (xs @ [x]) (add_to_namespace (ns x) (place (ns x)) x B)"
proof -
  have d: "distinct (map fst B)" and names: "fst ` set B = ns ` set xs"
    and parts: "\<And>n g ys. (n, g, ys) \<in> set B \<Longrightarrow> g = place n \<and> ys = filter (\<lambda>x. ns x = n) xs"
    using assms by (auto simp: bucketed_def)
  show ?thesis
  proof (cases "ns x \<in> fst ` set B")
    case True
    let ?f = "\<lambda>(m, h, ys). (m, h, if m = ns x then ys @ [x] else ys)"
    have fst: "map fst (map ?f B) = map fst B" by auto
    then have "fst ` set (map ?f B) = fst ` set B" by (metis list.set_map)
    also have "\<dots> = ns ` set (xs @ [x])" using True names by auto
    finally have "fst ` set (map ?f B) = ns ` set (xs @ [x])" .
    moreover have "g = place n \<and> ys = filter (\<lambda>y. ns y = n) (xs @ [x])" if "(n, g, ys) \<in> set (map ?f B)" for n g ys
      using that parts by (auto split: if_splits)
    moreover have "distinct (map fst (map ?f B))" unfolding fst by (rule d)
    ultimately have "bucketed ns place (xs @ [x]) (map ?f B)" by (intro bucketedI)
    then show ?thesis by (simp only: add_to_namespace_alt[OF d] if_P[OF True])
  next
    case False
    then have new: "filter (\<lambda>y. ns y = ns x) xs = []" unfolding names filter_empty_conv by (metis imageI)
    have other: "n \<noteq> ns x" if "(n, g, ys) \<in> set B" for n g ys using False that by (metis fst_conv image_eqI)
    have "fst ` set (B @ [(ns x, place (ns x), [x])]) = ns ` set (xs @ [x])" using names by simp
    moreover have "g = place n \<and> ys = filter (\<lambda>y. ns y = n) (xs @ [x])"
      if "(n, g, ys) \<in> set (B @ [(ns x, place (ns x), [x])])" for n g ys
    proof (cases "(n, g, ys) \<in> set B")
      case True
      with parts other show ?thesis by fastforce
    qed (use that new in simp)
    moreover have "distinct (map fst (B @ [(ns x, place (ns x), [x])]))" using d False by simp
    ultimately have "bucketed ns place (xs @ [x]) (B @ [(ns x, place (ns x), [x])])" by (intro bucketedI)
    then show ?thesis by (simp only: add_to_namespace_alt[OF d] if_not_P[OF False])
  qed
qed

lemma split_by_namespace_result:
  assumes "router_inv C routing r"
    and "bucketed (\<lambda>x. nr_namespace (resolve_namespace_cached E r (path x)))
      (\<lambda>n. place_domain (xxh3_64 C) n (ro_group_count routing)) ys acc"
  shows "\<exists>B m. split_by_namespace E C path xs acc r = (Inr B, r\<lparr> r_domain_groups := m \<rparr>) \<and>
    bucketed (\<lambda>x. nr_namespace (resolve_namespace_cached E r (path x)))
      (\<lambda>n. place_domain (xxh3_64 C) n (ro_group_count routing)) (ys @ xs) B"
  using assms
proof (induction xs arbitrary: r ys acc)
  case Nil
  have "split_by_namespace E C path [] acc r = (Inr acc, r\<lparr> r_domain_groups := r_domain_groups r \<rparr>)" by simp
  with Nil show ?case by (metis append_Nil2)
next
  case (Cons x xs)
  let ?ns = "\<lambda>x. nr_namespace (resolve_namespace_cached E r (path x))"
  let ?place = "\<lambda>n. place_domain (xxh3_64 C) n (ro_group_count routing)"
  obtain m where m: "group_of_domain C (?ns x) r = (Inr (?place (?ns x)), r\<lparr> r_domain_groups := m \<rparr>)"
    by (rule group_of_domain_result[OF Cons.prems(1)])
  have "router_inv C routing (r\<lparr> r_domain_groups := m \<rparr>)"
    using ekeeps_result[OF calm_group_of_domain[unfolded calm_def] m Cons.prems(1)] by simp
  moreover have "bucketed ?ns ?place (ys @ [x]) (add_to_namespace (?ns x) (?place (?ns x)) x acc)"
    by (rule bucketed_add[OF Cons.prems(2)])
  ultimately obtain B m' where "split_by_namespace E C path xs (add_to_namespace (?ns x) (?place (?ns x)) x acc) (r\<lparr> r_domain_groups := m \<rparr>) =
      (Inr B, r\<lparr> r_domain_groups := m' \<rparr>)" "bucketed ?ns ?place (ys @ x # xs) B"
    using Cons.IH[of "r\<lparr> r_domain_groups := m \<rparr>" "ys @ [x]" "add_to_namespace (?ns x) (?place (?ns x)) x acc"] by auto
  with m show ?case by (auto simp: ebnd_def asks_def)
qed

text \<open>C16: a release is divided by namespace. The requests of a release (or the paths of a fencing assertion) are
  split into one part per namespace, sent to the group the namespace is placed on; a part holds exactly the
  requests of its namespace, in their order, so each request is sent once.\<close>

theorem requests_are_divided_by_namespace:
  assumes "serving E R C routing r"
  shows "\<exists>B r'. split_by_namespace E C path xs [] r = (Inr B, r') \<and> distinct (map fst B) \<and>
    fst ` set B = (\<lambda>x. nr_namespace (resolve_namespace_cached E r (path x))) ` set xs \<and>
    (\<forall>(n, g, ys) \<in> set B. g = place_domain (xxh3_64 C) n (ro_group_count routing) \<and>
       ys = filter (\<lambda>x. nr_namespace (resolve_namespace_cached E r (path x)) = n) xs)"
proof -
  have "bucketed (\<lambda>x. nr_namespace (resolve_namespace_cached E r (path x)))
      (\<lambda>n. place_domain (xxh3_64 C) n (ro_group_count routing)) [] []"
    by (simp add: bucketed_def)
  from split_by_namespace_result[OF serving_inv[OF assms] this, of xs] show ?thesis by (auto simp: bucketed_def)
qed


theorem requests_are_divided_by_namespace_witness:
  "\<exists>B r'. split_by_namespace solo mem_raft rr_path [\<lparr> rr_path = ''h:/a/x'', rr_mode = Write \<rparr>, \<lparr> rr_path = ''h:/b'', rr_mode = Read \<rparr>] []
       solo_router = (Inr B, r') \<and> distinct (map fst B) \<and> fst ` set B = {''h:/a'', ''h:/b''}"
proof -
  have ns: "nr_namespace (resolve_namespace_cached solo solo_router ''h:/a/x'') = ''h:/a''"
    "nr_namespace (resolve_namespace_cached solo solo_router ''h:/b'') = ''h:/b''"
    by code_simp+
  from requests_are_divided_by_namespace[OF solo_serving(1), of rr_path
      "[\<lparr> rr_path = ''h:/a/x'', rr_mode = Write \<rparr>, \<lparr> rr_path = ''h:/b'', rr_mode = Read \<rparr>]"]
  show ?thesis
    by (elim ex_forward conjE) (intro conjI; (assumption | simp only: list.set image_insert image_empty rel_req.simps ns))
qed

section \<open>Answers of many groups\<close>

text \<open>C18: a renewal over several groups succeeds exactly when every group answered with a renewal, at least one
  renewed, and none lost a path, where holding nothing counts as a loss only for groups the client declared;
  the holder is asked to yield if any group asks for it.\<close>

theorem renewals_combine:
  "combine_renewals declared broadcast False False resps = Inr (RenewOk revoke) \<longleftrightarrow>
     set resps \<subseteq> range RespRenew \<and>
     \<not> (\<exists>path reason. RespRenew (RenewLost path reason) \<in> set resps \<and> (path \<noteq> [] \<or> declared \<and> \<not> broadcast)) \<and>
     (\<exists>r. RespRenew (RenewOk r) \<in> set resps) \<and> revoke = (RespRenew (RenewOk True) \<in> set resps)"
proof -
  have "combine_renewals declared broadcast any rev resps = Inr (RenewOk revoke) \<longleftrightarrow>
     set resps \<subseteq> range RespRenew \<and>
     \<not> (\<exists>path reason. RespRenew (RenewLost path reason) \<in> set resps \<and> (path \<noteq> [] \<or> declared \<and> \<not> broadcast)) \<and>
     (any \<or> (\<exists>r. RespRenew (RenewOk r) \<in> set resps)) \<and> revoke = (rev \<or> RespRenew (RenewOk True) \<in> set resps)" for any rev
  proof (induction resps arbitrary: any rev)
    case (Cons x xs)
    show ?case
    proof (cases x)
      case (RespRenew y)
      with Cons show ?thesis by (cases y) auto
    qed (auto simp: image_iff)
  qed auto
  from this[of False False] show ?thesis by simp
qed

theorem renewals_combine_witness:
  "combine_renewals False True False False
     [RespRenew (RenewOk False), RespRenew (RenewLost [] MissingAlive), RespRenew (RenewOk True)] = Inr (RenewOk True) \<and>
   combine_renewals True False False False
     [RespRenew (RenewOk False), RespRenew (RenewLost [] MissingAlive), RespRenew (RenewOk True)] \<noteq> Inr (RenewOk True)"
  unfolding renewals_combine by auto












section \<open>The wait graph\<close>
























section \<open>Forwarding\<close>





section \<open>Identifiers and cursors\<close>

lemma nat_str_inj: "nat_str m = nat_str n \<longleftrightarrow> m = n"
  by (metis digits_val_nat_str)

lemma split_at_colon:
  assumes "CHR '':'' \<notin> set a" and "CHR '':'' \<notin> set b" and "a @ CHR '':'' # x = b @ CHR '':'' # y"
  shows "a = b \<and> x = y"
  using assms by (induction a arbitrary: b) (case_tac b; auto)+

text \<open>C20: request ids of different requests never meet. The id under which one part of a release is deduplicated
  determines the client's key and the namespace, whatever characters they contain, and is no id of a whole
  request and no id the node makes up itself.\<close>

theorem request_ids_are_apart:
  "(scoped_client_id key scope = scoped_client_id key' scope' \<longleftrightarrow> key = key' \<and> scope = scope') \<and>
   scoped_client_id key scope \<noteq> ''external:'' @ key' \<and>
   scoped_client_id key scope \<noteq> r_client_id (router_new routing node pid now w) \<and>
   ''external:'' @ key \<noteq> r_client_id (router_new routing node pid now w)"
proof -
  have "key = key' \<and> scope = scope'" if "scoped_client_id key scope = scoped_client_id key' scope'"
  proof -
    from that have "nat_str (length key) @ CHR '':'' # key @ '':'' @ scope = nat_str (length key') @ CHR '':'' # key' @ '':'' @ scope'"
      by (simp add: scoped_client_id_def)
    from split_at_colon[OF nat_str_no_colon nat_str_no_colon this]
    have "length key = length key'" "key @ '':'' @ scope = key' @ '':'' @ scope'" by (simp_all add: nat_str_inj)
    then show ?thesis by simp
  qed
  moreover obtain c rest where "u64_str node = c # rest" "is_digit c"
    unfolding u64_str_def by (rule nat_str_head)
  ultimately show ?thesis by (auto simp: scoped_client_id_def router_new_def is_digit_def)
qed

lemma u32_from_be: "word_of_nat (from_be (u32_be w)) = w"
  by (simp only: u32_be_def from_be_be_bytes unat_u32_bound word_of_nat_unat_eq)

text \<open>C21: the cursor of a page of a lock dump leads back to where the page ended: to its group and, inside it, to
  the key, if any.\<close>

theorem dump_cursor_roundtrip:
  assumes "g < group_count" and "rel \<noteq> Some []"
  shows "parse_dump_cursor group_count (Some (dump_cursor g rel)) = Inr (g, rel)"
  using assms by (auto simp: parse_dump_cursor_def dump_cursor_def Let_def u32_from_be split: option.splits)

theorem dump_cursor_roundtrip_witness: "parse_dump_cursor 4 (Some (dump_cursor 3 (Some ''k''))) = Inr (3, Some ''k'')"
  by (rule dump_cursor_roundtrip) simp_all

end
