(* ===== verification/Spec2Isabelle.thy ===== *)
theory Spec2Isabelle
  imports Replica Requests
begin

text \<open>
  A verification library for pathlockd, a distributed lock service for hierarchical paths. Clients acquire
  read, write and semaphore locks on paths; the lock state lives in Raft groups, each a replicated state
  machine over one RocksDB database per node; a router on every node sends a request to the group its
  namespace is placed on.

  \<^bold>\<open>How the parts fit.\<close> A request enters the router (\<open>src/src/cluster/router.rs\<close>), which resolves its
  namespace and group and proposes a command, on this node or through the transport of a peer
  (\<open>src/src/raft/server.rs\<close>). The state machine (\<open>src/src/raft/state_machine.rs\<close>) applies a committed command in one
  write transaction (\<open>src/src/store_rocksdb.rs\<close>), in which it runs the lock engine (\<open>src/src/engine.rs\<close>) and the wait
  queue (\<open>src/src/queue.rs\<close>). Raft keeps its log and votes in the same database (\<open>src/src/raft/log_store.rs\<close>) and
  brings lagging replicas up to date by snapshots (\<open>src/src/raft/snapshot.rs\<close>).

  \<^bold>\<open>The model\<close>, by theory:
  \<^item> \<open>Prelude\<close>, \<open>Text_Codec\<close>: byte strings, words, errors as values, the transaction monad \<open>txm\<close>, ordered maps, and the
    string and integer operations of the Rust standard library.
  \<^item> \<open>Store_Keys\<close> (\<open>store_keys.rs\<close>): column families, keys, expiry arithmetic. \<open>Store_Txn\<close>, \<open>Store_Admin\<close> (\<open>store_rocksdb.rs\<close>):
    stored records, the merged scan, the three transactions behind the trait \<open>StoreTxn\<close> (a record of functions,
    \<open>store_txn\<close>), group destruction, expiry maintenance and the administrative scans.
  \<^item> \<open>Lock_Types\<close>, \<open>Lock_Paths\<close>, \<open>Engine\<close> (\<open>engine.rs\<close>): one definition per function of the lock engine, over any
    \<open>store_txn\<close>. \<open>Queue\<close> (\<open>queue.rs\<close>): the persisted wait queue and the grant sweeps.
  \<^item> \<open>Placement\<close>, \<open>Directory\<close> (\<open>cluster/placement.rs\<close>, \<open>cluster/directory.rs\<close>): rendezvous placement and the directory.
  \<^item> \<open>State_Machine\<close> (\<open>raft/command.rs\<close>, \<open>raft/state_machine.rs\<close>): the commands and \<open>apply_with_meta\<close>, with the monotone
    clock, deduplication and the commit decision. \<open>Snapshot\<close>, \<open>Log_Store\<close>: images of a group, and the log, vote and
    markers as the database writes they are.
  \<^item> \<open>Effects\<close>: programs of server processes, which keep what they did when they fail. \<open>Transport\<close> (\<open>raft/types.rs\<close>,
    \<open>raft/server.rs\<close>, the sending of snapshots in \<open>raft/network.rs\<close>): reads, forwarded requests, snapshot streams.
    \<open>Router\<close> (\<open>cluster/router.rs\<close>): the caches as a record \<open>router\<close> and every operation as a program over it.
  \<^item> \<open>Mem_Store\<close>, \<open>Mem_Codec\<close>, \<open>Solo\<close>: a database in memory, a codec and a cluster of one node, on which the
    definitions are evaluated.

  \<^bold>\<open>What is assumed.\<close> RocksDB, bincode, xxh3, openraft, the clocks and the network are parameters. \<open>rocksdb_ok\<close> says that
  a database stores what a batch writes and iterates in key order; \<open>codec_ok\<close>, \<open>queue_codec_ok\<close> and \<open>frame_codec_ok\<close>
  say that what was encoded decodes to itself; the cluster a router works in is the record \<open>cluster\<close>, of which
  the invariant of the router assumes nothing. \<open>op_ok\<close> is what a command of the log satisfies: texts without NUL,
  and a path used either as a semaphore or not. \<open>wipe_covers\<close> says that no key of the system group lies above the
  bound its wipe uses.

  \<^bold>\<open>What is shown.\<close>
  \<^item> \<open>Store_View\<close>, \<open>Store_Interface\<close>: what a transaction reads is the database with its writes on top; the contract of
    \<open>StoreTxn\<close> is the locales \<open>store_reads\<close>, \<open>store_writes\<close> and \<open>store_read_only\<close>, interpreted on the three transactions.
    \<open>Engine_Frame\<close>: the engine writes under its own keys only (locale \<open>store_frame\<close>).
  \<^item> \<open>Lock_Table\<close>, \<open>Table_Logic\<close>, \<open>Lock_Invariant\<close>, \<open>Lock_Validate\<close>, \<open>Lock_Safety\<close>: the records of a transaction as a table of
    locks, a program logic over it, the invariant that excludes conflicting holders and overfull semaphores, and
    that validation and application keep it. \<open>Lock_Engine\<close>: the resulting theorems on acquire and release.
  \<^item> \<open>Group_Safety\<close>, \<open>Queue_Safety\<close>, \<open>Machine_Safety\<close>: every command keeps the invariant of its group. \<open>Raft_State\<close>,
    \<open>Snapshot_Transfer\<close>: Raft's own writes are apart from it and a snapshot carries it. \<open>Replica\<close>: so mutual exclusion
    and semaphore capacity hold in every database a node can get to.
  \<^item> \<open>Routing\<close>: the invariant of the router's caches over every history of requests, and that no request panics.
    \<open>Requests\<close>: resolution by longest namespace and memoized placement, refusal of acquires over several
    namespaces, division of releases, combination of renewals, the resilient fan-out, soundness and completeness of the
    walk of the wait graph, transparency of forwarding, request ids and dump cursors.

  \<^bold>\<open>Loops and bounds.\<close> Loops are recursion on their data or on a count the code has itself: \<open>apply_hops\<close> and \<open>read_hops\<close> on
  \<open>MAX_FORWARD_HOPS\<close>, \<open>resilient_rounds\<close> on \<open>MAX_RETRIES + 1\<close>, \<open>walk_waits\<close> on \<open>max_depth + 1\<close>. The paging loop of an
  owner-wide release has no bound of its own; \<open>release_paging_ends\<close> shows that it ends.

  \<^bold>\<open>Not modelled.\<close> Requests of one router run one after the other; concurrent ones meet only in the world, and in the
  order \<open>completion\<close> gives to the tasks of one fan-out. The start-up probes that poll until a deadline
  (\<open>discover_existing_cluster\<close>, \<open>probe_writer\<close>) and the gauges are left out, as is the fsync batcher of the log store. The
  gRPC service and its streams, events, the web gateway, gossip, the controller and health checks, configuration,
  telemetry and start-up are not modelled: they translate messages, drive libraries outside the repository, or are
  input and output. Neither are the tuning of RocksDB and the adapters between openraft and gRPC.
\<close>

end
